(* ===== verification/Prelude.thy ===== *)
theory Prelude
  imports Main "HOL-Library.Word" "HOL-Library.List_Lexorder" "HOL-Library.Char_ord"
begin

text \<open>
  Shared vocabulary of the development: machine integers and the arithmetic the Rust code
  uses on them (saturating, checked, casts), byte strings with decimal and hexadecimal
  formatting, the \<open>Result\<close> type as a sum with its \<open>?\<close>-operator, and the vector operations
  (\<open>pop\<close>, \<open>position\<close>, \<open>find_map\<close>) that the components share.
  A Rust \<open>String\<close>, \<open>&str\<close>, \<open>Vec<u8>\<close> or \<open>[u8; N]\<close> is a \<open>string\<close>: a \<open>char\<close> of HOL is a byte.
\<close>

section \<open>Types\<close>

type_synonym u8 = "8 word"
type_synonym u16 = "16 word"
type_synonym u32 = "32 word"
type_synonym u64 = "64 word"
type_synonym i64 = "64 word"  \<comment> \<open>read with \<open>sint\<close>\<close>
type_synonym f64 = "64 word"  \<comment> \<open>the IEEE 754 bit pattern\<close>
type_synonym bytes = string
type_synonym hash32 = bytes   \<comment> \<open>\<open>[u8; 32]\<close>\<close>
type_synonym uuid = "128 word"
type_synonym timestamp = i64

named_theorems res_simps \<open>equations of the Result operations\<close>
named_theorems vec_simps \<open>equations of the vector operations\<close>
named_theorems btree_simps \<open>laws of the ordered map\<close>

section \<open>Machine arithmetic\<close>

definition sat_add :: "'a::len word \<Rightarrow> 'a word \<Rightarrow> 'a word" where
  "sat_add a b = (if unat a + unat b < 2 ^ LENGTH('a) then a + b else - 1)"

definition sat_sub :: "'a::len word \<Rightarrow> 'a word \<Rightarrow> 'a word" where
  "sat_sub a b = (if b \<le> a then a - b else 0)"

definition checked_add :: "'a::len word \<Rightarrow> 'a word \<Rightarrow> 'a word option" where
  "checked_add a b = (if unat a + unat b < 2 ^ LENGTH('a) then Some (a + b) else None)"

text \<open>\<open>i64::try_from(u64)\<close>: the same bits when the value fits the positive range.\<close>

definition i64_try_from :: "u64 \<Rightarrow> i64 option" where
  "i64_try_from n = (if unat n < 2 ^ 63 then Some n else None)"

text \<open>\<open>u64::try_from(i64)\<close>.\<close>

definition u64_try_from :: "i64 \<Rightarrow> u64 option" where
  "u64_try_from n = (if 0 \<le> sint n then Some n else None)"

text \<open>\<open>d.max(0) as u64\<close> on a signed value.\<close>

definition max0_u64 :: "i64 \<Rightarrow> u64" where
  "max0_u64 d = (if sint d < 0 then 0 else d)"

lemma unat_sat_add: "unat (sat_add a b) = min (unat a + unat b) (2 ^ LENGTH('a) - 1)"
  for a b :: "'a::len word"
  by (auto simp: sat_add_def unat_word_ariths unsigned_minus_1_eq_mask mask_eq_exp_minus_1)

lemma unat_lt: "unat (a :: 'a::len word) < 2 ^ LENGTH('a)"
  by (rule unsigned_less)

lemma unat_le_max: "unat (a :: 'a::len word) \<le> 2 ^ LENGTH('a) - Suc 0"
  using unat_lt [of a] by linarith

lemma sat_add_ge: "a \<le> sat_add a b"
proof -
  have "unat a \<le> unat (sat_add a b)"
    using unat_le_max [of a] by (simp add: unat_sat_add)
  then show ?thesis by (simp add: word_le_nat_alt)
qed

lemma unat_sat_sub: "unat (sat_sub a b) = unat a - unat b"
  by (auto simp: sat_sub_def unat_sub word_le_nat_alt)

lemma checked_add_Some: "checked_add a b = Some c \<Longrightarrow> unat c = unat a + unat b"
  by (auto simp: checked_add_def unat_word_ariths split: if_splits)

lemma uint_eq_sint: "0 \<le> sint d \<Longrightarrow> uint d = sint d" for d :: "64 word"
  using sint_lt [of d] by (simp add: uint_sint take_bit_int_eq_self)

lemma max0_u64_bound: "uint (max0_u64 d) < 2 ^ 63"
  using sint_lt [of d] by (auto simp: max0_u64_def uint_eq_sint)

section \<open>Results and options\<close>

text \<open>\<open>Result<A, E>\<close> is \<open>'e + 'a\<close>; \<open>try_res\<close> is the \<open>?\<close>-operator followed by the rest of
  the block.\<close>

definition try_res :: "'e + 'a \<Rightarrow> ('a \<Rightarrow> 'e + 'b) \<Rightarrow> 'e + 'b" where
  "try_res r f = (case r of Inl e \<Rightarrow> Inl e | Inr a \<Rightarrow> f a)"

definition ok_or :: "'a option \<Rightarrow> 'e \<Rightarrow> 'e + 'a" where
  "ok_or v e = (case v of None \<Rightarrow> Inl e | Some a \<Rightarrow> Inr a)"

definition map_err :: "('e \<Rightarrow> 'f) \<Rightarrow> 'e + 'a \<Rightarrow> 'f + 'a" where
  "map_err f r = (case r of Inl e \<Rightarrow> Inl (f e) | Inr a \<Rightarrow> Inr a)"

definition unwrap_or :: "'a option \<Rightarrow> 'a \<Rightarrow> 'a" where
  "unwrap_or v d = (case v of None \<Rightarrow> d | Some a \<Rightarrow> a)"

lemma try_res_simps [simp, res_simps]:
  "try_res (Inl e) f = Inl e"
  "try_res (Inr a) f = f a"
  by (simp_all add: try_res_def)

lemma ok_or_simps [simp, res_simps]:
  "ok_or None e = Inl e"
  "ok_or (Some a) e = Inr a"
  by (simp_all add: ok_or_def)

lemma map_err_simps [simp, res_simps]:
  "map_err g (Inl e) = Inl (g e)"
  "map_err g (Inr a) = Inr a"
  by (simp_all add: map_err_def)

lemma unwrap_or_simps [simp, res_simps]:
  "unwrap_or None d = d"
  "unwrap_or (Some a) d = a"
  by (simp_all add: unwrap_or_def)

lemma try_res_Inr [res_simps]: "try_res r f = Inr b \<longleftrightarrow> (\<exists>a. r = Inr a \<and> f a = Inr b)"
  by (cases r) auto

lemma try_res_Inl [res_simps]:
  "try_res r f = Inl e \<longleftrightarrow> r = Inl e \<or> (\<exists>a. r = Inr a \<and> f a = Inl e)"
  by (cases r) auto

lemma ok_or_Inr [res_simps]: "ok_or x e = Inr a \<longleftrightarrow> x = Some a"
  by (cases x) auto

lemma ok_or_Inl [res_simps]: "ok_or x e = Inl e' \<longleftrightarrow> x = None \<and> e' = e"
  by (cases x) auto

lemma map_err_Inr [res_simps]: "map_err g r = Inr a \<longleftrightarrow> r = Inr a"
  by (cases r) auto

lemma try_resE:
  assumes "try_res r f = Inr b"
  obtains a where "r = Inr a" and "f a = Inr b"
  using assms by (auto simp: try_res_Inr)

text \<open>A \<open>for\<close> loop whose body may return an error: the first error ends it.\<close>

fun for_res :: "('a \<Rightarrow> 'e + unit) \<Rightarrow> 'a list \<Rightarrow> 'e + unit" where
  "for_res f [] = Inr ()"
| "for_res f (a # as) = try_res (f a) (\<lambda>_. for_res f as)"

text \<open>A loop that threads a state.\<close>

fun fold_res :: "('a \<Rightarrow> 's \<Rightarrow> 'e + 's) \<Rightarrow> 'a list \<Rightarrow> 's \<Rightarrow> 'e + 's" where
  "fold_res f [] s = Inr s"
| "fold_res f (a # as) s = try_res (f a s) (fold_res f as)"

lemma for_res_ok [res_simps]: "for_res f as = Inr u \<longleftrightarrow> (\<forall>a\<in>set as. f a = Inr ())"
proof (induction as)
  case (Cons a as)
  then show ?case by (cases "f a") (auto simp: res_simps)
qed simp

lemma for_res_err: "for_res f as = Inl e \<Longrightarrow> \<exists>a\<in>set as. f a = Inl e"
proof (induction as)
  case (Cons a as)
  then show ?case by (cases "f a") (auto simp: res_simps)
qed simp

lemma fold_res_append [res_simps]:
  "fold_res f (xs @ ys) s = try_res (fold_res f xs s) (fold_res f ys)"
proof (induction xs arbitrary: s)
  case (Cons a as)
  then show ?case by (cases "f a s") (auto simp: res_simps)
qed (simp add: res_simps)

section \<open>Vectors\<close>

text \<open>A \<open>Vec\<close> is a list in index order, so \<open>push\<close> appends and \<open>pop\<close> takes the last element.\<close>

definition vec_pop :: "'a list \<Rightarrow> ('a \<times> 'a list) option" where
  "vec_pop xs = (if xs = [] then None else Some (last xs, butlast xs))"

definition vec_last :: "'a list \<Rightarrow> 'a option" where
  "vec_last xs = (if xs = [] then None else Some (last xs))"

definition vec_get :: "'a list \<Rightarrow> nat \<Rightarrow> 'a option" where
  "vec_get xs i = (if i < length xs then Some (xs ! i) else None)"

fun position :: "('a \<Rightarrow> bool) \<Rightarrow> 'a list \<Rightarrow> nat option" where
  "position P [] = None"
| "position P (x # xs) = (if P x then Some 0 else map_option Suc (position P xs))"

fun find_map :: "('a \<Rightarrow> 'b option) \<Rightarrow> 'a list \<Rightarrow> 'b option" where
  "find_map f [] = None"
| "find_map f (x # xs) = (case f x of None \<Rightarrow> find_map f xs | Some y \<Rightarrow> Some y)"

lemma vec_pop_simps [simp, vec_simps]:
  "vec_pop [] = None"
  "vec_pop (xs @ [x]) = Some (x, xs)"
  by (simp_all add: vec_pop_def)

lemma vec_pop_Some: "vec_pop xs = Some (x, ys) \<longleftrightarrow> xs = ys @ [x]"
  by (auto simp: vec_pop_def)

lemma vec_pop_None: "vec_pop xs = None \<longleftrightarrow> xs = []"
  by (simp add: vec_pop_def)

lemma vec_get_Some: "vec_get xs i = Some a \<longleftrightarrow> i < length xs \<and> xs ! i = a"
  by (auto simp: vec_get_def)

lemma position_None: "position P xs = None \<longleftrightarrow> (\<forall>x\<in>set xs. \<not> P x)"
  by (induction xs) auto

lemma position_Some:
  "position P xs = Some i \<Longrightarrow> i < length xs \<and> P (xs ! i) \<and> (\<forall>j<i. \<not> P (xs ! j))"
proof (induction xs arbitrary: i)
  case Nil
  then show ?case by simp
next
  case (Cons x xs)
  show ?case
  proof (cases "P x")
    case True
    with Cons.prems show ?thesis by auto
  next
    case False
    with Cons.prems obtain j where j: "position P xs = Some j" "i = Suc j" by auto
    from Cons.IH [OF j(1)] False j(2) show ?thesis
      by (auto simp: less_Suc_eq_0_disj)
  qed
qed

lemma position_eq_ex: "(\<exists>i. position (\<lambda>y. y = x) xs = Some i) \<longleftrightarrow> x \<in> set xs"
  using position_None [of "\<lambda>y. y = x" xs] by (cases "position (\<lambda>y. y = x) xs") auto

lemma find_map_Some:
  "find_map f xs = Some y \<Longrightarrow>
     \<exists>us x vs. xs = us @ x # vs \<and> f x = Some y \<and> (\<forall>u\<in>set us. f u = None)"
proof (induction xs)
  case Nil
  then show ?case by simp
next
  case (Cons a xs)
  show ?case
  proof (cases "f a")
    case None
    with Cons obtain us x vs where "xs = us @ x # vs" "f x = Some y" "\<forall>u\<in>set us. f u = None"
      by auto
    with None have "a # xs = (a # us) @ x # vs \<and> f x = Some y \<and> (\<forall>u\<in>set (a # us). f u = None)"
      by simp
    then show ?thesis by blast
  next
    case (Some b)
    with Cons.prems show ?thesis by (intro exI [of _ "[]"]) auto
  qed
qed

lemma find_map_None: "find_map f xs = None \<longleftrightarrow> (\<forall>x\<in>set xs. f x = None)"
  by (induction xs) (auto split: option.splits)

lemma find_Some_iff_prefix:
  "find P xs = Some x \<Longrightarrow> \<exists>us vs. xs = us @ x # vs \<and> P x \<and> (\<forall>u\<in>set us. \<not> P u)"
proof (induction xs)
  case Nil
  then show ?case by simp
next
  case (Cons a xs)
  show ?case
  proof (cases "P a")
    case True
    with Cons.prems have "a # xs = [] @ x # xs \<and> P x" by simp
    then show ?thesis by (metis empty_iff empty_set)
  next
    case False
    with Cons obtain us vs where "xs = us @ x # vs" "P x" "\<forall>u\<in>set us. \<not> P u" by auto
    with False have "a # xs = (a # us) @ x # vs \<and> P x \<and> (\<forall>u\<in>set (a # us). \<not> P u)" by simp
    then show ?thesis by blast
  qed
qed

section \<open>Formatting and parsing\<close>

text \<open>Decimal digits of a number, as \<open>Display\<close> of an unsigned integer prints them.\<close>

definition digit_char :: "nat \<Rightarrow> char" where
  "digit_char d = char_of (48 + d)"

fun dec_nat :: "nat \<Rightarrow> string" where
  "dec_nat n = (if n < 10 then [digit_char n] else dec_nat (n div 10) @ [digit_char (n mod 10)])"

declare dec_nat.simps [simp del]

definition dec_u :: "'a::len word \<Rightarrow> string" where
  "dec_u w = dec_nat (unat w)"

definition dec_i64 :: "i64 \<Rightarrow> string" where
  "dec_i64 w = (if sint w < 0 then ''-'' @ dec_nat (nat (- sint w)) else dec_nat (nat (sint w)))"

definition is_digit :: "char \<Rightarrow> bool" where
  "is_digit c \<longleftrightarrow> 48 \<le> (of_char c :: nat) \<and> (of_char c :: nat) \<le> 57"

definition digits_value :: "string \<Rightarrow> nat" where
  "digits_value s = foldl (\<lambda>a c. 10 * a + (of_char c - 48)) 0 s"

text \<open>\<open>str::parse::<u32>\<close>: an optional plus sign, at least one digit, no overflow.\<close>

definition parse_u32 :: "string \<Rightarrow> u32 option" where
  "parse_u32 s =
     (let ds = (case s of [] \<Rightarrow> [] | c # cs \<Rightarrow> if c = CHR ''+'' then cs else s)
      in if ds \<noteq> [] \<and> list_all is_digit ds \<and> digits_value ds < 2 ^ 32
         then Some (of_nat (digits_value ds)) else None)"

definition strip_prefix :: "string \<Rightarrow> string \<Rightarrow> string option" where
  "strip_prefix p s = (if take (length p) s = p then Some (drop (length p) s) else None)"

definition hex_digit :: "nat \<Rightarrow> char" where
  "hex_digit d = (if d < 10 then char_of (48 + d) else char_of (87 + d))"

text \<open>\<open>{byte:02x}\<close> of every byte.\<close>

definition hex_bytes :: "bytes \<Rightarrow> string" where
  "hex_bytes bs = concat (map (\<lambda>c. [hex_digit (of_char c div 16), hex_digit (of_char c mod 16)]) bs)"

lemma digit_char_is_digit: "d < 10 \<Longrightarrow> is_digit (digit_char d)"
  by (simp add: is_digit_def digit_char_def)

lemma dec_nat_digits: "list_all is_digit (dec_nat n)"
proof (induction n rule: dec_nat.induct)
  case (1 n)
  then show ?case
    by (subst dec_nat.simps) (auto simp: digit_char_is_digit)
qed

lemma dec_nat_ne: "dec_nat n \<noteq> []"
  by (subst dec_nat.simps) simp

lemma digits_value_snoc: "digits_value (s @ [c]) = 10 * digits_value s + (of_char c - 48)"
  by (simp add: digits_value_def)

lemma digits_value_dec_nat: "digits_value (dec_nat n) = n"
proof (induction n rule: dec_nat.induct)
  case (1 n)
  show ?case
  proof (cases "n < 10")
    case True
    then show ?thesis
      by (simp add: dec_nat.simps [of n] digits_value_def digit_char_def)
  next
    case False
    with 1 have "digits_value (dec_nat (n div 10)) = n div 10" by simp
    with False show ?thesis
      by (simp add: dec_nat.simps [of n] digits_value_snoc digit_char_def)
  qed
qed

lemma dec_nat_inject: "dec_nat m = dec_nat n \<longleftrightarrow> m = n"
  using digits_value_dec_nat by metis

lemma dec_u_inject: "dec_u (a :: 'a::len word) = dec_u b \<longleftrightarrow> a = b"
  by (simp add: dec_u_def dec_nat_inject word_unat_eq_iff)

lemma parse_u32_dec: "parse_u32 (dec_u (k :: u32)) = Some k"
proof -
  have d: "list_all is_digit (dec_nat (unat k))" by (rule dec_nat_digits)
  obtain c cs where cs: "dec_nat (unat k) = c # cs"
    using dec_nat_ne [of "unat k"] by (cases "dec_nat (unat k)") auto
  with d have "is_digit c" by simp
  then have "c \<noteq> CHR ''+''" by (auto simp: is_digit_def)
  moreover have "digits_value (c # cs) < 2 ^ 32"
    using digits_value_dec_nat [of "unat k"] unat_lt [of k] by (simp add: cs)
  moreover have "of_nat (digits_value (c # cs)) = k"
    using digits_value_dec_nat [of "unat k"] by (simp add: cs)
  ultimately show ?thesis
    using d by (simp add: parse_u32_def dec_u_def cs Let_def)
qed

lemma strip_prefix_append [simp]: "strip_prefix p (p @ s) = Some s"
  by (simp add: strip_prefix_def)

end
