(* ===== verification/Btree.thy ===== *)
theory Btree
  imports Prelude
begin

text \<open>
  \<open>std::collections::BTreeMap\<close> and \<open>BTreeSet\<close>. A map is a list of entries in strictly
  ascending key order (a \<^theory_text>\<open>typedef\<close>, so two maps with the same contents are equal);
  iteration follows that order, which the kernel relies on for determinism. The locale
  \<open>ordered_map\<close> states what the clients use; \<open>bt\<close> interprets it on the model of \<open>BTreeMap\<close>.
\<close>

section \<open>Sorted association lists\<close>

fun al_insert :: "'k::linorder \<Rightarrow> 'v \<Rightarrow> ('k \<times> 'v) list \<Rightarrow> ('k \<times> 'v) list" where
  "al_insert k v [] = [(k, v)]"
| "al_insert k v ((k', v') # xs) =
     (if k < k' then (k, v) # (k', v') # xs
      else if k = k' then (k, v) # xs
      else (k', v') # al_insert k v xs)"

definition al_remove :: "'k \<Rightarrow> ('k \<times> 'v) list \<Rightarrow> ('k \<times> 'v) list" where
  "al_remove k xs = filter (\<lambda>p. fst p \<noteq> k) xs"

definition al_wf :: "('k::linorder \<times> 'v) list \<Rightarrow> bool" where
  "al_wf xs \<longleftrightarrow> sorted_wrt (<) (map fst xs)"

lemma al_wf_simps [simp]:
  "al_wf []"
  "al_wf (p # xs) \<longleftrightarrow> (\<forall>q\<in>set xs. fst p < fst q) \<and> al_wf xs"
  by (auto simp: al_wf_def)

lemma fst_set_al_insert: "fst ` set (al_insert k v xs) = insert k (fst ` set xs)"
  by (induction k v xs rule: al_insert.induct) auto

lemma al_wf_insert: "al_wf xs \<Longrightarrow> al_wf (al_insert k v xs)"
proof (induction k v xs rule: al_insert.induct)
  case (2 k v k' v' xs)
  have "\<forall>q\<in>set (al_insert k v xs). fst q \<in> insert k (fst ` set xs)"
    using fst_set_al_insert [of k v xs] by blast
  with 2 show ?case by fastforce
qed simp

lemma map_of_al_insert: "map_of (al_insert k v xs) = (map_of xs)(k \<mapsto> v)"
  by (induction k v xs rule: al_insert.induct) (auto simp: fun_eq_iff)

lemma al_wf_remove: "al_wf xs \<Longrightarrow> al_wf (al_remove k xs)"
  by (induction xs) (auto simp: al_remove_def)

lemma map_of_al_remove: "map_of (al_remove k xs) = (map_of xs)(k := None)"
  by (induction xs) (auto simp: al_remove_def fun_eq_iff)

lemma al_wf_distinct: "al_wf xs \<Longrightarrow> distinct (map fst xs)"
  by (induction xs) auto

lemma al_wf_unique:
  assumes "al_wf xs" "al_wf ys" "map_of xs = map_of ys"
  shows "xs = ys"
proof -
  have d: "distinct (map fst xs)" "distinct (map fst ys)"
    using assms(1,2) by (auto intro: al_wf_distinct)
  have s: "set xs = set ys"
    using d assms(3) map_of_eq_Some_iff by (metis subset_antisym subrelI)
  have "map fst xs = map fst ys"
  proof (rule sorted_distinct_set_unique)
    show "sorted (map fst xs)" "sorted (map fst ys)"
      using assms(1,2) by (auto simp: al_wf_def strict_sorted_iff)
  qed (use d s in auto)
  moreover have "map snd xs = map snd ys"
  proof -
    have "map snd zs = map (\<lambda>k. the (map_of zs k)) (map fst zs)" if "distinct (map fst zs)"
      for zs :: "('a \<times> 'b) list"
      using that by auto
    then show ?thesis using d assms(3) calculation by metis
  qed
  ultimately show ?thesis by (metis zip_map_fst_snd)
qed

section \<open>The map type\<close>

typedef (overloaded) ('k::linorder, 'v) btree = "{xs :: ('k \<times> 'v) list. al_wf xs}"
  morphisms bt_entries Abs_btree
  by (rule exI [of _ "[]"]) simp

setup_lifting type_definition_btree

lift_definition bt_empty :: "('k::linorder, 'v) btree" is "[]" by simp

lift_definition bt_insert :: "'k::linorder \<Rightarrow> 'v \<Rightarrow> ('k, 'v) btree \<Rightarrow> ('k, 'v) btree"
  is al_insert by (rule al_wf_insert)

lift_definition bt_remove :: "'k::linorder \<Rightarrow> ('k, 'v) btree \<Rightarrow> ('k, 'v) btree"
  is al_remove by (rule al_wf_remove)

definition bt_get :: "('k::linorder, 'v) btree \<Rightarrow> 'k \<Rightarrow> 'v option" where
  "bt_get m k = map_of (bt_entries m) k"

definition bt_keys :: "('k::linorder, 'v) btree \<Rightarrow> 'k list" where
  "bt_keys m = map fst (bt_entries m)"

definition bt_values :: "('k::linorder, 'v) btree \<Rightarrow> 'v list" where
  "bt_values m = map snd (bt_entries m)"

definition bt_is_empty :: "('k::linorder, 'v) btree \<Rightarrow> bool" where
  "bt_is_empty m \<longleftrightarrow> bt_entries m = []"

definition bt_len :: "('k::linorder, 'v) btree \<Rightarrow> nat" where
  "bt_len m = length (bt_entries m)"

definition bt_contains :: "('k::linorder, 'v) btree \<Rightarrow> 'k \<Rightarrow> bool" where
  "bt_contains m k \<longleftrightarrow> bt_get m k \<noteq> None"

definition bt_of_list :: "('k::linorder \<times> 'v) list \<Rightarrow> ('k, 'v) btree" where
  "bt_of_list xs = fold (\<lambda>(k, v) m. bt_insert k v m) xs bt_empty"

lemma bt_entries_simps [btree_simps]:
  "bt_entries bt_empty = []"
  "bt_entries (bt_insert k v m) = al_insert k v (bt_entries m)"
  "bt_entries (bt_remove k m) = al_remove k (bt_entries m)"
  by (transfer; simp)+

lemma bt_get_empty [simp, btree_simps]: "bt_get bt_empty k = None"
  by (simp add: bt_get_def bt_entries_simps)

lemma bt_get_insert [btree_simps]: "bt_get (bt_insert k v m) = (bt_get m)(k \<mapsto> v)"
  by (simp add: bt_get_def bt_entries_simps map_of_al_insert fun_eq_iff)

lemma bt_get_remove [btree_simps]: "bt_get (bt_remove k m) = (bt_get m)(k := None)"
  by (simp add: bt_get_def bt_entries_simps map_of_al_remove fun_eq_iff)

lemma bt_get_insert_same [simp]: "bt_get (bt_insert k v m) k = Some v"
  by (simp add: bt_get_insert)

lemma bt_get_remove_same [simp]: "bt_get (bt_remove k m) k = None"
  by (simp add: bt_get_remove)

lemma bt_entries_wf [simp]: "al_wf (bt_entries m)"
  using bt_entries by blast

lemma bt_entries_mem: "(k, v) \<in> set (bt_entries m) \<longleftrightarrow> bt_get m k = Some v"
  by (simp add: bt_get_def al_wf_distinct)

lemma bt_keys_mem: "k \<in> set (bt_keys m) \<longleftrightarrow> bt_get m k \<noteq> None"
proof -
  have "k \<in> fst ` set (bt_entries m) \<longleftrightarrow> (\<exists>v. bt_get m k = Some v)"
    using bt_entries_mem [of k _ m] by force
  then show ?thesis by (simp add: bt_keys_def)
qed

lemma bt_values_mem: "v \<in> set (bt_values m) \<longleftrightarrow> (\<exists>k. bt_get m k = Some v)"
proof -
  have "v \<in> snd ` set (bt_entries m) \<longleftrightarrow> (\<exists>k. bt_get m k = Some v)"
    using bt_entries_mem [of _ v m] by force
  then show ?thesis by (simp add: bt_values_def)
qed

lemma bt_eqI: "bt_get m = bt_get m' \<Longrightarrow> m = m'"
proof -
  assume "bt_get m = bt_get m'"
  then have "map_of (bt_entries m) = map_of (bt_entries m')"
    by (simp add: bt_get_def fun_eq_iff)
  then have "bt_entries m = bt_entries m'"
    by (intro al_wf_unique) simp_all
  then show ?thesis by (simp add: bt_entries_inject)
qed

lemma bt_is_empty_iff: "bt_is_empty m \<longleftrightarrow> (\<forall>k. bt_get m k = None)"
proof
  assume "bt_is_empty m"
  then show "\<forall>k. bt_get m k = None" by (simp add: bt_is_empty_def bt_get_def)
next
  assume "\<forall>k. bt_get m k = None"
  then have "bt_get m = bt_get bt_empty" by (simp add: fun_eq_iff)
  then have "m = bt_empty" by (rule bt_eqI)
  then show "bt_is_empty m" by (simp add: bt_is_empty_def bt_entries_simps)
qed

lemma bt_keys_distinct [simp]: "distinct (bt_keys m)"
  by (simp add: bt_keys_def al_wf_distinct)

lemma bt_keys_sorted: "sorted_wrt (<) (bt_keys m)"
  using bt_entries_wf [of m] by (simp only: bt_keys_def al_wf_def)

lemma bt_insert_get: "bt_get m k = Some v \<Longrightarrow> bt_insert k v m = m"
  by (rule bt_eqI) (auto simp: bt_get_insert)

section \<open>The map interface\<close>

text \<open>
  What the kernel relies on when it folds a transition's deltas onto a map: insertion and
  removal act pointwise. The consequences for a whole batch of upserts followed by a batch
  of deletes are proved once here.
\<close>

locale ordered_map =
  fixes empty :: "'m"
    and insert :: "'k \<Rightarrow> 'v \<Rightarrow> 'm \<Rightarrow> 'm"
    and remove :: "'k \<Rightarrow> 'm \<Rightarrow> 'm"
    and get :: "'m \<Rightarrow> 'k \<Rightarrow> 'v option"
  assumes get_empty: "get empty k = None"
    and get_insert: "get (insert k v m) = (get m)(k \<mapsto> v)"
    and get_remove: "get (remove k m) = (get m)(k := None)"
    and get_ext: "get m = get m' \<Longrightarrow> m = m'"
begin

lemma get_fold_insert:
  "get (fold (\<lambda>a. insert (key a) a) xs m) k =
     (case find (\<lambda>a. key a = k) (rev xs) of None \<Rightarrow> get m k | Some a \<Rightarrow> Some a)"
proof (induction xs rule: rev_induct)
  case Nil
  then show ?case by simp
next
  case (snoc x xs)
  then show ?case by (simp add: get_insert)
qed

lemma get_fold_remove:
  "get (fold remove ks m) k = (if k \<in> set ks then None else get m k)"
  by (induction ks rule: rev_induct) (auto simp: get_remove)

lemma get_batch:
  "get (fold remove ks (fold (\<lambda>a. insert (key a) a) xs m)) k =
     (if k \<in> set ks then None
      else case find (\<lambda>a. key a = k) (rev xs) of None \<Rightarrow> get m k | Some a \<Rightarrow> Some a)"
  by (simp add: get_fold_remove get_fold_insert)

lemma fold_remove_set: "set ks = set ks' \<Longrightarrow> fold remove ks m = fold remove ks' m"
  by (rule get_ext) (simp add: fun_eq_iff get_fold_remove)

end

interpretation bt: ordered_map bt_empty bt_insert bt_remove bt_get
  by unfold_locales (simp_all add: bt_get_insert bt_get_remove bt_eqI)

section \<open>Sets\<close>

type_synonym 'k bset = "('k, unit) btree"

definition bs_insert :: "'k::linorder \<Rightarrow> 'k bset \<Rightarrow> 'k bset" where
  "bs_insert k s = bt_insert k () s"

definition bs_remove :: "'k::linorder \<Rightarrow> 'k bset \<Rightarrow> 'k bset" where
  "bs_remove k s = bt_remove k s"

definition bs_contains :: "'k::linorder bset \<Rightarrow> 'k \<Rightarrow> bool" where
  "bs_contains s k \<longleftrightarrow> bt_get s k \<noteq> None"

definition bs_list :: "'k::linorder bset \<Rightarrow> 'k list" where
  "bs_list s = bt_keys s"

definition bs_of_list :: "'k::linorder list \<Rightarrow> 'k bset" where
  "bs_of_list ks = fold bs_insert ks bt_empty"

abbreviation bs_set :: "'k::linorder bset \<Rightarrow> 'k set" where
  "bs_set s \<equiv> set (bs_list s)"

lemma bs_contains_iff [btree_simps]: "bs_contains s k \<longleftrightarrow> k \<in> bs_set s"
  by (simp add: bs_contains_def bs_list_def bt_keys_mem)

lemma bs_set_empty [simp, btree_simps]: "bs_set bt_empty = {}"
  by (simp add: bs_list_def bt_keys_def bt_entries_simps)

lemma bs_set_insert [simp, btree_simps]: "bs_set (bs_insert k s) = insert k (bs_set s)"
  by (auto simp: bs_list_def bt_keys_mem bs_insert_def bt_get_insert split: if_splits)

lemma bs_set_remove [simp, btree_simps]: "bs_set (bs_remove k s) = bs_set s - {k}"
  by (auto simp: bs_list_def bt_keys_mem bs_remove_def bt_get_remove split: if_splits)

lemma bs_eqI: "bs_set s = bs_set t \<Longrightarrow> s = t"
proof -
  assume "bs_set s = bs_set t"
  then have "bt_get s k \<noteq> None \<longleftrightarrow> bt_get t k \<noteq> None" for k
    by (simp add: bs_list_def set_eq_iff bt_keys_mem)
  then have "bt_get s k = bt_get t k" for k
    by (metis not_None_eq old.unit.exhaust)
  then show "s = t" by (intro bt_eqI) (simp add: fun_eq_iff)
qed

lemma bs_list_distinct [simp]: "distinct (bs_list s)"
  by (simp add: bs_list_def)

lemma bs_set_fold_insert: "bs_set (fold bs_insert ks s) = set ks \<union> bs_set s"
  by (induction ks arbitrary: s) auto

lemma bs_set_of_list [simp, btree_simps]: "bs_set (bs_of_list ks) = set ks"
  by (simp add: bs_of_list_def bs_set_fold_insert)

end
