(* ===== verification/External.thy ===== *)
theory External
  imports Btree
begin

text \<open>
  The boundary to code that is not part of the repository. \<open>serde_json::Value\<close> is a datatype
  with the constructors the source matches on; a number is opaque. The record \<open>ext\<close> collects the
  third-party functions the kernel calls (BLAKE3, the \<open>uuid\<close> formatter, the JSON parser and
  printer, the serde form of the session stack): every definition that needs one takes the
  record as its first argument, and nothing is assumed about it unless a theorem says so.
  The identity functions of \<open>bpmn-lite-types/src/transition.rs\<close> (\<open>EffectId\<close>) are defined on
  top of it.
\<close>

unbundle bit_operations_syntax

section \<open>JSON values and the session stack\<close>

datatype jnumber = JNum string

datatype json =
    J_Null
  | J_Bool bool
  | J_Number jnumber
  | J_String string
  | J_Array "json list"
  | J_Object "(string \<times> json) list"  \<comment> \<open>entries in ascending key order\<close>

record session_scope_state =
  sc_client_group_id :: uuid
  sc_client_group_name :: "string option"

datatype session_workspace_kind =
    ProductMaintenance | Catalogue | Deal | Cbu | Kyc | InstrumentMatrix | OnBoarding
  | SemOsMaintenance | LifecycleResources | BookingPrincipal | Bpmn

record session_stack_state =
  ss_session_id :: uuid
  ss_scope :: "session_scope_state option"
  ss_active_workspace :: "session_workspace_kind option"
  ss_workspace_stack :: "json list"
  ss_trace_sequence :: u64

section \<open>Third-party functions\<close>

record ext =
  x_blake3 :: "bytes \<Rightarrow> hash32"
  x_uuid_string :: "uuid \<Rightarrow> string"
  x_json_parse :: "bytes \<Rightarrow> string + json"   \<comment> \<open>\<open>Inl\<close>: the error's text\<close>
  x_json_print :: "json \<Rightarrow> string + string"
  x_num_of_i64 :: "i64 \<Rightarrow> jnumber"
  x_num_of_u32 :: "u32 \<Rightarrow> jnumber"
  x_num_of_f64 :: "f64 \<Rightarrow> jnumber option"
  x_num_as_i64 :: "jnumber \<Rightarrow> i64 option"
  x_num_as_u64 :: "jnumber \<Rightarrow> u64 option"
  x_num_as_f64 :: "jnumber \<Rightarrow> f64 option"
  x_session_print :: "session_stack_state \<Rightarrow> string"
  x_session_parse :: "string \<Rightarrow> session_stack_state option"

text \<open>\<open>serde_json::Value::get(&str)\<close> and \<open>Map::insert\<close>: \<open>Map\<close> is a \<open>BTreeMap<String, Value>\<close>
  (the \<open>preserve_order\<close> feature is off in this workspace).\<close>

definition json_get :: "json \<Rightarrow> string \<Rightarrow> json option" where
  "json_get v k = (case v of J_Object m \<Rightarrow> map_of m k | _ \<Rightarrow> None)"

definition as_object :: "json \<Rightarrow> (string \<times> json) list option" where
  "as_object v = (case v of J_Object m \<Rightarrow> Some m | _ \<Rightarrow> None)"

section \<open>Identities\<close>

text \<open>Big-endian bytes of an integer (\<open>to_be_bytes\<close>, \<open>Uuid::as_bytes\<close>).\<close>

definition be_bytes :: "nat \<Rightarrow> 'a::len word \<Rightarrow> bytes" where
  "be_bytes n w = map (\<lambda>i. char_of (unat (drop_bit (8 * (n - 1 - i)) w))) [0..<n]"

definition uuid_from_bytes :: "bytes \<Rightarrow> uuid" where
  "uuid_from_bytes bs = foldl (\<lambda>w c. w * 256 + of_char c) 0 bs"

definition from_hash :: "hash32 \<Rightarrow> uuid" where
  "from_hash h =
     (let b = take 16 h;
          b = b[6 := char_of (((of_char (b ! 6) :: nat) AND 15) OR 128)];
          b = b[8 := char_of (((of_char (b ! 8) :: nat) AND 63) OR 128)]
      in uuid_from_bytes b)"

definition for_instruction_ordinal :: "ext \<Rightarrow> uuid \<Rightarrow> uuid \<Rightarrow> u32 \<Rightarrow> u32 \<Rightarrow> uuid" where
  "for_instruction_ordinal x instance_id fiber_id pc ordinal =
     from_hash (x_blake3 x (''bpmn-lite/effect/instruction/v1'' @ be_bytes 16 instance_id
       @ be_bytes 16 fiber_id @ be_bytes 4 pc @ be_bytes 4 ordinal))"

definition for_instruction :: "ext \<Rightarrow> uuid \<Rightarrow> uuid \<Rightarrow> u32 \<Rightarrow> uuid" where
  "for_instruction x instance_id fiber_id pc =
     for_instruction_ordinal x instance_id fiber_id pc 0"

definition for_transition :: "ext \<Rightarrow> uuid \<Rightarrow> u64 \<Rightarrow> u32 \<Rightarrow> uuid" where
  "for_transition x instance_id revision ordinal =
     from_hash (x_blake3 x (''bpmn-lite/effect/transition/v1'' @ be_bytes 16 instance_id
       @ be_bytes 8 revision @ be_bytes 4 ordinal))"

definition for_timer_fire :: "ext \<Rightarrow> uuid \<Rightarrow> u32 \<Rightarrow> uuid" where
  "for_timer_fire x timer_id fire_count =
     from_hash (x_blake3 x (''bpmn-lite/effect/timer-fire/v1'' @ be_bytes 16 timer_id
       @ be_bytes 4 fire_count))"

definition for_command :: "ext \<Rightarrow> uuid \<Rightarrow> u64 \<Rightarrow> u32 \<Rightarrow> uuid" where
  "for_command x command_id revision ordinal =
     from_hash (x_blake3 x (''bpmn-lite/kernel/id/v1'' @ be_bytes 16 command_id
       @ be_bytes 8 revision @ be_bytes 4 ordinal))"

definition content_hash :: "ext \<Rightarrow> bytes \<Rightarrow> hash32" where
  "content_hash x bs = x_blake3 x bs"

section \<open>UTF-8\<close>

text \<open>\<open>std::str::from_utf8\<close>: the well-formed byte sequences of the Unicode standard
  (no overlong forms, no surrogates, nothing above U+10FFFF).\<close>

definition in_range :: "nat \<Rightarrow> nat \<Rightarrow> char \<Rightarrow> bool" where
  "in_range lo hi c \<longleftrightarrow> lo \<le> (of_char c :: nat) \<and> (of_char c :: nat) \<le> hi"

fun utf8_valid :: "bytes \<Rightarrow> bool" where
  "utf8_valid [] = True"
| "utf8_valid (a # rest) =
     (if in_range 0x00 0x7F a then utf8_valid rest
      else case rest of
        [] \<Rightarrow> False
      | b # rest2 \<Rightarrow>
          if in_range 0xC2 0xDF a then in_range 0x80 0xBF b \<and> utf8_valid rest2
          else case rest2 of
            [] \<Rightarrow> False
          | c # rest3 \<Rightarrow>
              if in_range 0xE0 0xE0 a then in_range 0xA0 0xBF b \<and> in_range 0x80 0xBF c \<and> utf8_valid rest3
              else if in_range 0xE1 0xEC a \<or> in_range 0xEE 0xEF a
                then in_range 0x80 0xBF b \<and> in_range 0x80 0xBF c \<and> utf8_valid rest3
              else if in_range 0xED 0xED a
                then in_range 0x80 0x9F b \<and> in_range 0x80 0xBF c \<and> utf8_valid rest3
              else case rest3 of
                [] \<Rightarrow> False
              | d # rest4 \<Rightarrow>
                  if in_range 0xF0 0xF0 a
                    then in_range 0x90 0xBF b \<and> in_range 0x80 0xBF c \<and> in_range 0x80 0xBF d \<and> utf8_valid rest4
                  else if in_range 0xF1 0xF3 a
                    then in_range 0x80 0xBF b \<and> in_range 0x80 0xBF c \<and> in_range 0x80 0xBF d \<and> utf8_valid rest4
                  else if in_range 0xF4 0xF4 a
                    then in_range 0x80 0x8F b \<and> in_range 0x80 0xBF c \<and> in_range 0x80 0xBF d \<and> utf8_valid rest4
                  else False)"

definition from_utf8 :: "bytes \<Rightarrow> string option" where
  "from_utf8 bs = (if utf8_valid bs then Some bs else None)"

text \<open>\<open>{:?}\<close> of a string: double quotes, with the escapes of \<open>char::escape_debug\<close> for ASCII
  (bytes above 0x7F are printed as they are).\<close>

definition debug_char :: "char \<Rightarrow> string" where
  "debug_char c =
     (let n = (of_char c :: nat) in
      if n = 34 \<or> n = 92 then [CHR 0x5C, c]
      else if n = 10 then [CHR 0x5C, CHR ''n'']
      else if n = 13 then [CHR 0x5C, CHR ''r'']
      else if n = 9 then [CHR 0x5C, CHR ''t'']
      else if n = 0 then [CHR 0x5C, CHR ''0'']
      else if n < 16 then [CHR 0x5C] @ ''u{'' @ [hex_digit n] @ ''}''
      else if n < 32 \<or> n = 127 then [CHR 0x5C] @ ''u{'' @ [hex_digit (n div 16), hex_digit (n mod 16)] @ ''}''
      else [c])"

definition debug_str :: "string \<Rightarrow> string" where
  "debug_str s = [CHR 0x22] @ concat (map debug_char s) @ [CHR 0x22]"

lemma length_be_bytes [simp]: "length (be_bytes n w) = n"
  by (simp add: be_bytes_def)

end
