(* ===== verification/Values.thy ===== *)
theory Values
  imports External
begin

text \<open>
  The value and program side of \<open>bpmn-lite-types\<close>: orchestration values with their array
  limits, the instruction set, the compiled binding declarations, and the verified artifact
  the kernel executes (\<open>types.rs\<close>, \<open>ffi_bindings.rs\<close>, \<open>artifact.rs\<close>). An \<open>Addr\<close> is its \<open>u32\<close>.
\<close>

section \<open>Orchestration values\<close>

type_synonym addr = u32
type_synonym record_id = uuid
type_synonym effect_id = uuid
type_synonym flag_key = u32
type_synonym join_id = u32

datatype val =
    V_Bool bool
  | V_I64 i64
  | V_Str u32
  | V_Ref u32
  | V_Array "val list"

definition MAX_VALUE_ARRAY_LEN :: nat where
  "MAX_VALUE_ARRAY_LEN = 4096"

definition MAX_VALUE_ARRAY_DEPTH :: nat where
  "MAX_VALUE_ARRAY_DEPTH = 8"

datatype value_limit_error =
    TooDeep nat
  | TooLong nat nat  \<comment> \<open>actual, max\<close>

text \<open>\<open>Value::check_array_limits_at_depth\<close>: the depth bound, then the length bound, then the
  elements in order; the first error is returned.\<close>

fun check_array_limits_at_depth :: "nat \<Rightarrow> val \<Rightarrow> value_limit_error + unit"
and check_items_at_depth :: "nat \<Rightarrow> val list \<Rightarrow> value_limit_error + unit" where
  "check_array_limits_at_depth depth (V_Array items) =
     (if depth \<ge> MAX_VALUE_ARRAY_DEPTH then Inl (TooDeep MAX_VALUE_ARRAY_DEPTH)
      else if length items > MAX_VALUE_ARRAY_LEN
        then Inl (TooLong (length items) MAX_VALUE_ARRAY_LEN)
      else check_items_at_depth (depth + 1) items)"
| "check_array_limits_at_depth depth (V_Bool b) = Inr ()"
| "check_array_limits_at_depth depth (V_I64 i) = Inr ()"
| "check_array_limits_at_depth depth (V_Str s) = Inr ()"
| "check_array_limits_at_depth depth (V_Ref r) = Inr ()"
| "check_items_at_depth depth [] = Inr ()"
| "check_items_at_depth depth (item # items) =
     try_res (check_array_limits_at_depth depth item)
       (\<lambda>_. check_items_at_depth depth items)"

definition check_array_limits :: "val \<Rightarrow> value_limit_error + unit" where
  "check_array_limits v = check_array_limits_at_depth 0 v"

text \<open>The declarative reading: the nesting depth of a value and the longest array in it.\<close>

fun array_depth :: "val \<Rightarrow> nat" where
  "array_depth (V_Array items) = Suc (fold (\<lambda>v m. max (array_depth v) m) items 0)"
| "array_depth _ = 0"

fun max_array_len :: "val \<Rightarrow> nat" where
  "max_array_len (V_Array items) = fold (\<lambda>v m. max (max_array_len v) m) items (length items)"
| "max_array_len _ = 0"

lemma fold_max_le: "fold (\<lambda>v m. max (f v) m) xs (n :: nat) \<le> k \<longleftrightarrow> n \<le> k \<and> (\<forall>v\<in>set xs. f v \<le> k)"
  by (induction xs arbitrary: n) auto

lemma fold_max_less: "fold (\<lambda>v m. max (f v) m) xs (n :: nat) < k \<longleftrightarrow> n < k \<and> (\<forall>v\<in>set xs. f v < k)"
  by (induction xs arbitrary: n) auto

lemma check_limits_char:
  "check_array_limits_at_depth d v = Inr () \<longleftrightarrow>
     array_depth v \<le> MAX_VALUE_ARRAY_DEPTH - d \<and> max_array_len v \<le> MAX_VALUE_ARRAY_LEN"
  "check_items_at_depth d vs = Inr () \<longleftrightarrow>
     (\<forall>v\<in>set vs. array_depth v \<le> MAX_VALUE_ARRAY_DEPTH - d \<and> max_array_len v \<le> MAX_VALUE_ARRAY_LEN)"
proof (induction d v and d vs rule: check_array_limits_at_depth_check_items_at_depth.induct)
  case (1 depth items)
  have bound: "n \<le> MAX_VALUE_ARRAY_DEPTH - Suc depth \<longleftrightarrow> n < MAX_VALUE_ARRAY_DEPTH - depth"
    if "\<not> depth \<ge> MAX_VALUE_ARRAY_DEPTH" for n
    using that by arith
  show ?case
    using 1 by (auto simp: bound fold_max_le fold_max_less Suc_le_eq)
next
  case (7 depth item items)
  then show ?case
    by (cases "check_array_limits_at_depth depth item") (auto simp: res_simps)
qed auto

section \<open>Compiled bindings\<close>

datatype primitive_type = PT_Bool | PT_I64 | PT_F64 | PT_String

datatype data_object_type =
    DT_Primitive primitive_type
  | DT_SemOsDomain uuid hash32

datatype data_object_storage =
    DS_Flag flag_key
  | DS_DomainPayload "string list"

datatype data_object_role = Role_Input | Role_Output | Role_Internal

record data_object_decl =
  do_id :: string
  do_type_decl :: data_object_type
  do_storage :: data_object_storage
  do_role :: data_object_role

datatype literal = L_Bool bool | L_I64 i64 | L_F64 f64 | L_String string

datatype binding_source =
    Src_Literal literal
  | Src_FlagRef flag_key
  | Src_DomainPayloadRef "string list"

datatype binding_target =
    FlagWrite flag_key
  | DomainPayloadWrite "string list"

record ffi_input_binding =
  ib_target_field :: string
  ib_source :: binding_source

record ffi_output_binding =
  ob_source_field :: string
  ob_target :: binding_target

record ffi_task_decl =
  fd_template_id :: hash32
  fd_inputs :: "ffi_input_binding list"
  fd_outputs :: "ffi_output_binding list"

section \<open>Instructions\<close>

record payload_route_branch =
  rb_placeholder :: string
  rb_expected_value :: string
  rb_target :: addr

datatype (plugins only: code size) instr =
    I_Jump addr
  | I_BrIf addr
  | I_BrIfNot addr
  | I_PushBool bool
  | I_PushI64 i64
  | I_Pop
  | I_LoadFlag flag_key
  | I_StoreFlag flag_key
  | I_ExecNative u32 u16 u16                          \<comment> \<open>task_type, argc, retc\<close>
  | I_ExecDslTask u32 "(string, string) btree" "string option"
  | I_RoutePayload "payload_route_branch list" "addr option"
  | I_ExecFfi hash32 u16 u16
  | I_PublishMessage u32
  | I_CancelWait u32
  | I_IncCounter u32
  | I_BrCounterLt u32 u32 addr                        \<comment> \<open>counter_id, limit, target\<close>
  | I_End
  | I_EndTerminate
  | I_Fail u32
  | I_V2Guard addr
  | I_V2GuardEnd
  | I_V2GuardN addr
  | I_V2GuardNEnd
  | I_V2GuardR
  | I_V2GuardREnd
  | I_V2GuardArmTimer
  | I_V2GuardTimerCycle u32
  | I_V2GuardArmError "string option" addr
  | I_V2RaceOpen u16
  | I_V2ArmTimer addr
  | I_V2ArmMsg addr u32
  | I_V2ArmEffect addr hash32 u16 u16
  | I_V2RaceClose
  | I_V2Fork "addr list" addr
  | I_V2Join addr
  | I_V2WaitFor
  | I_V2WaitUntil
  | I_V2WaitMsg u32
  | I_V2AwaitEffect hash32 u16 u16
  | I_V2CancelScope
  | I_V2LoadPlaceholderMatch string string
  | I_V2RouteZeroMatch
  | I_V2MiIndexLive flag_key u32
  | I_V2MiLoadElement flag_key u32
  | I_V2MiArityCheck flag_key u32

section \<open>Failure policies\<close>

record retry_policy =
  rp_version :: u32
  rp_max_attempts :: u32
  rp_base_delay_ms :: u64
  rp_max_delay_ms :: u64

record scope_failure_budget =
  sb_version :: u32
  sb_max_failures :: u32

datatype scope_failure_decision = SF_Continue u32 | SF_Exhausted u32

text \<open>\<open>ScopeFailureBudget::decision\<close>.\<close>

definition scope_failure_decision :: "scope_failure_budget \<Rightarrow> u32 \<Rightarrow> scope_failure_decision" where
  "scope_failure_decision b prior =
     (let nxt = sat_add prior 1 in
      if nxt \<ge> sb_max_failures b then SF_Exhausted nxt else SF_Continue nxt)"

section \<open>The verified artifact\<close>

record join_plan_entry =
  jp_expected :: u16
  jp_next :: addr
  jp_reg_template :: "val list"

datatype wait_type = WT_Timer | WT_Msg | WT_Human

record wait_plan_entry =
  wp_wait_type :: wait_type
  wp_name :: "u32 option"
  wp_corr_source :: "u8 option"

record artifact_metadata =
  md_debug_map :: "(addr, string) btree"
  md_join_plan :: "(join_id, join_plan_entry) btree"
  md_wait_plan :: "(u32, wait_plan_entry) btree"
  md_message_name_map :: "(u32, string) btree"
  md_write_set :: "(string, flag_key bset) btree"
  md_task_manifest :: "string list"
  md_flag_symbol_table :: "(flag_key, string) btree"
  md_data_objects :: "(string, data_object_decl) btree"
  md_ffi_task_decls :: "(addr, ffi_task_decl) btree"
  md_v2_ffi_task_decls :: "(addr, ffi_task_decl) btree"
  md_v2_corr_sources :: "(addr, binding_source) btree"
  md_v2_guard_budgets :: "(addr, scope_failure_budget) btree"
  md_default_guard_budget :: scope_failure_budget
  md_default_retry_policy :: retry_policy

record verified_limits =
  max_stack :: u32
  max_fibers :: u32
  max_steps :: u64
  max_control_depth :: u32
  max_barriers :: u32
  max_records :: u32

record artifact_envelope =
  ae_abi_version :: u32
  ae_compiler_version :: string
  ae_instructions :: "instr list"
  ae_metadata :: artifact_metadata
  ae_limits :: verified_limits

record executable_workflow =
  wf_envelope :: artifact_envelope
  wf_hash :: hash32

abbreviation wf_instructions :: "executable_workflow \<Rightarrow> instr list" where
  "wf_instructions w \<equiv> ae_instructions (wf_envelope w)"

abbreviation wf_metadata :: "executable_workflow \<Rightarrow> artifact_metadata" where
  "wf_metadata w \<equiv> ae_metadata (wf_envelope w)"

abbreviation wf_limits :: "executable_workflow \<Rightarrow> verified_limits" where
  "wf_limits w \<equiv> ae_limits (wf_envelope w)"

end
