(* ===== verification/State.thy ===== *)
theory State
  imports Values
begin

text \<open>
  The durable state of an instance and the vocabulary of a transition, from
  \<open>bpmn-lite-types\<close>: fibers and process instances (\<open>types.rs\<close>), the D1 concurrency records
  (\<open>concurrency.rs\<close>), runtime events (\<open>events.rs\<close>), commands, durable effects, snapshots and
  transitions (\<open>transition.rs\<close>), and the persistence envelopes (\<open>persistence.rs\<close>).
\<close>

section \<open>Fibers and instances\<close>

datatype v2_race_arm =
    Arm_Timer addr
  | Arm_Msg addr u32 string          \<comment> \<open>target, name, corr_key\<close>
  | Arm_Effect addr effect_id hash32 \<comment> \<open>target, effect_id, template_id\<close>

datatype wait_state =
    W_Running
  | W_Timer u64
  | W_Msg u32 u32 string             \<comment> \<open>wait_id, name, corr_key\<close>
  | W_Job string
  | W_Effect effect_id
  | W_Join join_id
  | W_Incident uuid
  | W_V2Barrier record_id
  | W_V2Race record_id "v2_race_arm list"

record fiber =
  fb_id :: uuid
  fb_pc :: addr
  fb_stack :: "val list"
  fb_wait :: wait_state
  fb_loop_epoch :: u32
  fb_control_stack :: "record_id list"

definition fiber_new :: "uuid \<Rightarrow> addr \<Rightarrow> fiber" where
  "fiber_new i a = \<lparr>fb_id = i, fb_pc = a, fb_stack = [], fb_wait = W_Running,
     fb_loop_epoch = 0, fb_control_stack = []\<rparr>"

datatype process_state =
    PS_Running
  | PS_Completed timestamp
  | PS_Cancelled string timestamp
  | PS_Terminated timestamp
  | PS_Failed uuid
  | PS_Incidented uuid
  | PS_WaitingOnSubmission uuid string
  | PS_WaitingOnInvocation uuid string

fun is_terminal :: "process_state \<Rightarrow> bool" where
  "is_terminal PS_Running = False"
| "is_terminal (PS_Completed _) = True"
| "is_terminal (PS_Cancelled _ _) = True"
| "is_terminal (PS_Terminated _) = True"
| "is_terminal (PS_Failed _) = True"
| "is_terminal (PS_Incidented _) = False"
| "is_terminal (PS_WaitingOnSubmission _ _) = False"
| "is_terminal (PS_WaitingOnInvocation _ _) = False"

fun is_schedulable :: "process_state \<Rightarrow> bool" where
  "is_schedulable PS_Running = True"
| "is_schedulable _ = False"

record process_instance =
  pi_instance_id :: uuid
  pi_tenant_id :: string
  pi_process_key :: string
  pi_bytecode_version :: hash32
  pi_domain_payload :: string
  pi_domain_payload_hash :: hash32
  pi_session_stack :: session_stack_state
  pi_flags :: "(flag_key, val) btree"
  pi_counters :: "(u32, u32) btree"
  pi_join_expected :: "(join_id, u16) btree"
  pi_state :: process_state
  pi_correlation_id :: string
  pi_entry_id :: uuid
  pi_runbook_id :: uuid
  pi_created_at :: timestamp
  pi_integrity_hash :: "hash32 option"
  pi_quarantine_state :: "string option"
  pi_plan_hash :: "hash32 option"
  pi_current_node_id :: "string option"
  pi_placeholder_values :: "json option"

datatype error_class =
    Transient
  | ContractViolation
  | BusinessRejection string

record job_activation =
  ja_job_key :: string
  ja_tenant_id :: string
  ja_process_instance_id :: uuid
  ja_task_type :: string
  ja_service_task_id :: string
  ja_domain_payload :: string
  ja_domain_payload_hash :: hash32
  ja_session_stack :: session_stack_state
  ja_orch_flags :: "(string, val) btree"
  ja_retries_remaining :: u32
  ja_entry_id :: uuid
  ja_runbook_id :: uuid
  ja_worker_id :: string
  ja_claim_token :: string
  ja_claim_expires_at :: "timestamp option"
  ja_attempt_count :: u32
  ja_failure_count :: u32
  ja_not_before :: "timestamp option"

record job_completion =
  jc_job_key :: string
  jc_domain_payload :: string
  jc_expected_instance_payload_hash :: hash32
  jc_orch_flags :: "(string, val) btree"
  jc_worker_id :: "string option"
  jc_claim_token :: "string option"

record buffered_message =
  bm_tenant_id :: string
  bm_message_name :: string
  bm_correlation_key :: string
  bm_msg_id :: string
  bm_payload :: bytes
  bm_payload_hash :: "hash32 option"
  bm_process_instance_id :: "uuid option"
  bm_received_at :: timestamp
  bm_expires_at :: timestamp

record claimed_buffered_message =
  cm_message :: buffered_message
  cm_claim_token :: string
  cm_claim_until :: timestamp

record incident =
  inc_incident_id :: uuid
  inc_process_instance_id :: uuid
  inc_fiber_id :: uuid
  inc_service_task_id :: string
  inc_bytecode_addr :: addr
  inc_error_class :: error_class
  inc_message :: string
  inc_retry_count :: u32
  inc_created_at :: timestamp
  inc_resolved_at :: "timestamp option"
  inc_resolution :: "string option"

section \<open>Concurrency records\<close>

datatype record_kind =
    RK_Guard bool  \<comment> \<open>interrupting\<close>
  | RK_Race
  | RK_Barrier
  | RK_Compensation

datatype record_state = Armed | Retired

record record_counters =
  ct_arity :: u32
  ct_count :: u32

record concurrency_record =
  rec_id :: record_id
  rec_kind :: record_kind
  rec_members :: "uuid bset"
  rec_handler :: "addr option"
  rec_state :: record_state
  rec_counters :: record_counters
  rec_rollback_domain_payload :: "string option"
  rec_rollback_domain_payload_hash :: "hash32 option"
  rec_rollback_flags :: "(flag_key, val) btree option"
  rec_rollback_join_expected :: "(join_id, u16) btree option"
  rec_rollback_session_stack :: "string option"
  rec_opened_at :: "addr option"
  rec_error_routes :: "(string option \<times> addr) list"

definition record_new :: "record_id \<Rightarrow> record_kind \<Rightarrow> concurrency_record" where
  "record_new i k = \<lparr>rec_id = i, rec_kind = k, rec_members = bs_of_list [], rec_handler = None,
     rec_state = Armed, rec_counters = \<lparr>ct_arity = 0, ct_count = 0\<rparr>,
     rec_rollback_domain_payload = None, rec_rollback_domain_payload_hash = None,
     rec_rollback_flags = None, rec_rollback_join_expected = None,
     rec_rollback_session_stack = None, rec_opened_at = None, rec_error_routes = []\<rparr>"

type_synonym concurrency_table = "(record_id, concurrency_record) btree"

datatype concurrency_mutation =
    CM_Insert concurrency_record
  | CM_Retire record_id
  | CM_Remove record_id

datatype control_stack_delta =
    CS_Push uuid record_id
  | CS_Pop uuid record_id

end
