(* ===== verification/Transitions.thy ===== *)
theory Transitions
  imports State
begin

text \<open>
  Commands, runtime events, durable effects, snapshots and transitions
  (\<open>bpmn-lite-types/src/events.rs\<close>, \<open>transition.rs\<close>, \<open>persistence.rs\<close>). A builder method of
  \<open>TransitionBuilder\<close> pushes onto one vector of the transition; \<open>transition_new\<close> is its start.
\<close>

section \<open>Runtime events\<close>

datatype (plugins only: code size) runtime_event =
    Ev_InstanceStarted uuid hash32
  | Ev_FiberSpawned uuid addr "uuid option"
  | Ev_JobActivated string string string addr
  | Ev_JobClaimed string string i64
  | Ev_JobCompleted string hash32 hash32 "(string, val) btree" addr
  | Ev_JobReclaimed string "string option"
  | Ev_JobRetryScheduled string i64 u32
  | Ev_JobDeadLettered string uuid
  | Ev_GatewayTaken string addr val
  | Ev_FlagSet flag_key val
  | Ev_Forked string "uuid list" "addr list"
  | Ev_JoinArrived join_id uuid
  | Ev_JoinReleased join_id addr uuid
  | Ev_WaitTimerSet uuid u64
  | Ev_TimerFired effect_id uuid u64
  | Ev_WaitMsgSubscribed uuid u32 string
  | Ev_MsgReceived u32 string "uuid option"
  | Ev_MessageBuffered string string string i64
  | Ev_BufferedMessageConsumed string string string uuid
  | Ev_BufferedMessageExpired string string string
  | Ev_IncidentCreated uuid string "string option"
  | Ev_IncidentResolved uuid string
  | Ev_ChildStartAccepted string uuid
  | Ev_ChildStartRejected string uuid uuid
  | Ev_WaitCancelled uuid string string
  | Ev_SignalIgnored string
  | Ev_Cancelled string
  | Ev_Completed timestamp
  | Ev_Terminated timestamp uuid
  | Ev_ErrorRouted string string string addr
  | Ev_CounterIncremented u32 u32 u32
  | Ev_InclusiveForkTaken string "addr list" join_id u16
  | Ev_FfiInvocationPending uuid string string addr string
  | Ev_FfiInvocationCompleted uuid string "string option"
  | Ev_InstanceQuarantined uuid string string string timestamp
  | Ev_V2GuardOpened record_id uuid addr
  | Ev_V2GuardRetired record_id uuid
  | Ev_V2GuardROpened record_id uuid
  | Ev_V2Forked record_id uuid "uuid list" "addr list"
  | Ev_V2JoinArrived record_id uuid
  | Ev_V2JoinReleased record_id uuid addr "uuid list"
  | Ev_V2RaceOpened record_id uuid u16
  | Ev_V2RaceClosed record_id uuid u16
  | Ev_V2RaceWon record_id uuid
  | Ev_V2GuardTriggered record_id uuid "record_id list" "uuid list"
  | Ev_V2GuardNTriggered record_id uuid
  | Ev_V2ScopeCancelled record_id uuid "record_id list" "uuid list"

section \<open>Effects, timers and jobs\<close>

datatype timer_kind =
    TK_Wait
  | TK_Race u32 nat u32 bool "string option" "string option" nat
  | TK_V2Race record_id u32
  | TK_V2GuardTimer record_id

record timer_repeat_spec =
  rs_interval_ms :: u64
  rs_remaining :: u32
  rs_fired_count :: u32

datatype durable_effect =
    DE_ScheduleTimer effect_id uuid u64 timer_kind "timer_repeat_spec option"
  | DE_Invoke effect_id uuid u32 string hash32 bytes string
      \<comment> \<open>effect_id, fiber_id, pc, operation, template_id, input, idempotency_key\<close>

fun durable_effect_id :: "durable_effect \<Rightarrow> effect_id" where
  "durable_effect_id (DE_ScheduleTimer timer_id _ _ _ _) = timer_id"
| "durable_effect_id (DE_Invoke effect_id _ _ _ _ _ _) = effect_id"

datatype effect_terminal_state = ETS_Completed | ETS_Failed

datatype effect_mutation = EM_Terminal effect_id effect_terminal_state

record claimed_timer =
  tm_tenant_id :: string
  tm_timer_id :: effect_id
  tm_instance_id :: uuid
  tm_fiber_id :: uuid
  tm_due_at :: u64
  tm_kind :: timer_kind
  tm_repeat_spec :: "timer_repeat_spec option"
  tm_claim_token :: uuid

datatype timer_mutation =
    TM_Consume effect_id uuid
  | TM_Rearm effect_id uuid u64 timer_repeat_spec
  | TM_CancelRace uuid u32 effect_id
  | TM_V2CancelRace uuid record_id effect_id

record job_retry =
  jr_worker_id :: string
  jr_claim_token :: string
  jr_not_before_ms :: i64

datatype job_mutation =
    JM_AckClaimed string string string
  | JM_RetryClaimed string string string string string i64
  | JM_DeadLetterClaimed string string string string string uuid
  | JM_Cancel string

record dedupe_write =
  dw_key :: string
  dw_completion :: job_completion

datatype join_mutation = JnM_Arrive join_id | JnM_Reset join_id

datatype buffered_message_mutation =
    BM_Insert buffered_message
  | BM_Deliver buffered_message
  | BM_Release claimed_buffered_message
  | BM_Consume claimed_buffered_message

section \<open>Commands\<close>

datatype effect_output =
    EO_Job job_completion
  | EO_Ffi uuid u32 bytes "string option" bool
      \<comment> \<open>fiber_id, pc, output_payload, new_domain_payload, no_match\<close>
  | EO_Json json

datatype command =
    Cmd_Tick "uuid option"
  | Cmd_EffectCompleted effect_id effect_output
  | Cmd_EffectFailed effect_id string error_class string "job_retry option" u32
      \<comment> \<open>effect_id, job_key, error_class, message, retry, attempt\<close>
  | Cmd_TimerFired claimed_timer u64
  | Cmd_MessageDelivered string string string bytes "hash32 option" timestamp
      \<comment> \<open>message_id, name, correlation_key, payload, payload_hash, expires_at\<close>
  | Cmd_Cancel string
  | Cmd_Terminate
  | Cmd_ResolveIncident uuid string
  | Cmd_StartChildResult string uuid bool
  | Cmd_JobClaimed string string timestamp
  | Cmd_V2TriggerGuard record_id

record start_command =
  sc_schema_version :: u16
  sc_tenant_id :: string
  sc_instance_id :: uuid
  sc_artifact_hash :: hash32
  sc_process_key :: string
  sc_entry_id :: uuid
  sc_runbook_id :: uuid
  sc_correlation_id :: string
  sc_idempotency_key :: uuid
  sc_initial_payload :: string
  sc_initial_payload_hash :: hash32
  sc_session_stack :: session_stack_state
  sc_logical_time :: timestamp

datatype journal_command =
    JC_Kernel command
  | JC_Start start_command
  | JC_Administrative string

fun command_type :: "journal_command \<Rightarrow> string" where
  "command_type (JC_Kernel (Cmd_Tick _)) = ''tick''"
| "command_type (JC_Kernel (Cmd_EffectCompleted _ _)) = ''effect_completed''"
| "command_type (JC_Kernel (Cmd_EffectFailed _ _ _ _ _ _)) = ''effect_failed''"
| "command_type (JC_Kernel (Cmd_TimerFired _ _)) = ''timer_fired''"
| "command_type (JC_Kernel (Cmd_MessageDelivered _ _ _ _ _ _)) = ''message_delivered''"
| "command_type (JC_Kernel (Cmd_Cancel _)) = ''cancel''"
| "command_type (JC_Kernel Cmd_Terminate) = ''terminate''"
| "command_type (JC_Kernel (Cmd_ResolveIncident _ _)) = ''resolve_incident''"
| "command_type (JC_Kernel (Cmd_StartChildResult _ _ _)) = ''start_child_result''"
| "command_type (JC_Kernel (Cmd_JobClaimed _ _ _)) = ''job_claimed''"
| "command_type (JC_Kernel (Cmd_V2TriggerGuard _)) = ''v2_trigger_guard''"
| "command_type (JC_Start _) = ''start''"
| "command_type (JC_Administrative _) = ''administrative''"

record command_envelope =
  ce_schema_version :: u16
  ce_command_id :: uuid
  ce_logical_time :: timestamp
  ce_command :: journal_command

definition command_envelope_new :: "uuid \<Rightarrow> timestamp \<Rightarrow> journal_command \<Rightarrow> command_envelope" where
  "command_envelope_new i t c =
     \<lparr>ce_schema_version = 1, ce_command_id = i, ce_logical_time = t, ce_command = c\<rparr>"

section \<open>Snapshots\<close>

record snapshot =
  sn_instance :: process_instance
  sn_fibers :: "(uuid, fiber) btree"
  sn_join_counts :: "(join_id, u16) btree"
  sn_dedupe :: "(string, job_completion) btree"
  sn_buffered_messages :: "claimed_buffered_message list"
  sn_incidents :: "(uuid, incident) btree"
  sn_concurrency_table :: concurrency_table
  sn_pending_effects :: "effect_id bset"

record persisted_snapshot_state =
  ps_instance :: process_instance
  ps_fibers :: "(uuid, fiber) btree"
  ps_join_counts :: "(join_id, u16) btree"
  ps_incidents :: "(uuid, incident) btree"
  ps_concurrency_table :: concurrency_table
  ps_pending_effects :: "effect_id bset"

definition key_fibers :: "fiber list \<Rightarrow> (uuid, fiber) btree" where
  "key_fibers fs = bt_of_list (map (\<lambda>f. (fb_id f, f)) fs)"

definition key_incidents :: "incident list \<Rightarrow> (uuid, incident) btree" where
  "key_incidents is = bt_of_list (map (\<lambda>i. (inc_incident_id i, i)) is)"

definition persisted_new ::
  "process_instance \<Rightarrow> fiber list \<Rightarrow> (join_id, u16) btree \<Rightarrow> incident list \<Rightarrow> concurrency_table
     \<Rightarrow> effect_id list \<Rightarrow> persisted_snapshot_state" where
  "persisted_new inst fs joins is tbl effs =
     \<lparr>ps_instance = inst\<lparr>pi_integrity_hash := None\<rparr>, ps_fibers = key_fibers fs,
      ps_join_counts = joins, ps_incidents = key_incidents is, ps_concurrency_table = tbl,
      ps_pending_effects = bs_of_list effs\<rparr>"

definition to_runtime_snapshot :: "persisted_snapshot_state \<Rightarrow> snapshot" where
  "to_runtime_snapshot p =
     \<lparr>sn_instance = ps_instance p, sn_fibers = key_fibers (bt_values (ps_fibers p)),
      sn_join_counts = ps_join_counts p, sn_dedupe = bt_empty, sn_buffered_messages = [],
      sn_incidents = key_incidents (bt_values (ps_incidents p)),
      sn_concurrency_table = ps_concurrency_table p,
      sn_pending_effects = bs_of_list (bs_list (ps_pending_effects p))\<rparr>"

record snapshot_envelope =
  se_schema_version :: u16
  se_artifact_abi :: u32
  se_artifact_hash :: hash32
  se_revision :: u64
  se_state :: persisted_snapshot_state

definition snapshot_envelope_new ::
  "u32 \<Rightarrow> hash32 \<Rightarrow> u64 \<Rightarrow> persisted_snapshot_state \<Rightarrow> snapshot_envelope" where
  "snapshot_envelope_new abi h r st =
     \<lparr>se_schema_version = 1, se_artifact_abi = abi, se_artifact_hash = h, se_revision = r,
      se_state = st\<rparr>"

section \<open>Transitions\<close>

record pending_invocation_write =
  pw_callout_id :: uuid
  pw_process_instance_id :: uuid
  pw_node_id :: string
  pw_target_domain :: string
  pw_verb_id :: string
  pw_idempotency_key :: uuid
  pw_execution_id :: "uuid option"
  pw_submitted_at :: timestamp
  pw_ack_received_at :: "timestamp option"
  pw_timeout_at :: "timestamp option"

datatype outbox_write = OutboxWrite uuid string string bytes uuid uuid

datatype bus_submission_ack_mutation = BusSubmissionAck uuid uuid uuid uuid

datatype child_start = ChildStart process_instance fiber runtime_event string

record terminal_cleanup =
  tc_delete_all_fibers :: bool
  tc_delete_all_joins :: bool
  tc_cancel_jobs :: bool

record transition =
  tr_next_snapshot :: process_instance
  tr_fibers_upsert :: "fiber list"
  tr_fibers_delete :: "uuid list"
  tr_events :: "runtime_event list"
  tr_effects :: "durable_effect list"
  tr_effect_mutations :: "effect_mutation list"
  tr_timer_mutations :: "timer_mutation list"
  tr_jobs_enqueue :: "job_activation list"
  tr_jobs_ack :: "string list"
  tr_job_mutations :: "job_mutation list"
  tr_dedupe :: "dedupe_write list"
  tr_incidents :: "incident list"
  tr_join_mutations :: "join_mutation list"
  tr_buffered_messages :: "buffered_message_mutation list"
  tr_pending_invocations :: "pending_invocation_write list"
  tr_pending_take :: "uuid list"
  tr_outbox :: "outbox_write list"
  tr_bus_submission_acks :: "bus_submission_ack_mutation list"
  tr_state_override :: "process_state option"
  tr_child_starts :: "child_start list"
  tr_terminal_cleanup :: terminal_cleanup
  tr_start_dedupe :: "start_command option"
  tr_command_envelope :: "command_envelope option"
  tr_concurrency_mutations :: "concurrency_mutation list"
  tr_control_stack_deltas :: "control_stack_delta list"

definition transition_new :: "process_instance \<Rightarrow> transition" where
  "transition_new inst =
     \<lparr>tr_next_snapshot = inst, tr_fibers_upsert = [], tr_fibers_delete = [], tr_events = [],
      tr_effects = [], tr_effect_mutations = [], tr_timer_mutations = [], tr_jobs_enqueue = [],
      tr_jobs_ack = [], tr_job_mutations = [], tr_dedupe = [], tr_incidents = [],
      tr_join_mutations = [], tr_buffered_messages = [], tr_pending_invocations = [],
      tr_pending_take = [], tr_outbox = [], tr_bus_submission_acks = [],
      tr_state_override = None, tr_child_starts = [],
      tr_terminal_cleanup = \<lparr>tc_delete_all_fibers = False, tc_delete_all_joins = False,
        tc_cancel_jobs = False\<rparr>,
      tr_start_dedupe = None, tr_command_envelope = None, tr_concurrency_mutations = [],
      tr_control_stack_deltas = []\<rparr>"

definition tb_upsert_fiber :: "fiber \<Rightarrow> transition \<Rightarrow> transition" where
  "tb_upsert_fiber f t = t\<lparr>tr_fibers_upsert := tr_fibers_upsert t @ [f]\<rparr>"

definition tb_delete_fiber :: "uuid \<Rightarrow> transition \<Rightarrow> transition" where
  "tb_delete_fiber i t = t\<lparr>tr_fibers_delete := tr_fibers_delete t @ [i]\<rparr>"

definition tb_event :: "runtime_event \<Rightarrow> transition \<Rightarrow> transition" where
  "tb_event e t = t\<lparr>tr_events := tr_events t @ [e]\<rparr>"

definition tb_effect :: "durable_effect \<Rightarrow> transition \<Rightarrow> transition" where
  "tb_effect e t = t\<lparr>tr_effects := tr_effects t @ [e]\<rparr>"

definition tb_effect_mutation :: "effect_mutation \<Rightarrow> transition \<Rightarrow> transition" where
  "tb_effect_mutation m t = t\<lparr>tr_effect_mutations := tr_effect_mutations t @ [m]\<rparr>"

definition tb_timer_mutation :: "timer_mutation \<Rightarrow> transition \<Rightarrow> transition" where
  "tb_timer_mutation m t = t\<lparr>tr_timer_mutations := tr_timer_mutations t @ [m]\<rparr>"

definition tb_enqueue_job :: "job_activation \<Rightarrow> transition \<Rightarrow> transition" where
  "tb_enqueue_job j t = t\<lparr>tr_jobs_enqueue := tr_jobs_enqueue t @ [j]\<rparr>"

definition tb_ack_job :: "string \<Rightarrow> transition \<Rightarrow> transition" where
  "tb_ack_job k t = t\<lparr>tr_jobs_ack := tr_jobs_ack t @ [k]\<rparr>"

definition tb_job_mutation :: "job_mutation \<Rightarrow> transition \<Rightarrow> transition" where
  "tb_job_mutation m t = t\<lparr>tr_job_mutations := tr_job_mutations t @ [m]\<rparr>"

definition tb_dedupe :: "dedupe_write \<Rightarrow> transition \<Rightarrow> transition" where
  "tb_dedupe d t = t\<lparr>tr_dedupe := tr_dedupe t @ [d]\<rparr>"

definition tb_incident :: "incident \<Rightarrow> transition \<Rightarrow> transition" where
  "tb_incident i t = t\<lparr>tr_incidents := tr_incidents t @ [i]\<rparr>"

definition tb_join_mutation :: "join_mutation \<Rightarrow> transition \<Rightarrow> transition" where
  "tb_join_mutation m t = t\<lparr>tr_join_mutations := tr_join_mutations t @ [m]\<rparr>"

definition tb_buffered_message :: "buffered_message_mutation \<Rightarrow> transition \<Rightarrow> transition" where
  "tb_buffered_message m t = t\<lparr>tr_buffered_messages := tr_buffered_messages t @ [m]\<rparr>"

definition tb_terminal_cleanup :: "terminal_cleanup \<Rightarrow> transition \<Rightarrow> transition" where
  "tb_terminal_cleanup c t = t\<lparr>tr_terminal_cleanup := c\<rparr>"

definition tb_concurrency_mutation :: "concurrency_mutation \<Rightarrow> transition \<Rightarrow> transition" where
  "tb_concurrency_mutation m t = t\<lparr>tr_concurrency_mutations := tr_concurrency_mutations t @ [m]\<rparr>"

definition tb_control_stack_delta :: "control_stack_delta \<Rightarrow> transition \<Rightarrow> transition" where
  "tb_control_stack_delta d t = t\<lparr>tr_control_stack_deltas := tr_control_stack_deltas t @ [d]\<rparr>"

definition with_command_envelope :: "command_envelope \<Rightarrow> transition \<Rightarrow> transition" where
  "with_command_envelope c t = t\<lparr>tr_command_envelope := Some c\<rparr>"

named_theorems builder_defs \<open>definitions of the transition builder\<close>

lemmas [builder_defs] =
  transition_new_def tb_upsert_fiber_def tb_delete_fiber_def tb_event_def tb_effect_def
  tb_effect_mutation_def tb_timer_mutation_def tb_enqueue_job_def tb_ack_job_def
  tb_job_mutation_def tb_dedupe_def tb_incident_def tb_join_mutation_def
  tb_buffered_message_def tb_terminal_cleanup_def tb_concurrency_mutation_def
  tb_control_stack_delta_def with_command_envelope_def

end
