(* ===== verification/Concurrency.thy ===== *)
theory Concurrency
  imports Transitions
begin

text \<open>
  The D1 concurrency table (\<open>bpmn-lite-types/src/concurrency.rs\<close>): a map from record handles to
  activation records, its fold over a list of mutations, and the structural validation that
  guards what a store accepts.
\<close>

section \<open>Table operations\<close>

definition ct_insert :: "concurrency_record \<Rightarrow> concurrency_table \<Rightarrow> concurrency_table" where
  "ct_insert r t = bt_insert (rec_id r) r t"

definition ct_remove :: "record_id \<Rightarrow> concurrency_table \<Rightarrow> concurrency_table" where
  "ct_remove i t = bt_remove i t"

definition ct_get :: "concurrency_table \<Rightarrow> record_id \<Rightarrow> concurrency_record option" where
  "ct_get t i = bt_get t i"

text \<open>\<open>if let Some(record) = table.get_mut(id) { record.state = Retired }\<close>.\<close>

definition ct_retire :: "record_id \<Rightarrow> concurrency_table \<Rightarrow> concurrency_table" where
  "ct_retire i t =
     (case bt_get t i of
        Some r \<Rightarrow> bt_insert i (r\<lparr>rec_state := Retired\<rparr>) t
      | None \<Rightarrow> t)"

fun apply_concurrency_mutation :: "concurrency_mutation \<Rightarrow> concurrency_table \<Rightarrow> concurrency_table" where
  "apply_concurrency_mutation (CM_Insert r) t = ct_insert r t"
| "apply_concurrency_mutation (CM_Retire i) t = ct_retire i t"
| "apply_concurrency_mutation (CM_Remove i) t = ct_remove i t"

abbreviation fold_mutations :: "concurrency_mutation list \<Rightarrow> concurrency_table \<Rightarrow> concurrency_table" where
  "fold_mutations \<equiv> fold apply_concurrency_mutation"

section \<open>Validation\<close>

datatype concurrency_validation_error =
    CountersOutOfBounds record_id record_kind u32 u32
  | UnexpectedCounters record_id record_kind u32 u32
  | UnexpectedOpenedAt record_id record_kind
  | RollbackFieldsOnNonGuard record_id record_kind
  | PartialRollbackSnapshot record_id
  | RollbackFieldsOnGuardN record_id
  | GuardMissingOpenedAt record_id
  | CompensationUninhabited record_id
  | RetireMissing record_id
  | RemoveMissing record_id

definition rollback_fields_present :: "concurrency_record \<Rightarrow> bool list" where
  "rollback_fields_present r =
     [rec_rollback_domain_payload r \<noteq> None, rec_rollback_domain_payload_hash r \<noteq> None,
      rec_rollback_flags r \<noteq> None, rec_rollback_join_expected r \<noteq> None,
      rec_rollback_session_stack r \<noteq> None]"

definition validate_concurrency_record_shape ::
  "concurrency_record \<Rightarrow> concurrency_validation_error + unit" where
  "validate_concurrency_record_shape r =
     (let i = rec_id r;
          present = rollback_fields_present r;
          any_rollback_set = True \<in> set present;
          all_rollback_set = list_all (\<lambda>b. b) present;
          arity = ct_arity (rec_counters r);
          count = ct_count (rec_counters r)
      in case rec_kind r of
           RK_Compensation \<Rightarrow> Inl (CompensationUninhabited i)
         | RK_Guard interrupting \<Rightarrow>
             if rec_counters r \<noteq> \<lparr>ct_arity = 0, ct_count = 0\<rparr>
               then Inl (UnexpectedCounters i (rec_kind r) arity count)
             else if rec_opened_at r = None then Inl (GuardMissingOpenedAt i)
             else if any_rollback_set \<and> \<not> all_rollback_set then Inl (PartialRollbackSnapshot i)
             else if \<not> interrupting \<and> any_rollback_set then Inl (RollbackFieldsOnGuardN i)
             else Inr ()
         | _ \<Rightarrow>
             if count > arity then Inl (CountersOutOfBounds i (rec_kind r) count arity)
             else if rec_opened_at r \<noteq> None then Inl (UnexpectedOpenedAt i (rec_kind r))
             else if any_rollback_set then Inl (RollbackFieldsOnNonGuard i (rec_kind r))
             else Inr ())"

text \<open>\<open>ConcurrencyTable::validate_mutations\<close>: the mutations against a scratch copy that the
  earlier ones have already changed.\<close>

fun validate_mutations ::
  "concurrency_table \<Rightarrow> concurrency_mutation list \<Rightarrow> concurrency_validation_error + unit" where
  "validate_mutations scratch [] = Inr ()"
| "validate_mutations scratch (CM_Insert r # ms) =
     try_res (validate_concurrency_record_shape r)
       (\<lambda>_. validate_mutations (ct_insert r scratch) ms)"
| "validate_mutations scratch (CM_Retire i # ms) =
     try_res (ok_or (ct_get scratch i) (RetireMissing i))
       (\<lambda>_. validate_mutations (ct_retire i scratch) ms)"
| "validate_mutations scratch (CM_Remove i # ms) =
     try_res (ok_or (ct_get scratch i) (RemoveMissing i))
       (\<lambda>_. validate_mutations (ct_remove i scratch) ms)"

section \<open>Laws\<close>

lemma ct_get_insert [btree_simps]:
  "ct_get (ct_insert r t) j = (if j = rec_id r then Some r else ct_get t j)"
  by (simp add: ct_get_def ct_insert_def btree_simps)

lemma ct_get_remove [btree_simps]:
  "ct_get (ct_remove i t) j = (if j = i then None else ct_get t j)"
  by (simp add: ct_get_def ct_remove_def btree_simps)

lemma ct_get_retire [btree_simps]:
  "ct_get (ct_retire i t) j =
     (if j = i then map_option (\<lambda>r. r\<lparr>rec_state := Retired\<rparr>) (ct_get t i) else ct_get t j)"
  by (simp add: ct_get_def ct_retire_def btree_simps split: option.split)

text \<open>The key a record is stored under is its own id.\<close>

definition ct_wf :: "concurrency_table \<Rightarrow> bool" where
  "ct_wf t \<longleftrightarrow> (\<forall>(i, r) \<in> set (bt_entries t). rec_id r = i)"

lemma ct_wf_iff: "ct_wf t \<longleftrightarrow> (\<forall>i r. ct_get t i = Some r \<longrightarrow> rec_id r = i)"
  unfolding ct_wf_def ct_get_def by (auto simp flip: bt_entries_mem)

lemma ct_wf_apply: "ct_wf t \<Longrightarrow> ct_wf (apply_concurrency_mutation m t)"
  by (cases m) (auto simp: ct_wf_iff btree_simps split: if_splits)

lemma ct_wf_fold: "ct_wf t \<Longrightarrow> ct_wf (fold_mutations ms t)"
  by (induction ms arbitrary: t) (auto intro: ct_wf_apply)

text \<open>An accepted shape, read declaratively.\<close>

definition record_shape_ok :: "concurrency_record \<Rightarrow> bool" where
  "record_shape_ok r \<longleftrightarrow>
     (case rec_kind r of
        RK_Compensation \<Rightarrow> False
      | RK_Guard interrupting \<Rightarrow>
          ct_arity (rec_counters r) = 0 \<and> ct_count (rec_counters r) = 0 \<and> rec_opened_at r \<noteq> None
          \<and> ((\<forall>b \<in> set (rollback_fields_present r). \<not> b)
             \<or> interrupting \<and> (\<forall>b \<in> set (rollback_fields_present r). b))
      | _ \<Rightarrow> ct_count (rec_counters r) \<le> ct_arity (rec_counters r) \<and> rec_opened_at r = None
          \<and> (\<forall>b \<in> set (rollback_fields_present r). \<not> b))"

lemma validate_shape_iff: "validate_concurrency_record_shape r = Inr () \<longleftrightarrow> record_shape_ok r"
proof -
  have set_bool: "(True \<in> S \<longleftrightarrow> \<not> (\<forall>b\<in>S. \<not> b))" for S by auto
  have "rec_counters r = \<lparr>ct_arity = 0, ct_count = 0\<rparr> \<longleftrightarrow>
        ct_arity (rec_counters r) = 0 \<and> ct_count (rec_counters r) = 0"
    by (cases "rec_counters r") simp
  then show ?thesis
    unfolding validate_concurrency_record_shape_def record_shape_ok_def Let_def set_bool list_all_iff
    by (cases "rec_kind r") (auto simp: rollback_fields_present_def not_less)
qed

text \<open>A batch is accepted exactly when every inserted record has an accepted shape and every
  retired or removed handle is present at that point of the fold.\<close>

fun mutations_ok :: "concurrency_table \<Rightarrow> concurrency_mutation list \<Rightarrow> bool" where
  "mutations_ok t [] = True"
| "mutations_ok t (m # ms) =
     ((case m of
         CM_Insert r \<Rightarrow> record_shape_ok r
       | CM_Retire i \<Rightarrow> ct_get t i \<noteq> None
       | CM_Remove i \<Rightarrow> ct_get t i \<noteq> None)
      \<and> mutations_ok (apply_concurrency_mutation m t) ms)"

lemma validate_mutations_iff: "validate_mutations t ms = Inr () \<longleftrightarrow> mutations_ok t ms"
proof (induction t ms rule: validate_mutations.induct)
  case (2 scratch r ms)
  then show ?case
    using validate_shape_iff [of r]
    by (cases "validate_concurrency_record_shape r") (auto simp: res_simps)
qed (auto simp: res_simps ok_or_def split: option.split)

lemma mutations_ok_append:
  "mutations_ok t (xs @ ys) \<longleftrightarrow> mutations_ok t xs \<and> mutations_ok (fold_mutations xs t) ys"
  by (induction xs arbitrary: t) auto

lemma mutations_ok_shapes:
  "mutations_ok t ms \<Longrightarrow> CM_Insert r \<in> set ms \<Longrightarrow> record_shape_ok r"
  by (induction ms arbitrary: t) auto

text \<open>The state of a handle after a fold depends on the mutations that name it only.\<close>

fun mutation_target :: "concurrency_mutation \<Rightarrow> record_id" where
  "mutation_target (CM_Insert r) = rec_id r"
| "mutation_target (CM_Retire i) = i"
| "mutation_target (CM_Remove i) = i"

lemma ct_get_apply_other:
  "j \<noteq> mutation_target m \<Longrightarrow> ct_get (apply_concurrency_mutation m t) j = ct_get t j"
  by (cases m) (auto simp: btree_simps)

lemma ct_get_fold_other:
  "j \<notin> mutation_target ` set ms \<Longrightarrow> ct_get (fold_mutations ms t) j = ct_get t j"
  by (induction ms arbitrary: t) (auto simp: ct_get_apply_other)

lemma ct_get_fold_retire:
  "ct_get (fold_mutations (map CM_Retire is) t) j =
     (if j \<in> set is then map_option (\<lambda>r. r\<lparr>rec_state := Retired\<rparr>) (ct_get t j) else ct_get t j)"
  by (induction "is" arbitrary: t) (auto simp: btree_simps option.map_comp comp_def cong: option.map_cong)

end
