(* ===== verification/Frame.thy ===== *)
theory Frame
  imports Concurrency
begin

text \<open>
  The frame side of the transition kernel (\<open>bpmn-lite-kernel/src/lib.rs\<close>): the deterministic
  context, the error type, folding a transition into the next snapshot
  (\<open>materialize_snapshot\<close>, \<open>derive_post_transition_frame\<close>), the K-1/K-2/K-3 check, the Ring 3
  structural check that every transition passes through, and the limits check on entry.
  A diagnostic text of the source is a constructor that carries the values it interpolates.
\<close>

section \<open>Context and errors\<close>

record deterministic_context =
  cx_logical_time :: u64
  cx_command_id :: uuid
  cx_next_revision :: u64

definition derived_id :: "ext \<Rightarrow> deterministic_context \<Rightarrow> u32 \<Rightarrow> uuid" where
  "derived_id x cx ordinal = for_command x (cx_command_id cx) (cx_next_revision cx) ordinal"

datatype k_violation =
    K1_DeadMember record_id uuid
  | K3_Counters record_id u32 u32                \<comment> \<open>record, count, arity\<close>
  | K2_NotMember uuid record_id
  | K2_NotArmed uuid record_id record_state
  | K2_NoRecord uuid record_id
  | K2_NotOnStack uuid record_id

datatype ring3_violation =
    R3_StuckInstance uuid process_state
  | R3_PcOutOfBounds uuid addr nat
  | R3_OperandStack uuid nat u32
  | R3_ControlDepth uuid nat u32
  | R3_K k_violation
  | R3_Barrier record_id u32 u32 nat
  | R3_EffectOwners effect_id uuid uuid

datatype transition_error =
    UnsupportedCommand string
  | InvalidCommand string
  | MissingFiber uuid
  | ProgramCounterOutOfBounds u32
  | StackUnderflow string
  | MissingMetadata string
  | ResourceLimitExceeded string nat u64
  | StepLimitExceeded u64
  | NumericOverflow string
  | OptimisticConflict
  | Integrity ring3_violation
  | RouteNotMatched string
  | MultiInstanceElementUnavailable flag_key u32
  | StackOverflow  \<comment> \<open>not a value of the source: a recursion that does not end aborts the process\<close>

definition logical_timestamp :: "deterministic_context \<Rightarrow> transition_error + timestamp" where
  "logical_timestamp cx =
     ok_or (i64_try_from (cx_logical_time cx)) (NumericOverflow ''logical timestamp'')"

section \<open>K-invariants\<close>

definition effective_control_stack :: "fiber \<Rightarrow> record_id list" where
  "effective_control_stack f =
     (case fb_wait f of
        W_V2Barrier record_id \<Rightarrow> fb_control_stack f @ [record_id]
      | W_V2Race record_id _ \<Rightarrow> fb_control_stack f @ [record_id]
      | _ \<Rightarrow> fb_control_stack f)"

definition k_check_record ::
  "(uuid, fiber) btree \<Rightarrow> record_id \<times> concurrency_record \<Rightarrow> k_violation + unit" where
  "k_check_record fibers = (\<lambda>(record_id, r).
     if rec_state r \<noteq> Armed then Inr ()
     else try_res
       (for_res (\<lambda>member. if bt_contains fibers member then Inr ()
                          else Inl (K1_DeadMember record_id member))
          (bs_list (rec_members r)))
       (\<lambda>_. if rec_kind r = RK_Barrier then
               (let arity = ct_arity (rec_counters r); count = ct_count (rec_counters r) in
                if count = 0 \<or> count > arity then Inl (K3_Counters record_id count arity)
                else Inr ())
             else Inr ()))"

definition k_check_fiber :: "concurrency_table \<Rightarrow> uuid \<times> fiber \<Rightarrow> k_violation + unit" where
  "k_check_fiber table = (\<lambda>(fiber_id, f).
     for_res (\<lambda>handle.
         case ct_get table handle of
           Some r \<Rightarrow>
             if rec_state r = Armed
             then (if bs_contains (rec_members r) fiber_id then Inr ()
                   else Inl (K2_NotMember fiber_id handle))
             else Inl (K2_NotArmed fiber_id handle (rec_state r))
         | None \<Rightarrow> Inl (K2_NoRecord fiber_id handle))
       (effective_control_stack f))"

definition k_check_membership ::
  "(uuid, fiber) btree \<Rightarrow> record_id \<times> concurrency_record \<Rightarrow> k_violation + unit" where
  "k_check_membership fibers = (\<lambda>(record_id, r).
     if rec_state r \<noteq> Armed then Inr ()
     else for_res (\<lambda>member.
         case bt_get fibers member of
           None \<Rightarrow> Inr ()
         | Some f \<Rightarrow>
             if record_id \<in> set (effective_control_stack f) then Inr ()
             else Inl (K2_NotOnStack member record_id))
       (bs_list (rec_members r)))"

definition check_k_invariants ::
  "(uuid, fiber) btree \<Rightarrow> concurrency_table \<Rightarrow> k_violation + unit" where
  "check_k_invariants fibers table =
     try_res (for_res (k_check_record fibers) (bt_entries table)) (\<lambda>_.
     try_res (for_res (k_check_fiber table) (bt_entries fibers)) (\<lambda>_.
     for_res (k_check_membership fibers) (bt_entries table)))"

text \<open>The three theorems of the design, as predicates over the frame.\<close>

definition armed_at :: "concurrency_table \<Rightarrow> record_id \<Rightarrow> concurrency_record \<Rightarrow> bool" where
  "armed_at table i r \<longleftrightarrow> ct_get table i = Some r \<and> rec_state r = Armed"

definition K1 :: "(uuid, fiber) btree \<Rightarrow> concurrency_table \<Rightarrow> bool" where
  "K1 fibers table \<longleftrightarrow>
     (\<forall>i r m. armed_at table i r \<and> m \<in> bs_set (rec_members r) \<longrightarrow> (\<exists>f. bt_get fibers m = Some f))"

definition K2 :: "(uuid, fiber) btree \<Rightarrow> concurrency_table \<Rightarrow> bool" where
  "K2 fibers table \<longleftrightarrow>
     (\<forall>m f. bt_get fibers m = Some f \<longrightarrow>
       (\<forall>h. h \<in> set (effective_control_stack f) \<longleftrightarrow>
            (\<exists>r. armed_at table h r \<and> m \<in> bs_set (rec_members r))))"

definition K3 :: "concurrency_table \<Rightarrow> bool" where
  "K3 table \<longleftrightarrow>
     (\<forall>i r. armed_at table i r \<and> rec_kind r = RK_Barrier \<longrightarrow>
        0 < ct_count (rec_counters r) \<and> ct_count (rec_counters r) \<le> ct_arity (rec_counters r))"

section \<open>Folding a transition\<close>

definition apply_fiber_deltas ::
  "(uuid, fiber) btree \<Rightarrow> fiber list \<Rightarrow> uuid list \<Rightarrow> bool \<Rightarrow> (uuid, fiber) btree" where
  "apply_fiber_deltas pre upserts deletes delete_all_fibers =
     (if delete_all_fibers then bt_empty
      else fold bt_remove deletes (fold (\<lambda>f. bt_insert (fb_id f) f) upserts pre))"

definition derive_post_transition_frame ::
  "snapshot \<Rightarrow> transition \<Rightarrow> (uuid, fiber) btree \<times> concurrency_table" where
  "derive_post_transition_frame s t =
     (apply_fiber_deltas (sn_fibers s) (tr_fibers_upsert t) (tr_fibers_delete t)
        (tc_delete_all_fibers (tr_terminal_cleanup t)),
      fold apply_concurrency_mutation (tr_concurrency_mutations t) (sn_concurrency_table s))"

fun apply_join_mutation :: "join_mutation \<Rightarrow> (join_id, u16) btree \<Rightarrow> (join_id, u16) btree" where
  "apply_join_mutation (JnM_Arrive j) joins =
     bt_insert j (sat_add (unwrap_or (bt_get joins j) 0) 1) joins"
| "apply_join_mutation (JnM_Reset j) joins = bt_insert j 0 joins"

definition effective_state :: "transition \<Rightarrow> process_state" where
  "effective_state t = unwrap_or (tr_state_override t) (pi_state (tr_next_snapshot t))"

definition materialize_snapshot ::
  "persisted_snapshot_state \<Rightarrow> transition \<Rightarrow> u32 \<Rightarrow> u64 \<Rightarrow> snapshot_envelope" where
  "materialize_snapshot prior t abi revision =
     (let inst = tr_next_snapshot t;
          inst = (case tr_state_override t of Some st \<Rightarrow> inst\<lparr>pi_state := st\<rparr> | None \<Rightarrow> inst);
          fibers = fold bt_remove (tr_fibers_delete t)
                     (fold (\<lambda>f. bt_insert (fb_id f) f) (tr_fibers_upsert t) (ps_fibers prior));
          joins = fold apply_join_mutation (tr_join_mutations t) (ps_join_counts prior);
          incidents = fold (\<lambda>i. bt_insert (inc_incident_id i) i) (tr_incidents t) (ps_incidents prior);
          table = fold apply_concurrency_mutation (tr_concurrency_mutations t)
                    (ps_concurrency_table prior);
          fibers = (if tc_delete_all_fibers (tr_terminal_cleanup t) then bt_empty else fibers);
          joins = (if tc_delete_all_joins (tr_terminal_cleanup t) then bt_empty else joins)
      in snapshot_envelope_new abi (pi_bytecode_version inst) revision
           (persisted_new inst (bt_values fibers) joins (bt_values incidents) table
              (bs_list (ps_pending_effects prior))))"

section \<open>Ring 3\<close>

definition ring3_check_fiber :: "executable_workflow \<Rightarrow> fiber \<Rightarrow> ring3_violation + unit" where
  "ring3_check_fiber w f =
     (if unat (fb_pc f) \<ge> length (wf_instructions w)
        then Inl (R3_PcOutOfBounds (fb_id f) (fb_pc f) (length (wf_instructions w)))
      else if length (fb_stack f) > unat (max_stack (wf_limits w))
        then Inl (R3_OperandStack (fb_id f) (length (fb_stack f)) (max_stack (wf_limits w)))
      else if length (fb_control_stack f) > unat (max_control_depth (wf_limits w))
        then Inl (R3_ControlDepth (fb_id f) (length (fb_control_stack f))
               (max_control_depth (wf_limits w)))
      else Inr ())"

definition not_yet_arrived ::
  "(uuid, fiber) btree \<Rightarrow> record_id \<Rightarrow> concurrency_record \<Rightarrow> uuid list" where
  "not_yet_arrived fibers record_id r =
     filter (\<lambda>member. case bt_get fibers member of
                        Some f \<Rightarrow> fb_wait f \<noteq> W_V2Barrier record_id
                      | None \<Rightarrow> False)
       (bs_list (rec_members r))"

definition ring3_check_barrier ::
  "(uuid, fiber) btree \<Rightarrow> record_id \<times> concurrency_record \<Rightarrow> ring3_violation + unit" where
  "ring3_check_barrier fibers = (\<lambda>(record_id, r).
     if rec_state r \<noteq> Armed \<or> rec_kind r \<noteq> RK_Barrier then Inr ()
     else (let n = (of_nat (length (not_yet_arrived fibers record_id r)) :: u32) in
           if n < ct_count (rec_counters r)
           then Inl (R3_Barrier record_id (ct_count (rec_counters r)) n
                  (length (bs_list (rec_members r))))
           else Inr ()))"

definition referenced_effects :: "fiber \<Rightarrow> effect_id list" where
  "referenced_effects f =
     (case fb_wait f of
        W_Effect effect_id \<Rightarrow> [effect_id]
      | W_V2Race _ arms \<Rightarrow>
          List.map_filter (\<lambda>arm. case arm of Arm_Effect _ effect_id _ \<Rightarrow> Some effect_id | _ \<Rightarrow> None) arms
      | _ \<Rightarrow> [])"

definition claim_effect ::
  "uuid \<Rightarrow> effect_id \<Rightarrow> (effect_id, uuid) btree \<Rightarrow> ring3_violation + (effect_id, uuid) btree" where
  "claim_effect fiber_id effect_id owners =
     (case bt_get owners effect_id of
        Some other \<Rightarrow>
          if other \<noteq> fiber_id then Inl (R3_EffectOwners effect_id other fiber_id)
          else Inr (bt_insert effect_id fiber_id owners)
      | None \<Rightarrow> Inr (bt_insert effect_id fiber_id owners))"

definition claim_fiber_effects ::
  "fiber \<Rightarrow> (effect_id, uuid) btree \<Rightarrow> ring3_violation + (effect_id, uuid) btree" where
  "claim_fiber_effects f owners = fold_res (claim_effect (fb_id f)) (referenced_effects f) owners"

definition ring3_shadow_check ::
  "executable_workflow \<Rightarrow> snapshot \<Rightarrow> transition \<Rightarrow> ring3_violation + unit" where
  "ring3_shadow_check w s t =
     (let (fibers, table) = derive_post_transition_frame s t;
          state = effective_state t
      in if bt_is_empty fibers \<and> \<not> is_terminal state
           then Inl (R3_StuckInstance (pi_instance_id (sn_instance s)) state)
         else
           try_res (for_res (ring3_check_fiber w) (tr_fibers_upsert t)) (\<lambda>_.
           try_res (map_err R3_K (check_k_invariants fibers table)) (\<lambda>_.
           try_res (for_res (ring3_check_barrier fibers) (bt_entries table)) (\<lambda>_.
           try_res (fold_res claim_fiber_effects (bt_values fibers) bt_empty) (\<lambda>_.
           Inr ())))))"

section \<open>Entry limits\<close>

fun array_limit_error :: "string \<Rightarrow> value_limit_error \<Rightarrow> transition_error" where
  "array_limit_error resource (TooLong actual mx) = ResourceLimitExceeded resource actual (of_nat mx)"
| "array_limit_error resource (TooDeep mx) = ResourceLimitExceeded resource mx (of_nat mx)"

definition validate_fiber_limits ::
  "executable_workflow \<Rightarrow> bool \<Rightarrow> fiber \<Rightarrow> transition_error + unit" where
  "validate_fiber_limits w check_arrays f =
     (if length (fb_stack f) > unat (max_stack (wf_limits w))
        then Inl (ResourceLimitExceeded ''operand stack'' (length (fb_stack f))
                    (ucast (max_stack (wf_limits w))))
      else if check_arrays then
        for_res (\<lambda>v. map_err (array_limit_error ''Value::Array size/depth'') (check_array_limits v))
          (fb_stack f)
      else Inr ())"

definition validate_snapshot_limits ::
  "executable_workflow \<Rightarrow> snapshot \<Rightarrow> bool \<Rightarrow> transition_error + unit" where
  "validate_snapshot_limits w s check_arrays =
     (if bt_len (sn_fibers s) > unat (max_fibers (wf_limits w))
        then Inl (ResourceLimitExceeded ''fiber count'' (bt_len (sn_fibers s))
                    (ucast (max_fibers (wf_limits w))))
      else
        try_res (for_res (validate_fiber_limits w check_arrays) (bt_values (sn_fibers s))) (\<lambda>_.
        if check_arrays then
          for_res (\<lambda>v. map_err (array_limit_error ''Value::Array size/depth (flag)'') (check_array_limits v))
            (bt_values (pi_flags (sn_instance s)))
        else Inr ()))"

end
