(* ===== verification/FrameLaws.thy ===== *)
theory FrameLaws
  imports Frame
begin

text \<open>
  What the frame checks establish: the K-check decides exactly the three K-theorems, the two
  folds of a transition agree, and a transition that passes Ring 3 yields a frame in which no
  non-terminal instance is stuck, no armed barrier is starved and no effect has two owners.
\<close>

section \<open>The K-check decides K-1, K-2 and K-3\<close>

lemma k_check_record_ok:
  "k_check_record fibers (i, r) = Inr () \<longleftrightarrow>
     (rec_state r = Armed \<longrightarrow>
        (\<forall>m \<in> bs_set (rec_members r). \<exists>f. bt_get fibers m = Some f)
        \<and> (rec_kind r = RK_Barrier \<longrightarrow>
             0 < ct_count (rec_counters r) \<and> ct_count (rec_counters r) \<le> ct_arity (rec_counters r)))"
proof -
  let ?members = "for_res (\<lambda>member. if bt_contains fibers member then Inr ()
                          else Inl (K1_DeadMember i member)) (bs_list (rec_members r))"
  have "?members = Inr () \<longleftrightarrow> (\<forall>m \<in> bs_set (rec_members r). \<exists>f. bt_get fibers m = Some f)"
    by (auto simp: res_simps bt_contains_def split: if_splits)
  then show ?thesis
    unfolding k_check_record_def
    by (cases ?members) (auto simp: Let_def res_simps word_neq_0_conv)
qed

lemma k_check_fiber_ok:
  "k_check_fiber table (m, f) = Inr () \<longleftrightarrow>
     (\<forall>h \<in> set (effective_control_stack f). \<exists>r. armed_at table h r \<and> m \<in> bs_set (rec_members r))"
  unfolding k_check_fiber_def armed_at_def
  by (auto simp: res_simps btree_simps split: option.splits if_splits)

lemma k_check_membership_ok:
  "k_check_membership fibers (i, r) = Inr () \<longleftrightarrow>
     (rec_state r = Armed \<longrightarrow>
        (\<forall>m \<in> bs_set (rec_members r). \<forall>f. bt_get fibers m = Some f \<longrightarrow>
           i \<in> set (effective_control_stack f)))"
  unfolding k_check_membership_def
  by (auto simp: res_simps split: option.splits if_splits)

lemma all_entries: "(\<forall>e \<in> set (bt_entries m). P e) \<longleftrightarrow> (\<forall>k v. bt_get m k = Some v \<longrightarrow> P (k, v))"
  by (auto simp flip: bt_entries_mem)

lemma check_k_iff:
  "check_k_invariants fibers table = Inr () \<longleftrightarrow> K1 fibers table \<and> K2 fibers table \<and> K3 table"
proof -
  let ?A = "for_res (k_check_record fibers) (bt_entries table)"
  let ?B = "for_res (k_check_fiber table) (bt_entries fibers)"
  let ?C = "for_res (k_check_membership fibers) (bt_entries table)"
  have A: "?A = Inr () \<longleftrightarrow> K1 fibers table \<and> K3 table"
    unfolding for_res_ok all_entries k_check_record_ok K1_def K3_def armed_at_def ct_get_def
    by blast
  have B: "?B = Inr () \<longleftrightarrow> (\<forall>m f. bt_get fibers m = Some f \<longrightarrow>
       (\<forall>h \<in> set (effective_control_stack f). \<exists>r. armed_at table h r \<and> m \<in> bs_set (rec_members r)))"
    unfolding for_res_ok all_entries k_check_fiber_ok ..
  have C: "?C = Inr () \<longleftrightarrow> (\<forall>i r. armed_at table i r \<longrightarrow> (\<forall>m \<in> bs_set (rec_members r).
       \<forall>f. bt_get fibers m = Some f \<longrightarrow> i \<in> set (effective_control_stack f)))"
    unfolding for_res_ok all_entries k_check_membership_ok armed_at_def ct_get_def by blast
  have "check_k_invariants fibers table = Inr () \<longleftrightarrow> ?A = Inr () \<and> ?B = Inr () \<and> ?C = Inr ()"
    unfolding check_k_invariants_def by (cases ?A; cases ?B) (auto simp: res_simps)
  also have "\<dots> \<longleftrightarrow> K1 fibers table \<and> K2 fibers table \<and> K3 table"
    unfolding A B C K2_def by blast
  finally show ?thesis .
qed

section \<open>Keyed maps\<close>

definition fibers_wf :: "(uuid, fiber) btree \<Rightarrow> bool" where
  "fibers_wf m \<longleftrightarrow> (\<forall>(i, f) \<in> set (bt_entries m). fb_id f = i)"

lemma fibers_wf_iff: "fibers_wf m \<longleftrightarrow> (\<forall>i f. bt_get m i = Some f \<longrightarrow> fb_id f = i)"
  unfolding fibers_wf_def by (auto simp flip: bt_entries_mem)

lemma bt_of_list_get: "distinct (map fst xs) \<Longrightarrow> bt_get (bt_of_list xs) k = map_of xs k"
proof -
  have "bt_get (fold (\<lambda>(k, v). bt_insert k v) xs m) k =
          (case map_of xs k of None \<Rightarrow> bt_get m k | Some v \<Rightarrow> Some v)"
    if "distinct (map fst xs)" for m :: "('a, 'b) btree"
    using that
  proof (induction xs arbitrary: m)
    case (Cons p xs)
    have "map_of xs (fst p) = None"
      using Cons.prems by (auto simp: map_of_eq_None_iff)
    then show ?case
      using Cons.IH [of "bt_insert (fst p) (snd p) m"] Cons.prems
      by (cases p) (auto simp: bt_get_insert split: option.split)
  qed simp
  from this [of bt_empty] show "distinct (map fst xs) \<Longrightarrow> ?thesis"
    by (auto simp: bt_of_list_def split: option.split)
qed

lemma key_fibers_values: "fibers_wf m \<Longrightarrow> key_fibers (bt_values m) = m"
proof -
  assume wf: "fibers_wf m"
  have eq: "map (\<lambda>f. (fb_id f, f)) (bt_values m) = bt_entries m"
    unfolding bt_values_def using wf by (auto simp: fibers_wf_def split: prod.splits intro!: map_idI)
  have "bt_get (bt_of_list (bt_entries m)) k = bt_get m k" for k
    by (simp add: bt_of_list_get al_wf_distinct) (simp add: bt_get_def)
  then show ?thesis
    unfolding key_fibers_def eq by (intro bt_eqI ext)
qed

lemma fibers_wf_empty [simp]: "fibers_wf bt_empty"
  by (simp add: fibers_wf_iff)

lemma fibers_wf_insert: "fibers_wf m \<Longrightarrow> fibers_wf (bt_insert (fb_id f) f m)"
  by (auto simp: fibers_wf_iff bt_get_insert split: if_splits)

lemma fibers_wf_remove: "fibers_wf m \<Longrightarrow> fibers_wf (bt_remove i m)"
  by (auto simp: fibers_wf_iff bt_get_remove split: if_splits)

lemma fibers_wf_deltas: "fibers_wf pre \<Longrightarrow> fibers_wf (apply_fiber_deltas pre ups dels b)"
proof -
  assume wf: "fibers_wf pre"
  have ins: "fibers_wf (fold (\<lambda>f. bt_insert (fb_id f) f) ups m)" if "fibers_wf m" for m
    using that by (induction ups arbitrary: m) (auto intro: fibers_wf_insert)
  have del: "fibers_wf (fold bt_remove dels m)" if "fibers_wf m" for m
    using that by (induction dels arbitrary: m) (auto intro: fibers_wf_remove)
  show ?thesis
    unfolding apply_fiber_deltas_def using wf ins del by auto
qed

text \<open>A fiber after the deltas: deleted, or the last upsert under its id, or as before.\<close>

lemma get_fiber_deltas:
  "bt_get (apply_fiber_deltas pre ups dels False) i =
     (if i \<in> set dels then None
      else case find (\<lambda>f. fb_id f = i) (rev ups) of None \<Rightarrow> bt_get pre i | Some f \<Rightarrow> Some f)"
  unfolding apply_fiber_deltas_def using bt.get_batch [of dels fb_id ups pre i] by simp

section \<open>The two folds agree\<close>

lemma materialize_frame:
  assumes "fibers_wf (ps_fibers prior)"
  shows "(ps_fibers (se_state (materialize_snapshot prior t abi revision)),
          ps_concurrency_table (se_state (materialize_snapshot prior t abi revision)))
         = derive_post_transition_frame (to_runtime_snapshot prior) t"
proof -
  have wf: "fibers_wf (apply_fiber_deltas (ps_fibers prior) (tr_fibers_upsert t)
              (tr_fibers_delete t) (tc_delete_all_fibers (tr_terminal_cleanup t)))"
    using assms by (rule fibers_wf_deltas)
  show ?thesis
    using key_fibers_values [OF wf] assms
    by (simp add: materialize_snapshot_def derive_post_transition_frame_def Let_def
        snapshot_envelope_new_def persisted_new_def to_runtime_snapshot_def key_fibers_values
        apply_fiber_deltas_def split: if_splits)
qed

lemma materialize_state:
  "pi_state (ps_instance (se_state (materialize_snapshot prior t abi revision))) = effective_state t"
  by (simp add: materialize_snapshot_def Let_def snapshot_envelope_new_def persisted_new_def
      effective_state_def unwrap_or_def split: option.split)

lemma materialize_header:
  "se_revision (materialize_snapshot prior t abi revision) = revision"
  "se_artifact_abi (materialize_snapshot prior t abi revision) = abi"
  "se_artifact_hash (materialize_snapshot prior t abi revision)
     = pi_bytecode_version (tr_next_snapshot t)"
  "pi_bytecode_version (ps_instance (se_state (materialize_snapshot prior t abi revision)))
     = pi_bytecode_version (tr_next_snapshot t)"
  by (simp_all add: materialize_snapshot_def Let_def snapshot_envelope_new_def persisted_new_def
      split: option.split)

section \<open>What Ring 3 establishes\<close>

definition effects_uniquely_owned :: "(uuid, fiber) btree \<Rightarrow> bool" where
  "effects_uniquely_owned fibers \<longleftrightarrow>
     (\<forall>f \<in> set (bt_values fibers). \<forall>g \<in> set (bt_values fibers).
        fb_id f \<noteq> fb_id g \<longrightarrow> set (referenced_effects f) \<inter> set (referenced_effects g) = {})"

definition barriers_satisfiable :: "(uuid, fiber) btree \<Rightarrow> concurrency_table \<Rightarrow> bool" where
  "barriers_satisfiable fibers table \<longleftrightarrow>
     (\<forall>i r. armed_at table i r \<and> rec_kind r = RK_Barrier \<longrightarrow>
        ct_count (rec_counters r) \<le> of_nat (length (not_yet_arrived fibers i r)))"

definition upserts_in_bounds :: "executable_workflow \<Rightarrow> fiber list \<Rightarrow> bool" where
  "upserts_in_bounds w fs \<longleftrightarrow>
     (\<forall>f \<in> set fs. unat (fb_pc f) < length (wf_instructions w)
        \<and> length (fb_stack f) \<le> unat (max_stack (wf_limits w))
        \<and> length (fb_control_stack f) \<le> unat (max_control_depth (wf_limits w)))"

text \<open>The owner map: each effect seen so far with the fiber that holds it.\<close>

definition owners_ok :: "fiber list \<Rightarrow> (effect_id, uuid) btree \<Rightarrow> bool" where
  "owners_ok fs owners \<longleftrightarrow>
     (\<forall>e i. bt_get owners e = Some i \<longleftrightarrow> (\<exists>f \<in> set fs. fb_id f = i \<and> e \<in> set (referenced_effects f)))"

lemma claim_effect_ok:
  "claim_effect i e owners = Inr owners' \<longleftrightarrow>
     (bt_get owners e = None \<or> bt_get owners e = Some i) \<and> owners' = bt_insert e i owners"
  by (auto simp: claim_effect_def split: option.split)

lemma claim_effects_ok:
  "fold_res (claim_effect i) es owners = Inr owners' \<longleftrightarrow>
     (\<forall>e \<in> set es. bt_get owners e = None \<or> bt_get owners e = Some i)
     \<and> owners' = fold (\<lambda>e. bt_insert e i) es owners"
proof (induction es arbitrary: owners)
  case Nil
  then show ?case by auto
next
  case (Cons e es)
  have ins: "bt_get (bt_insert e i owners) e' = None \<or> bt_get (bt_insert e i owners) e' = Some i
     \<longleftrightarrow> e' = e \<or> bt_get owners e' = None \<or> bt_get owners e' = Some i" for e'
    by (auto simp: bt_get_insert)
  show ?case
  proof (cases "claim_effect i e owners")
    case (Inl v)
    then have "\<not> (bt_get owners e = None \<or> bt_get owners e = Some i)"
      by (auto simp: claim_effect_def split: option.splits if_splits)
    then show ?thesis using Inl by (simp add: res_simps)
  next
    case (Inr o1)
    then have c: "bt_get owners e = None \<or> bt_get owners e = Some i" and o1: "o1 = bt_insert e i owners"
      unfolding claim_effect_ok by auto
    have "fold_res (claim_effect i) (e # es) owners = Inr owners' \<longleftrightarrow>
        (\<forall>e' \<in> set es. e' = e \<or> bt_get owners e' = None \<or> bt_get owners e' = Some i)
        \<and> owners' = fold (\<lambda>e. bt_insert e i) es (bt_insert e i owners)"
      by (simp add: Inr res_simps o1 Cons.IH ins)
    then show ?thesis using c by auto
  qed
qed

lemma get_fold_claims:
  "bt_get (fold (\<lambda>e. bt_insert e i) es owners) e = (if e \<in> set es then Some i else bt_get owners e)"
  by (induction es arbitrary: owners) (auto simp: bt_get_insert)

text \<open>Scanning the fibers after those in \<open>done\<close> succeeds exactly when no effect is shared
  between two of them with different ids.\<close>

lemma claim_fibers_ok:
  assumes "owners_ok seen owners"
  shows "(\<exists>owners'. fold_res claim_fiber_effects fs owners = Inr owners') \<longleftrightarrow>
     (\<forall>f \<in> set fs. \<forall>g \<in> set seen. fb_id f \<noteq> fb_id g \<longrightarrow>
        set (referenced_effects f) \<inter> set (referenced_effects g) = {})
     \<and> pairwise (\<lambda>f g. fb_id f \<noteq> fb_id g \<longrightarrow>
        set (referenced_effects f) \<inter> set (referenced_effects g) = {}) (set fs)"
  using assms
proof (induction fs arbitrary: seen owners)
  case (Cons f fs)
  define apart where "apart = (\<lambda>f g. fb_id f \<noteq> fb_id g \<longrightarrow>
        set (referenced_effects f) \<inter> set (referenced_effects g) = {})"
  have apart_sym: "apart f g \<longleftrightarrow> apart g f" for f g
    unfolding apart_def by auto
  have apart_refl: "apart f f" for f
    unfolding apart_def by simp
  have here: "(\<forall>e \<in> set (referenced_effects f). bt_get owners e = None \<or> bt_get owners e = Some (fb_id f))
      \<longleftrightarrow> (\<forall>g \<in> set seen. apart f g)"
    (is "?free \<longleftrightarrow> ?apart")
  proof
    assume free: ?free
    show ?apart
    proof
      fix g assume g: "g \<in> set seen"
      have "fb_id f = fb_id g" if "e \<in> set (referenced_effects f)" "e \<in> set (referenced_effects g)" for e
      proof -
        have "bt_get owners e = Some (fb_id g)"
          using Cons.prems g that(2) unfolding owners_ok_def by blast
        then show ?thesis using free that(1) by auto
      qed
      then show "apart f g" unfolding apart_def by blast
    qed
  next
    assume apart: ?apart
    show ?free
    proof
      fix e assume e: "e \<in> set (referenced_effects f)"
      show "bt_get owners e = None \<or> bt_get owners e = Some (fb_id f)"
      proof (cases "bt_get owners e")
        case (Some i)
        then obtain g where "g \<in> set seen" "fb_id g = i" "e \<in> set (referenced_effects g)"
          using Cons.prems unfolding owners_ok_def by blast
        then have "fb_id f = i" using apart e unfolding apart_def by blast
        then show ?thesis using Some by simp
      qed simp
    qed
  qed
  let ?o = "fold (\<lambda>e. bt_insert e (fb_id f)) (referenced_effects f) owners"
  have step: "claim_fiber_effects f owners = Inr o1 \<longleftrightarrow> (\<forall>g \<in> set seen. apart f g) \<and> o1 = ?o" for o1
    unfolding claim_fiber_effects_def claim_effects_ok here ..
  show ?case
  proof (cases "\<forall>g \<in> set seen. apart f g")
    case True
    have "bt_get ?o e = Some i \<longleftrightarrow> (\<exists>g \<in> set (f # seen). fb_id g = i \<and> e \<in> set (referenced_effects g))" for e i
    proof (cases "e \<in> set (referenced_effects f)")
      case in_f: True
      then have "fb_id g = fb_id f" if "g \<in> set seen" "e \<in> set (referenced_effects g)" for g
        using True that unfolding apart_def by (metis disjoint_iff)
      then show ?thesis using in_f by (auto simp: get_fold_claims)
    next
      case False
      then show ?thesis using Cons.prems by (auto simp: get_fold_claims owners_ok_def)
    qed
    then have "owners_ok (f # seen) ?o" unfolding owners_ok_def by blast
    from Cons.IH [OF this] have ih:
      "(\<exists>owners'. fold_res claim_fiber_effects fs ?o = Inr owners') \<longleftrightarrow>
         (\<forall>h \<in> set fs. \<forall>g \<in> set (f # seen). apart h g) \<and> pairwise apart (set fs)"
      unfolding apart_def .
    have "claim_fiber_effects f owners = Inr ?o" using step True by simp
    then have "(\<exists>owners'. fold_res claim_fiber_effects (f # fs) owners = Inr owners') \<longleftrightarrow>
         (\<forall>h \<in> set fs. \<forall>g \<in> set (f # seen). apart h g) \<and> pairwise apart (set fs)"
      using ih by (simp add: res_simps)
    also have "\<dots> \<longleftrightarrow> (\<forall>h \<in> set (f # fs). \<forall>g \<in> set seen. apart h g) \<and> pairwise apart (set (f # fs))"
      using True apart_sym apart_refl unfolding pairwise_def by (auto 0 3)
    finally show ?thesis unfolding apart_def .
  next
    case False
    then have "\<nexists>o1. claim_fiber_effects f owners = Inr o1" using step by simp
    then have "\<nexists>owners'. fold_res claim_fiber_effects (f # fs) owners = Inr owners'"
      by (cases "claim_fiber_effects f owners") (auto simp: res_simps)
    then show ?thesis using False unfolding apart_def by auto
  qed
qed simp

lemma effect_owners_ok:
  "(\<exists>owners. fold_res claim_fiber_effects (bt_values fibers) bt_empty = Inr owners)
     \<longleftrightarrow> effects_uniquely_owned fibers"
proof -
  have "owners_ok [] bt_empty" by (simp add: owners_ok_def)
  note scan = claim_fibers_ok [OF this, of "bt_values fibers"]
  have "effects_uniquely_owned fibers \<longleftrightarrow> pairwise (\<lambda>f g. fb_id f \<noteq> fb_id g \<longrightarrow>
        set (referenced_effects f) \<inter> set (referenced_effects g) = {}) (set (bt_values fibers))"
    unfolding effects_uniquely_owned_def pairwise_def by metis
  then show ?thesis unfolding scan by simp
qed

lemma ring3_check_fiber_ok:
  "for_res (ring3_check_fiber w) fs = Inr () \<longleftrightarrow> upserts_in_bounds w fs"
proof -
  have "ring3_check_fiber w f = Inr () \<longleftrightarrow>
      unat (fb_pc f) < length (wf_instructions w)
      \<and> length (fb_stack f) \<le> unat (max_stack (wf_limits w))
      \<and> length (fb_control_stack f) \<le> unat (max_control_depth (wf_limits w))" for f
    unfolding ring3_check_fiber_def by (simp add: not_le not_less)
  then show ?thesis unfolding for_res_ok upserts_in_bounds_def by blast
qed

lemma ring3_check_barrier_ok:
  "for_res (ring3_check_barrier fibers) (bt_entries table) = Inr () \<longleftrightarrow>
     barriers_satisfiable fibers table"
proof -
  have "ring3_check_barrier fibers (i, r) = Inr () \<longleftrightarrow>
      (rec_state r = Armed \<and> rec_kind r = RK_Barrier \<longrightarrow>
         \<not> of_nat (length (not_yet_arrived fibers i r)) < ct_count (rec_counters r))" for i r
    unfolding ring3_check_barrier_def Let_def by simp
  then show ?thesis
    unfolding for_res_ok all_entries barriers_satisfiable_def armed_at_def ct_get_def
      linorder_not_less [symmetric] by blast
qed

text \<open>The frame a transition may leave behind.\<close>

definition frame_ok :: "(uuid, fiber) btree \<Rightarrow> concurrency_table \<Rightarrow> process_state \<Rightarrow> bool" where
  "frame_ok fibers table st \<longleftrightarrow>
     (bt_is_empty fibers \<longrightarrow> is_terminal st) \<and> K1 fibers table \<and> K2 fibers table \<and> K3 table
     \<and> barriers_satisfiable fibers table \<and> effects_uniquely_owned fibers"

lemma ring3_iff:
  "ring3_shadow_check w s t = Inr () \<longleftrightarrow>
     upserts_in_bounds w (tr_fibers_upsert t) \<and>
     (case derive_post_transition_frame s t of (fibers, table) \<Rightarrow>
        frame_ok fibers table (effective_state t))"
proof -
  obtain fibers table where frame: "derive_post_transition_frame s t = (fibers, table)"
    by (cases "derive_post_transition_frame s t")
  let ?A = "for_res (ring3_check_fiber w) (tr_fibers_upsert t)"
  let ?B = "check_k_invariants fibers table"
  let ?C = "for_res (ring3_check_barrier fibers) (bt_entries table)"
  let ?D = "fold_res claim_fiber_effects (bt_values fibers) bt_empty"
  have "ring3_shadow_check w s t = Inr () \<longleftrightarrow>
      (bt_is_empty fibers \<longrightarrow> is_terminal (effective_state t)) \<and> ?A = Inr () \<and> ?B = Inr ()
      \<and> ?C = Inr () \<and> (\<exists>owners. ?D = Inr owners)"
    unfolding ring3_shadow_check_def frame Let_def prod.case
    by (cases ?A; cases ?B; cases ?C; cases ?D) (simp_all add: res_simps map_err_def)
  then show ?thesis
    unfolding ring3_check_fiber_ok check_k_iff ring3_check_barrier_ok effect_owners_ok frame
      frame_ok_def by auto
qed

end
