(* ===== verification/Scopes.thy ===== *)
theory Scopes
  imports FrameLaws
begin

text \<open>
  Concurrency scopes in the kernel (\<open>bpmn-lite-kernel/src/lib.rs\<close>): the in-progress \<open>Changes\<close>
  of a transition, reading a record through them, keeping ancestor membership in step with
  fibers that appear or die, the deepest-first walk of a cancelled scope, guard triggers and
  scope rollback. The walk recurses over the record tree that the control stacks spell out;
  \<open>scope_fuel\<close> bounds its depth, and \<open>None\<close> stands for a recursion that does not end.
\<close>

section \<open>Changes\<close>

record changes =
  ch_fibers_upsert :: "fiber list"
  ch_fibers_delete :: "uuid list"
  ch_events :: "runtime_event list"
  ch_effects :: "durable_effect list"
  ch_effect_mutations :: "effect_mutation list"
  ch_timer_mutations :: "timer_mutation list"
  ch_jobs_enqueue :: "job_activation list"
  ch_jobs_ack :: "string list"
  ch_job_mutations :: "job_mutation list"
  ch_dedupe :: "dedupe_write list"
  ch_incidents :: "incident list"
  ch_join_mutations :: "join_mutation list"
  ch_buffered_messages :: "buffered_message_mutation list"
  ch_cleanup :: "terminal_cleanup option"
  ch_concurrency_mutations :: "concurrency_mutation list"
  ch_control_stack_deltas :: "control_stack_delta list"

definition changes_default :: changes where
  "changes_default =
     \<lparr>ch_fibers_upsert = [], ch_fibers_delete = [], ch_events = [], ch_effects = [],
      ch_effect_mutations = [], ch_timer_mutations = [], ch_jobs_enqueue = [], ch_jobs_ack = [],
      ch_job_mutations = [], ch_dedupe = [], ch_incidents = [], ch_join_mutations = [],
      ch_buffered_messages = [], ch_cleanup = None, ch_concurrency_mutations = [],
      ch_control_stack_deltas = []\<rparr>"

definition push_upsert :: "fiber \<Rightarrow> changes \<Rightarrow> changes" where
  "push_upsert f ch = ch\<lparr>ch_fibers_upsert := ch_fibers_upsert ch @ [f]\<rparr>"

definition push_delete :: "uuid \<Rightarrow> changes \<Rightarrow> changes" where
  "push_delete i ch = ch\<lparr>ch_fibers_delete := ch_fibers_delete ch @ [i]\<rparr>"

definition push_event :: "runtime_event \<Rightarrow> changes \<Rightarrow> changes" where
  "push_event e ch = ch\<lparr>ch_events := ch_events ch @ [e]\<rparr>"

definition push_effect :: "durable_effect \<Rightarrow> changes \<Rightarrow> changes" where
  "push_effect e ch = ch\<lparr>ch_effects := ch_effects ch @ [e]\<rparr>"

definition push_effect_mutation :: "effect_mutation \<Rightarrow> changes \<Rightarrow> changes" where
  "push_effect_mutation m ch = ch\<lparr>ch_effect_mutations := ch_effect_mutations ch @ [m]\<rparr>"

definition push_timer_mutation :: "timer_mutation \<Rightarrow> changes \<Rightarrow> changes" where
  "push_timer_mutation m ch = ch\<lparr>ch_timer_mutations := ch_timer_mutations ch @ [m]\<rparr>"

definition push_enqueue :: "job_activation \<Rightarrow> changes \<Rightarrow> changes" where
  "push_enqueue j ch = ch\<lparr>ch_jobs_enqueue := ch_jobs_enqueue ch @ [j]\<rparr>"

definition push_ack :: "string \<Rightarrow> changes \<Rightarrow> changes" where
  "push_ack k ch = ch\<lparr>ch_jobs_ack := ch_jobs_ack ch @ [k]\<rparr>"

definition push_job_mutation :: "job_mutation \<Rightarrow> changes \<Rightarrow> changes" where
  "push_job_mutation m ch = ch\<lparr>ch_job_mutations := ch_job_mutations ch @ [m]\<rparr>"

definition push_dedupe :: "dedupe_write \<Rightarrow> changes \<Rightarrow> changes" where
  "push_dedupe d ch = ch\<lparr>ch_dedupe := ch_dedupe ch @ [d]\<rparr>"

definition push_incident :: "incident \<Rightarrow> changes \<Rightarrow> changes" where
  "push_incident i ch = ch\<lparr>ch_incidents := ch_incidents ch @ [i]\<rparr>"

definition push_buffered :: "buffered_message_mutation \<Rightarrow> changes \<Rightarrow> changes" where
  "push_buffered m ch = ch\<lparr>ch_buffered_messages := ch_buffered_messages ch @ [m]\<rparr>"

definition push_mutation :: "concurrency_mutation \<Rightarrow> changes \<Rightarrow> changes" where
  "push_mutation m ch = ch\<lparr>ch_concurrency_mutations := ch_concurrency_mutations ch @ [m]\<rparr>"

definition push_delta :: "control_stack_delta \<Rightarrow> changes \<Rightarrow> changes" where
  "push_delta d ch = ch\<lparr>ch_control_stack_deltas := ch_control_stack_deltas ch @ [d]\<rparr>"

named_theorems push_defs \<open>definitions of the pushes onto the in-progress changes\<close>

lemmas [push_defs] =
  changes_default_def push_upsert_def push_delete_def push_event_def push_effect_def
  push_effect_mutation_def push_timer_mutation_def push_enqueue_def push_ack_def
  push_job_mutation_def push_dedupe_def push_incident_def push_buffered_def push_mutation_def
  push_delta_def

definition finish :: "changes \<Rightarrow> process_instance \<Rightarrow> transition" where
  "finish ch inst =
     fold tb_control_stack_delta (ch_control_stack_deltas ch)
    (fold tb_concurrency_mutation (ch_concurrency_mutations ch)
    ((case ch_cleanup ch of Some c \<Rightarrow> tb_terminal_cleanup c | None \<Rightarrow> id)
    (fold tb_buffered_message (ch_buffered_messages ch)
    (fold tb_join_mutation (ch_join_mutations ch)
    (fold tb_incident (ch_incidents ch)
    (fold tb_dedupe (ch_dedupe ch)
    (fold tb_job_mutation (ch_job_mutations ch)
    (fold tb_ack_job (ch_jobs_ack ch)
    (fold tb_enqueue_job (ch_jobs_enqueue ch)
    (fold tb_timer_mutation (ch_timer_mutations ch)
    (fold tb_effect_mutation (ch_effect_mutations ch)
    (fold tb_effect (ch_effects ch)
    (fold tb_event (ch_events ch)
    (fold tb_delete_fiber (ch_fibers_delete ch)
    (fold tb_upsert_fiber (ch_fibers_upsert ch)
    (transition_new inst))))))))))))))))"

section \<open>Records during a transition\<close>

definition fetch_step ::
  "record_id \<Rightarrow> concurrency_mutation \<Rightarrow> concurrency_record option option" where
  "fetch_step handle m =
     (case m of
        CM_Insert r \<Rightarrow> if rec_id r = handle then Some (Some r) else None
      | CM_Retire i \<Rightarrow> if i = handle then Some None else None
      | CM_Remove i \<Rightarrow> if i = handle then Some None else None)"

definition fetch_record_in_transition ::
  "snapshot \<Rightarrow> changes \<Rightarrow> record_id \<Rightarrow> concurrency_record option" where
  "fetch_record_in_transition s ch handle =
     (case find_map (fetch_step handle) (rev (ch_concurrency_mutations ch)) of
        Some r \<Rightarrow> r
      | None \<Rightarrow> ct_get (sn_concurrency_table s) handle)"

definition armed_record_ids_in_transition :: "snapshot \<Rightarrow> changes \<Rightarrow> record_id list" where
  "armed_record_ids_in_transition s ch =
     map fst (filter (\<lambda>(_, r). rec_state r = Armed)
       (bt_entries (fold apply_concurrency_mutation (ch_concurrency_mutations ch)
          (sn_concurrency_table s))))"

definition retire_all_armed_records :: "snapshot \<Rightarrow> transition \<Rightarrow> transition" where
  "retire_all_armed_records s builder =
     fold (\<lambda>i. tb_concurrency_mutation (CM_Retire i))
       (armed_record_ids_in_transition s changes_default) builder"

datatype membership_op = Add uuid | Remove uuid

fun apply_membership_op :: "membership_op \<Rightarrow> concurrency_record \<Rightarrow> concurrency_record" where
  "apply_membership_op (Add i) r = r\<lparr>rec_members := bs_insert i (rec_members r)\<rparr>"
| "apply_membership_op (Remove i) r = r\<lparr>rec_members := bs_remove i (rec_members r)\<rparr>"

definition reconcile_step ::
  "snapshot \<Rightarrow> record_id bset \<Rightarrow> changes \<Rightarrow> record_id \<times> membership_op
     \<Rightarrow> (record_id, concurrency_record) btree \<Rightarrow> (record_id, concurrency_record) btree" where
  "reconcile_step s exclude ch = (\<lambda>(handle, oper) touched.
     if bs_contains exclude handle then touched
     else case (case bt_get touched handle of
                  Some r \<Rightarrow> Some r
                | None \<Rightarrow> fetch_record_in_transition s ch handle) of
            None \<Rightarrow> touched
          | Some r \<Rightarrow> bt_insert handle (apply_membership_op oper r) touched)"

definition v2_reconcile_ancestor_membership ::
  "snapshot \<Rightarrow> (record_id \<times> membership_op) list \<Rightarrow> record_id bset \<Rightarrow> changes \<Rightarrow> changes" where
  "v2_reconcile_ancestor_membership s ops exclude ch =
     (let touched = fold (reconcile_step s exclude ch) ops bt_empty
      in fold (\<lambda>r. push_mutation (CM_Insert r)) (bt_values touched) ch)"

section \<open>Walking a cancelled scope\<close>

definition scope_next :: "record_id \<Rightarrow> fiber \<Rightarrow> record_id option option" where
  "scope_next parent f =
     (let chain = effective_control_stack f in
      map_option (\<lambda>pos. vec_get chain (pos + 1)) (position (\<lambda>i. i = parent) chain))"

definition scope_children :: "snapshot \<Rightarrow> record_id \<Rightarrow> record_id list" where
  "scope_children s parent =
     bs_list (bs_of_list (List.map_filter
       (\<lambda>f. case scope_next parent f of Some (Some child) \<Rightarrow> Some child | _ \<Rightarrow> None)
       (bt_values (sn_fibers s))))"

definition scope_direct_leaves :: "snapshot \<Rightarrow> record_id \<Rightarrow> uuid list" where
  "scope_direct_leaves s parent =
     map fb_id (filter (\<lambda>f. scope_next parent f = Some None) (bt_values (sn_fibers s)))"

fun fold_opt :: "('a \<Rightarrow> 's \<Rightarrow> 's option) \<Rightarrow> 'a list \<Rightarrow> 's \<Rightarrow> 's option" where
  "fold_opt f [] s = Some s"
| "fold_opt f (a # as) s = Option.bind (f a s) (fold_opt f as)"

primrec v2_cancel_guard_scope ::
  "nat \<Rightarrow> snapshot \<Rightarrow> record_id \<Rightarrow> record_id list \<times> uuid list \<Rightarrow> (record_id list \<times> uuid list) option" where
  "v2_cancel_guard_scope 0 s parent acc = None"
| "v2_cancel_guard_scope (Suc fuel) s parent acc =
     Option.bind (fold_opt (v2_cancel_guard_scope fuel s) (scope_children s parent) acc)
       (\<lambda>(retire_order, leaf_fibers).
          Some (retire_order @ [parent], leaf_fibers @ scope_direct_leaves s parent))"

definition scope_fuel :: "snapshot \<Rightarrow> nat" where
  "scope_fuel s =
     Suc (sum_list (map (\<lambda>f. length (effective_control_stack f)) (bt_values (sn_fibers s))))"

definition cancel_scope :: "snapshot \<Rightarrow> record_id \<Rightarrow> transition_error + record_id list \<times> uuid list" where
  "cancel_scope s parent =
     ok_or (v2_cancel_guard_scope (scope_fuel s) s parent ([], [])) StackOverflow"

text \<open>Membership removals for the dead fibers, over each one's own control stack.\<close>

definition dead_fiber_ops :: "snapshot \<Rightarrow> uuid list \<Rightarrow> (record_id \<times> membership_op) list" where
  "dead_fiber_ops s dead =
     concat (map (\<lambda>i. case bt_get (sn_fibers s) i of
                        Some f \<Rightarrow> map (\<lambda>ancestor. (ancestor, Remove i)) (fb_control_stack f)
                      | None \<Rightarrow> []) dead)"

text \<open>The jobs that the dead fibers were parked on.\<close>

definition void_jobs :: "snapshot \<Rightarrow> uuid list \<Rightarrow> job_mutation list" where
  "void_jobs s dead =
     List.map_filter (\<lambda>i. case bt_get (sn_fibers s) i of
         Some f \<Rightarrow> (case fb_wait f of W_Job job_key \<Rightarrow> Some (JM_Cancel job_key) | _ \<Rightarrow> None)
       | None \<Rightarrow> None) dead"

section \<open>Guard triggers\<close>

definition handler_stack_of :: "snapshot \<Rightarrow> record_id \<Rightarrow> bool \<Rightarrow> record_id list" where
  "handler_stack_of s record_id interrupting =
     unwrap_or (find_map
       (\<lambda>f. map_option (\<lambda>pos. take (if interrupting then pos else pos + 1) (fb_control_stack f))
              (position (\<lambda>i. i = record_id) (fb_control_stack f)))
       (bt_values (sn_fibers s))) []"

definition v2_trigger_guard_changes_with_target ::
  "ext \<Rightarrow> snapshot \<Rightarrow> record_id \<Rightarrow> deterministic_context \<Rightarrow> addr \<Rightarrow> transition_error + changes" where
  "v2_trigger_guard_changes_with_target x s record_id cx handler_target =
     try_res (ok_or (ct_get (sn_concurrency_table s) record_id)
                (InvalidCommand ''V2TriggerGuard: unknown guard handle'')) (\<lambda>r.
     try_res (case rec_kind r of
                RK_Guard interrupting \<Rightarrow> Inr interrupting
              | _ \<Rightarrow> Inl (InvalidCommand ''V2TriggerGuard: handle is not a guard'')) (\<lambda>interrupting.
     if rec_state r \<noteq> Armed then Inl (InvalidCommand ''V2TriggerGuard: guard is not armed'')
     else
       (let handler_stack = handler_stack_of s record_id interrupting;
            handler_fiber_id = derived_id x cx 0;
            handler_fiber = (fiber_new handler_fiber_id handler_target)\<lparr>fb_control_stack := handler_stack\<rparr>;
            ch = push_event (Ev_FiberSpawned handler_fiber_id handler_target None)
                   (push_upsert handler_fiber changes_default);
            ch = v2_reconcile_ancestor_membership s
                   (map (\<lambda>ancestor. (ancestor, Add handler_fiber_id)) handler_stack)
                   (bs_of_list []) ch
        in if interrupting then
             try_res (cancel_scope s record_id) (\<lambda>(retire_order, cancelled_fibers).
               (let ch = fold (\<lambda>i. push_mutation (CM_Retire i)) retire_order ch;
                    ch = fold push_delete cancelled_fibers ch;
                    ch = fold push_job_mutation (void_jobs s cancelled_fibers) ch;
                    ch = v2_reconcile_ancestor_membership s (dead_fiber_ops s cancelled_fibers)
                           (bs_of_list retire_order) ch
                in Inr (push_event (Ev_V2GuardTriggered record_id handler_fiber_id retire_order
                          cancelled_fibers) ch)))
           else Inr (push_event (Ev_V2GuardNTriggered record_id handler_fiber_id) ch))))"

definition v2_trigger_guard_changes ::
  "ext \<Rightarrow> snapshot \<Rightarrow> record_id \<Rightarrow> deterministic_context \<Rightarrow> transition_error + changes" where
  "v2_trigger_guard_changes x s record_id cx =
     try_res (ok_or (ct_get (sn_concurrency_table s) record_id)
                (InvalidCommand ''V2TriggerGuard: unknown guard handle'')) (\<lambda>r.
     if \<not> (case rec_kind r of RK_Guard _ \<Rightarrow> True | _ \<Rightarrow> False)
       then Inl (InvalidCommand ''V2TriggerGuard: handle is not a guard'')
     else if rec_state r \<noteq> Armed then Inl (InvalidCommand ''V2TriggerGuard: guard is not armed'')
     else
       try_res (ok_or (rec_handler r)
                  (InvalidCommand ''V2TriggerGuard: guard has no handler address'')) (\<lambda>handler_target.
       v2_trigger_guard_changes_with_target x s record_id cx handler_target))"

definition apply_v2_trigger_guard ::
  "ext \<Rightarrow> snapshot \<Rightarrow> command \<Rightarrow> deterministic_context \<Rightarrow> transition_error + transition" where
  "apply_v2_trigger_guard x s cmd cx =
     (case cmd of
        Cmd_V2TriggerGuard record_id \<Rightarrow>
          try_res (v2_trigger_guard_changes x s record_id cx) (\<lambda>ch. Inr (finish ch (sn_instance s)))
      | _ \<Rightarrow> Inl (InvalidCommand ''v2 guard trigger requires V2TriggerGuard''))"

section \<open>Rollback\<close>

datatype rollback_caller = Continues uuid | Dies uuid

record rollback_snapshot =
  rb_domain_payload :: string
  rb_domain_payload_hash :: hash32
  rb_flags :: "(flag_key, val) btree"
  rb_join_expected :: "(join_id, u16) btree"
  rb_session_stack :: session_stack_state

definition rollback_fields ::
  "ext \<Rightarrow> concurrency_record \<Rightarrow> transition_error + rollback_snapshot" where
  "rollback_fields x r =
     (case (rec_rollback_domain_payload r, rec_rollback_domain_payload_hash r, rec_rollback_flags r,
            rec_rollback_join_expected r, rec_rollback_session_stack r) of
        (Some payload, Some hash, Some flags, Some join_expected, Some session) \<Rightarrow>
          try_res (ok_or (x_session_parse x session)
                     (InvalidCommand ''rollback: malformed session-stack snapshot'')) (\<lambda>session_stack.
          Inr \<lparr>rb_domain_payload = payload, rb_domain_payload_hash = hash, rb_flags = flags,
            rb_join_expected = join_expected, rb_session_stack = session_stack\<rparr>)
      | _ \<Rightarrow> Inl (InvalidCommand
          ''rollback: handle carries no rollback snapshot (not a GUARD-R> scope)''))"

definition v2_rollback_guard_scope ::
  "ext \<Rightarrow> snapshot \<Rightarrow> record_id \<Rightarrow> rollback_caller \<Rightarrow> changes
     \<Rightarrow> transition_error + rollback_snapshot \<times> changes" where
  "v2_rollback_guard_scope x s guard_handle caller ch =
     try_res (ok_or (fetch_record_in_transition s ch guard_handle)
                (InvalidCommand ''rollback: unknown scope handle'')) (\<lambda>r.
     try_res (rollback_fields x r) (\<lambda>restored.
     try_res (cancel_scope s guard_handle) (\<lambda>(retire_order, cancelled).
       (let (fiber_id, cancelled_fibers) =
              (case caller of
                 Continues i \<Rightarrow> (i, filter (\<lambda>c. c \<noteq> i) cancelled)
               | Dies i \<Rightarrow> (i, cancelled));
            ch = fold (\<lambda>i. push_mutation (CM_Retire i)) retire_order ch;
            ch = fold push_delete cancelled_fibers ch;
            ch = v2_reconcile_ancestor_membership s (dead_fiber_ops s cancelled_fibers)
                   (bs_of_list retire_order) ch;
            ch = push_event (Ev_V2ScopeCancelled guard_handle fiber_id retire_order cancelled_fibers) ch
        in Inr (restored, ch)))))"

text \<open>The assignments each caller of the rollback makes to its instance.\<close>

definition restore_instance :: "rollback_snapshot \<Rightarrow> process_instance \<Rightarrow> process_instance" where
  "restore_instance restored inst =
     inst\<lparr>pi_domain_payload := rb_domain_payload restored,
       pi_domain_payload_hash := rb_domain_payload_hash restored,
       pi_flags := rb_flags restored, pi_join_expected := rb_join_expected restored,
       pi_session_stack := rb_session_stack restored\<rparr>"

end
