(* ===== verification/Bindings.thy ===== *)
theory Bindings
  imports Transitions
begin

text \<open>
  Reading and writing process data: the compiled bindings of
  \<open>bpmn-lite-types/src/ffi_bindings.rs\<close> (inputs, outputs, correlation keys, JSON paths) and the
  placeholder methods of \<open>ProcessInstance\<close> in \<open>types.rs\<close>.
\<close>

section \<open>Placeholders\<close>

definition canonical_json_scalar :: "json \<Rightarrow> string option" where
  "canonical_json_scalar v =
     (case v of
        J_String s \<Rightarrow> Some s
      | J_Bool b \<Rightarrow> Some (if b then ''true'' else ''false'')
      | _ \<Rightarrow> None)"

definition placeholder_matches :: "process_instance \<Rightarrow> string \<Rightarrow> string \<Rightarrow> bool" where
  "placeholder_matches inst placeholder expected =
     (case Option.bind (pi_placeholder_values inst) (\<lambda>values. json_get values placeholder) of
        Some v \<Rightarrow> canonical_json_scalar v = Some expected
      | None \<Rightarrow> False)"

definition or_else :: "'a option \<Rightarrow> 'a option \<Rightarrow> 'a option" where
  "or_else a b = (case a of Some v \<Rightarrow> Some v | None \<Rightarrow> b)"

text \<open>\<open>placeholder.trim_start_matches('@')\<close> and \<open>plain.replace('-', "_")\<close>.\<close>

definition plain_placeholder :: "string \<Rightarrow> string" where
  "plain_placeholder s = dropWhile (\<lambda>c. c = CHR ''@'') s"

definition snake_placeholder :: "string \<Rightarrow> string" where
  "snake_placeholder s = map (\<lambda>c. if c = CHR ''-'' then CHR ''_'' else c) (plain_placeholder s)"

definition bind_placeholder_from_payload ::
  "ext \<Rightarrow> process_instance \<Rightarrow> string \<Rightarrow> string + process_instance" where
  "bind_placeholder_from_payload x inst placeholder =
     try_res (map_err (\<lambda>_. ''domain payload is not JSON'') (x_json_parse x (pi_domain_payload inst))) (\<lambda>payload.
     try_res (ok_or (as_object payload) ''domain payload is not a JSON object'') (\<lambda>object.
     try_res (ok_or (or_else (map_of object placeholder)
                       (or_else (map_of object (plain_placeholder placeholder))
                          (map_of object (snake_placeholder placeholder))))
                ''declared DSL output is absent from domain payload'') (\<lambda>v.
     try_res (ok_or (as_object (unwrap_or (pi_placeholder_values inst) (J_Object [])))
                ''placeholder state is not a JSON object'') (\<lambda>placeholders.
     Inr (inst\<lparr>pi_placeholder_values := Some (J_Object (al_insert placeholder v placeholders))\<rparr>)))))"

section \<open>Binding sources\<close>

datatype ffi_binding_error =
    InvalidDomainPayload string
  | InvalidOutput string
  | MissingValue string
  | WrongType string

fun read_json_path :: "json \<Rightarrow> string list \<Rightarrow> json option" where
  "read_json_path root [] = Some root"
| "read_json_path root (segment # path) =
     Option.bind (json_get root segment) (\<lambda>v. read_json_path v path)"

fun resolve_literal :: "ext \<Rightarrow> string \<Rightarrow> literal \<Rightarrow> ffi_binding_error + json" where
  "resolve_literal x label (L_Bool b) = Inr (J_Bool b)"
| "resolve_literal x label (L_I64 i) = Inr (J_Number (x_num_of_i64 x i))"
| "resolve_literal x label (L_F64 d) =
     ok_or (map_option J_Number (x_num_of_f64 x d)) (WrongType label)"
| "resolve_literal x label (L_String s) = Inr (J_String s)"

definition resolve_flag :: "ext \<Rightarrow> string \<Rightarrow> val option \<Rightarrow> ffi_binding_error + json" where
  "resolve_flag x label f =
     (case f of
        Some (V_Bool b) \<Rightarrow> Inr (J_Bool b)
      | Some (V_I64 i) \<Rightarrow> Inr (J_Number (x_num_of_i64 x i))
      | Some (V_Str s) \<Rightarrow> Inr (J_Number (x_num_of_u32 x s))
      | Some (V_Ref r) \<Rightarrow> Inr (J_Number (x_num_of_u32 x r))
      | Some (V_Array _) \<Rightarrow> Inl (WrongType label)
      | None \<Rightarrow> Inl (MissingValue label))"

definition resolve_binding_scalar_with_domain ::
  "ext \<Rightarrow> process_instance \<Rightarrow> binding_source \<Rightarrow> json \<Rightarrow> string \<Rightarrow> ffi_binding_error + json" where
  "resolve_binding_scalar_with_domain x inst source domain label =
     (case source of
        Src_Literal l \<Rightarrow> resolve_literal x label l
      | Src_FlagRef key \<Rightarrow> resolve_flag x label (bt_get (pi_flags inst) key)
      | Src_DomainPayloadRef path \<Rightarrow> ok_or (read_json_path domain path) (MissingValue label))"

definition resolve_binding_scalar ::
  "ext \<Rightarrow> process_instance \<Rightarrow> binding_source \<Rightarrow> string \<Rightarrow> ffi_binding_error + json" where
  "resolve_binding_scalar x inst source label =
     try_res (case source of
         Src_DomainPayloadRef _ \<Rightarrow> map_err InvalidDomainPayload (x_json_parse x (pi_domain_payload inst))
       | _ \<Rightarrow> Inr J_Null)
       (\<lambda>domain. resolve_binding_scalar_with_domain x inst source domain label)"

definition correlation_key_string :: "ext \<Rightarrow> json \<Rightarrow> ffi_binding_error + string" where
  "correlation_key_string x scalar =
     (case scalar of
        J_Bool b \<Rightarrow> Inr (if b then ''true'' else ''false'')
      | J_String s \<Rightarrow> Inr s
      | J_Number n \<Rightarrow>
          ok_or (or_else (map_option dec_i64 (x_num_as_i64 x n)) (map_option dec_u (x_num_as_u64 x n)))
            (WrongType ''correlation key must be an integer or string, not a float'')
      | _ \<Rightarrow> Inl (WrongType ''correlation key must be a scalar (bool, integer, or string)''))"

definition resolve_correlation_key ::
  "ext \<Rightarrow> process_instance \<Rightarrow> binding_source \<Rightarrow> ffi_binding_error + string" where
  "resolve_correlation_key x inst source =
     try_res (resolve_binding_scalar x inst source ''correlation key'') (correlation_key_string x)"

section \<open>FFI inputs and outputs\<close>

definition encode_ffi_inputs :: "ext \<Rightarrow> process_instance \<Rightarrow> ffi_task_decl \<Rightarrow> ffi_binding_error + bytes" where
  "encode_ffi_inputs x inst declaration =
     try_res (map_err InvalidDomainPayload (x_json_parse x (pi_domain_payload inst))) (\<lambda>domain.
     try_res (fold_res
         (\<lambda>binding object.
            try_res (resolve_binding_scalar_with_domain x inst (ib_source binding) domain
                       (ib_target_field binding))
              (\<lambda>v. Inr (al_insert (ib_target_field binding) v object)))
         (fd_inputs declaration) []) (\<lambda>object.
     map_err InvalidDomainPayload (x_json_print x (J_Object object))))"

fun write_json_at :: "string list \<Rightarrow> string \<Rightarrow> json \<Rightarrow> json \<Rightarrow> ffi_binding_error + json" where
  "write_json_at [] last_seg v current =
     (case current of
        J_Object m \<Rightarrow> Inr (J_Object (al_insert last_seg v m))
      | _ \<Rightarrow> Inl (WrongType last_seg))"
| "write_json_at (segment # parents) last_seg v current =
     (case current of
        J_Object m \<Rightarrow>
          (case map_of m segment of
             Some child \<Rightarrow>
               try_res (write_json_at parents last_seg v child)
                 (\<lambda>child'. Inr (J_Object (al_insert segment child' m)))
           | None \<Rightarrow> Inl (MissingValue segment))
      | _ \<Rightarrow> Inl (MissingValue segment))"

definition write_json_path :: "json \<Rightarrow> string list \<Rightarrow> json \<Rightarrow> ffi_binding_error + json" where
  "write_json_path root path v =
     (if path = [] then Inl (MissingValue ''empty output path'')
      else write_json_at (butlast path) (last path) v root)"

definition flag_of_json :: "ext \<Rightarrow> string \<Rightarrow> json \<Rightarrow> ffi_binding_error + val" where
  "flag_of_json x field v =
     (case v of
        J_Bool b \<Rightarrow> Inr (V_Bool b)
      | J_Number n \<Rightarrow> ok_or (map_option V_I64 (x_num_as_i64 x n)) (WrongType field)
      | _ \<Rightarrow> Inl (WrongType field))"

definition apply_ffi_output ::
  "ext \<Rightarrow> json \<Rightarrow> ffi_output_binding \<Rightarrow> (flag_key, val) btree \<times> json
     \<Rightarrow> ffi_binding_error + (flag_key, val) btree \<times> json" where
  "apply_ffi_output x output binding = (\<lambda>(flags, domain).
     try_res (ok_or (json_get output (ob_source_field binding)) (MissingValue (ob_source_field binding))) (\<lambda>v.
     case ob_target binding of
       FlagWrite key \<Rightarrow>
         try_res (flag_of_json x (ob_source_field binding) v)
           (\<lambda>fv. Inr (bt_insert key fv flags, domain))
     | DomainPayloadWrite path \<Rightarrow>
         try_res (write_json_path domain path v) (\<lambda>domain'. Inr (flags, domain'))))"

definition apply_ffi_outputs ::
  "ext \<Rightarrow> process_instance \<Rightarrow> ffi_task_decl \<Rightarrow> bytes \<Rightarrow> ffi_binding_error + process_instance" where
  "apply_ffi_outputs x inst declaration bs =
     try_res (map_err InvalidOutput (x_json_parse x bs)) (\<lambda>output.
     try_res (map_err InvalidDomainPayload (x_json_parse x (pi_domain_payload inst))) (\<lambda>domain.
     try_res (fold_res (apply_ffi_output x output) (fd_outputs declaration) (pi_flags inst, domain)) (\<lambda>(flags, domain).
     try_res (map_err InvalidDomainPayload (x_json_print x domain)) (\<lambda>canonical.
     Inr (inst\<lparr>pi_flags := flags, pi_domain_payload := canonical,
       pi_domain_payload_hash := content_hash x canonical\<rparr>)))))"

section \<open>Laws\<close>

text \<open>JSON paths: what is written at a path is read back there.\<close>

lemma read_write_at:
  "write_json_at parents l v root = Inr root' \<Longrightarrow> read_json_path root' (parents @ [l]) = Some v"
proof (induction parents arbitrary: root root')
  case Nil
  then show ?case
    by (auto simp: json_get_def map_of_al_insert split: json.splits)
next
  case (Cons s ps)
  then obtain m c c' where "root = J_Object m" "map_of m s = Some c"
    "write_json_at ps l v c = Inr c'" "root' = J_Object (al_insert s c' m)"
    by (auto split: json.splits option.splits elim!: try_resE simp: res_simps)
  then show ?case using Cons.IH by (simp add: json_get_def map_of_al_insert)
qed

lemma read_write_json_path:
  assumes "write_json_path root path v = Inr root'"
  shows "read_json_path root' path = Some v"
proof -
  have "path \<noteq> []" and "write_json_at (butlast path) (last path) v root = Inr root'"
    using assms by (auto simp: write_json_path_def split: if_splits)
  then show ?thesis using read_write_at by fastforce
qed

text \<open>A path that leaves the written one at some segment is not changed by the write.\<close>

fun path_diverges :: "string list \<Rightarrow> string list \<Rightarrow> bool" where
  "path_diverges (a # as) (b # bs) = (a \<noteq> b \<or> path_diverges as bs)"
| "path_diverges _ _ = False"

lemma read_write_at_other:
  "write_json_at parents l v root = Inr root' \<Longrightarrow> path_diverges (parents @ [l]) q
   \<Longrightarrow> read_json_path root' q = read_json_path root q"
proof (induction parents arbitrary: root root' q)
  case Nil
  then show ?case
    by (cases q) (auto simp: json_get_def map_of_al_insert split: json.splits)
next
  case (Cons s ps)
  then obtain m c c' where eq: "root = J_Object m" "map_of m s = Some c"
    "write_json_at ps l v c = Inr c'" "root' = J_Object (al_insert s c' m)"
    by (auto split: json.splits option.splits elim!: try_resE simp: res_simps)
  then show ?case
    using Cons.IH [of c c'] Cons.prems(2)
    by (cases q) (auto simp: json_get_def map_of_al_insert)
qed

lemma read_write_json_path_other:
  assumes "write_json_path root path v = Inr root'" "path_diverges path q"
  shows "read_json_path root' q = read_json_path root q"
proof -
  have "path \<noteq> []" and "write_json_at (butlast path) (last path) v root = Inr root'"
    using assms(1) by (auto simp: write_json_path_def split: if_splits)
  then show ?thesis using read_write_at_other assms(2) by fastforce
qed

end
