(* ===== verification/Tick.thy ===== *)
theory Tick
  imports Scopes Bindings
begin

text \<open>
  The instruction interpreter of the kernel, \<open>apply_tick\<close> in \<open>bpmn-lite-kernel/src/lib.rs\<close>:
  one definition per instruction arm, composed by \<open>exec_instr\<close> and iterated by \<open>tick_loop\<close> up to
  the verified step limit. A step either goes on with the next instruction or ends the tick
  with a finished transition; an early \<open>return Err\<close> is the left injection.
\<close>

section \<open>Helpers shared with the command handlers\<close>

definition blake3_hash :: "ext \<Rightarrow> bytes \<Rightarrow> hash32" where
  "blake3_hash x bs = content_hash x bs"

fun is_truthy :: "val \<Rightarrow> bool" where
  "is_truthy (V_Bool b) = b"
| "is_truthy (V_I64 i) = (i \<noteq> 0)"
| "is_truthy (V_Str s) = (s \<noteq> 0)"
| "is_truthy (V_Ref r) = (r \<noteq> 0)"
| "is_truthy (V_Array items) = (items \<noteq> [])"

definition mi_collection_len :: "process_instance \<Rightarrow> flag_key \<Rightarrow> int" where
  "mi_collection_len inst flag =
     (case bt_get (pi_flags inst) flag of Some (V_Array items) \<Rightarrow> int (length items) | _ \<Rightarrow> 0)"

definition pc_label :: "addr \<Rightarrow> string" where
  "pc_label a = ''pc_'' @ dec_u a"

text \<open>\<open>debug_map().get(&pc).cloned().unwrap_or_else(|| format!("pc_{pc}"))\<close>.\<close>

definition node_label :: "executable_workflow \<Rightarrow> addr \<Rightarrow> string" where
  "node_label w a = unwrap_or (bt_get (md_debug_map (wf_metadata w)) a) (pc_label a)"

definition bump_pc :: "fiber \<Rightarrow> fiber" where
  "bump_pc f = f\<lparr>fb_pc := sat_add (fb_pc f) 1\<rparr>"

definition apply_flag :: "string \<times> val \<Rightarrow> process_instance \<Rightarrow> transition_error + process_instance" where
  "apply_flag = (\<lambda>(name, v) inst.
     try_res (ok_or (Option.bind (strip_prefix ''flag_'' name) parse_u32)
                (InvalidCommand ''orch_flags key must be flag_<u32>''))
       (\<lambda>key. Inr (inst\<lparr>pi_flags := bt_insert key v (pi_flags inst)\<rparr>)))"

definition apply_completion ::
  "ext \<Rightarrow> job_completion \<Rightarrow> process_instance \<Rightarrow> transition_error + process_instance" where
  "apply_completion x completion inst =
     fold_res apply_flag (bt_entries (jc_orch_flags completion))
       (inst\<lparr>pi_domain_payload := jc_domain_payload completion,
         pi_domain_payload_hash := blake3_hash x (jc_domain_payload completion)\<rparr>)"

definition fail_contract ::
  "ext \<Rightarrow> process_instance \<Rightarrow> fiber \<Rightarrow> changes \<Rightarrow> deterministic_context \<Rightarrow> string
     \<Rightarrow> transition_error + transition" where
  "fail_contract x inst f ch cx message =
     (let incident_id = derived_id x cx 0 in
      try_res (logical_timestamp cx) (\<lambda>created_at.
      (let inc = \<lparr>inc_incident_id = incident_id, inc_process_instance_id = pi_instance_id inst,
                  inc_fiber_id = fb_id f, inc_service_task_id = pc_label (fb_pc f),
                  inc_bytecode_addr = fb_pc f, inc_error_class = ContractViolation,
                  inc_message = message, inc_retry_count = 0, inc_created_at = created_at,
                  inc_resolved_at = None, inc_resolution = None\<rparr>;
           f = f\<lparr>fb_wait := W_Incident incident_id\<rparr>;
           inst = inst\<lparr>pi_state := PS_Incidented incident_id\<rparr>;
           ch = push_upsert f (push_event (Ev_IncidentCreated incident_id (pc_label (fb_pc f)) None)
                  (push_incident inc ch))
       in Inr (finish ch inst))))"

definition message_name_matches :: "(u32, string) btree \<Rightarrow> string \<Rightarrow> u32 \<Rightarrow> bool" where
  "message_name_matches names requested waiting =
     (case bt_get names waiting of
        Some name \<Rightarrow> name = requested
      | None \<Rightarrow> requested = dec_u waiting)"

definition resolve_correlation_key_at ::
  "ext \<Rightarrow> executable_workflow \<Rightarrow> process_instance \<Rightarrow> addr \<Rightarrow> transition_error + string" where
  "resolve_correlation_key_at x w inst a =
     try_res (ok_or (bt_get (md_v2_corr_sources (wf_metadata w)) a)
                (InvalidCommand ''message word has no correlation-key source''))
       (\<lambda>source. map_err (\<lambda>_. InvalidCommand ''correlation key did not resolve to a scalar'')
          (resolve_correlation_key x inst source))"

section \<open>The interpreter state\<close>

record tick_state =
  tk_fiber :: fiber
  tk_instance :: process_instance
  tk_changes :: changes
  tk_ordinal :: u32
  tk_race_arms :: "v2_race_arm list"

datatype step_result = Next tick_state | Done transition

definition goto :: "tick_state \<Rightarrow> addr \<Rightarrow> transition_error + step_result" where
  "goto ts a = Inr (Next (ts\<lparr>tk_fiber := (tk_fiber ts)\<lparr>fb_pc := a\<rparr>\<rparr>))"

definition advance :: "tick_state \<Rightarrow> transition_error + step_result" where
  "advance ts = Inr (Next (ts\<lparr>tk_fiber := bump_pc (tk_fiber ts)\<rparr>))"

definition park :: "tick_state \<Rightarrow> fiber \<Rightarrow> transition_error + step_result" where
  "park ts f = Inr (Done (finish (push_upsert f (tk_changes ts)) (tk_instance ts)))"

definition upd_changes :: "(changes \<Rightarrow> changes) \<Rightarrow> tick_state \<Rightarrow> tick_state" where
  "upd_changes g ts = ts\<lparr>tk_changes := g (tk_changes ts)\<rparr>"

definition push_value :: "val \<Rightarrow> tick_state \<Rightarrow> tick_state" where
  "push_value v ts = ts\<lparr>tk_fiber := (tk_fiber ts)\<lparr>fb_stack := fb_stack (tk_fiber ts) @ [v]\<rparr>\<rparr>"

text \<open>\<open>fiber.stack.pop().ok_or(StackUnderflow(word))?\<close>.\<close>

definition pop_value :: "string \<Rightarrow> tick_state \<Rightarrow> transition_error + val \<times> tick_state" where
  "pop_value word ts =
     (case vec_pop (fb_stack (tk_fiber ts)) of
        Some (v, rest) \<Rightarrow> Inr (v, ts\<lparr>tk_fiber := (tk_fiber ts)\<lparr>fb_stack := rest\<rparr>\<rparr>)
      | None \<Rightarrow> Inl (StackUnderflow word))"

text \<open>\<open>fiber.control_stack.pop()\<close> with its \<open>ControlStackDelta::Pop\<close>.\<close>

definition pop_handle :: "string \<Rightarrow> tick_state \<Rightarrow> transition_error + record_id \<times> tick_state" where
  "pop_handle word ts =
     (case vec_pop (fb_control_stack (tk_fiber ts)) of
        Some (h, rest) \<Rightarrow>
          Inr (h, upd_changes (push_delta (CS_Pop (fb_id (tk_fiber ts)) h))
                    (ts\<lparr>tk_fiber := (tk_fiber ts)\<lparr>fb_control_stack := rest\<rparr>\<rparr>))
      | None \<Rightarrow> Inl (StackUnderflow word))"

definition next_id :: "ext \<Rightarrow> deterministic_context \<Rightarrow> tick_state \<Rightarrow> uuid \<times> tick_state" where
  "next_id x cx ts = (derived_id x cx (tk_ordinal ts), ts\<lparr>tk_ordinal := sat_add (tk_ordinal ts) 1\<rparr>)"

text \<open>Opening a record with the running fiber as its first member.\<close>

definition open_record :: "concurrency_record \<Rightarrow> tick_state \<Rightarrow> tick_state" where
  "open_record r ts =
     (let f = tk_fiber ts;
          r = r\<lparr>rec_members := bs_insert (fb_id f) (rec_members r)\<rparr>
      in upd_changes (\<lambda>ch. push_delta (CS_Push (fb_id f) (rec_id r)) (push_mutation (CM_Insert r) ch))
           (ts\<lparr>tk_fiber := f\<lparr>fb_control_stack := fb_control_stack f @ [rec_id r]\<rparr>\<rparr>))"

section \<open>Control flow, stack and flags\<close>

definition exec_branch :: "bool \<Rightarrow> addr \<Rightarrow> tick_state \<Rightarrow> transition_error + step_result" where
  "exec_branch is_br_if target ts =
     try_res (pop_value ''branch'' ts) (\<lambda>(v, ts).
       if is_truthy v = is_br_if then goto ts target else advance ts)"

definition exec_pop :: "tick_state \<Rightarrow> transition_error + step_result" where
  "exec_pop ts = try_res (pop_value ''Pop'' ts) (\<lambda>(_, ts). advance ts)"

definition exec_load_flag :: "flag_key \<Rightarrow> tick_state \<Rightarrow> transition_error + step_result" where
  "exec_load_flag key ts =
     advance (push_value (unwrap_or (bt_get (pi_flags (tk_instance ts)) key) (V_Bool False)) ts)"

definition exec_load_placeholder_match ::
  "string \<Rightarrow> string \<Rightarrow> tick_state \<Rightarrow> transition_error + step_result" where
  "exec_load_placeholder_match placeholder expected ts =
     advance (push_value (V_Bool (placeholder_matches (tk_instance ts) placeholder expected)) ts)"

definition exec_route_zero_match ::
  "ext \<Rightarrow> executable_workflow \<Rightarrow> deterministic_context \<Rightarrow> tick_state \<Rightarrow> transition_error + step_result" where
  "exec_route_zero_match x w cx ts =
     try_res (fail_contract x (tk_instance ts) (tk_fiber ts) (tk_changes ts) cx
       (''inclusive gateway at '' @ node_label w (fb_pc (tk_fiber ts))
         @ '' matched none of its declared branches and has no default target''))
       (\<lambda>t. Inr (Done t))"

definition exec_mi_index_live :: "flag_key \<Rightarrow> u32 \<Rightarrow> tick_state \<Rightarrow> transition_error + step_result" where
  "exec_mi_index_live flag index ts =
     advance (push_value (V_Bool (uint index < mi_collection_len (tk_instance ts) flag)) ts)"

definition exec_mi_load_element :: "flag_key \<Rightarrow> u32 \<Rightarrow> tick_state \<Rightarrow> transition_error + step_result" where
  "exec_mi_load_element flag index ts =
     try_res (ok_or (case bt_get (pi_flags (tk_instance ts)) flag of
                       Some (V_Array items) \<Rightarrow> vec_get items (unat index)
                     | _ \<Rightarrow> None)
                (MultiInstanceElementUnavailable flag index))
       (\<lambda>element. advance (push_value element ts))"

definition exec_mi_arity_check :: "flag_key \<Rightarrow> u32 \<Rightarrow> tick_state \<Rightarrow> transition_error + step_result" where
  "exec_mi_arity_check flag mx ts =
     (let len = mi_collection_len (tk_instance ts) flag in
      if len > uint mx
      then Inl (ResourceLimitExceeded ''multi-instance collection length'' (nat len) (ucast mx))
      else advance ts)"

definition exec_store_flag :: "flag_key \<Rightarrow> tick_state \<Rightarrow> transition_error + step_result" where
  "exec_store_flag key ts =
     try_res (pop_value ''StoreFlag'' ts) (\<lambda>(v, ts).
       advance (upd_changes (push_event (Ev_FlagSet key v))
         (ts\<lparr>tk_instance := (tk_instance ts)\<lparr>pi_flags :=
            bt_insert key v (pi_flags (tk_instance ts))\<rparr>\<rparr>)))"

definition exec_inc_counter :: "u32 \<Rightarrow> tick_state \<Rightarrow> transition_error + step_result" where
  "exec_inc_counter counter_id ts =
     (let inst = tk_instance ts;
          count = sat_add (unwrap_or (bt_get (pi_counters inst) counter_id) 0) 1;
          f = tk_fiber ts;
          f = f\<lparr>fb_loop_epoch := sat_add (fb_loop_epoch f) 1\<rparr>
      in advance (upd_changes (push_event (Ev_CounterIncremented counter_id count (fb_loop_epoch f)))
           (ts\<lparr>tk_fiber := f,
              tk_instance := inst\<lparr>pi_counters := bt_insert counter_id count (pi_counters inst)\<rparr>\<rparr>)))"

definition exec_br_counter_lt :: "u32 \<Rightarrow> u32 \<Rightarrow> addr \<Rightarrow> tick_state \<Rightarrow> transition_error + step_result" where
  "exec_br_counter_lt counter_id limit target ts =
     (if unwrap_or (bt_get (pi_counters (tk_instance ts)) counter_id) 0 < limit
      then goto ts target else advance ts)"

definition exec_route_payload ::
  "ext \<Rightarrow> executable_workflow \<Rightarrow> deterministic_context \<Rightarrow> payload_route_branch list \<Rightarrow> addr option
     \<Rightarrow> tick_state \<Rightarrow> transition_error + step_result" where
  "exec_route_payload x w cx branches default_target ts =
     (let target = find_map (\<lambda>b.
            if placeholder_matches (tk_instance ts) (rb_placeholder b) (rb_expected_value b)
            then Some (rb_target b) else None) branches
      in case or_else target default_target of
           Some next_pc \<Rightarrow> goto ts next_pc
         | None \<Rightarrow>
             try_res (fail_contract x (tk_instance ts) (tk_fiber ts) (tk_changes ts) cx
               (''exclusive route at '' @ node_label w (fb_pc (tk_fiber ts))
                 @ '' matched none of its declared branches and has no default target''))
               (\<lambda>t. Inr (Done t)))"

section \<open>Jobs and effects\<close>

definition job_key_of :: "ext \<Rightarrow> uuid \<Rightarrow> string \<Rightarrow> addr \<Rightarrow> u32 \<Rightarrow> string" where
  "job_key_of x instance_id service_task_id a loop_epoch =
     x_uuid_string x instance_id @ '':'' @ service_task_id @ '':'' @ dec_u a @ '':'' @ dec_u loop_epoch"

definition orch_flags_of :: "process_instance \<Rightarrow> (string, val) btree" where
  "orch_flags_of inst = bt_of_list (map (\<lambda>(k, v). (''flag_'' @ dec_u k, v)) (bt_entries (pi_flags inst)))"

definition job_activation_of :: "process_instance \<Rightarrow> string \<Rightarrow> string \<Rightarrow> string \<Rightarrow> job_activation" where
  "job_activation_of inst job_key task_type service_task_id =
     \<lparr>ja_job_key = job_key, ja_tenant_id = pi_tenant_id inst,
      ja_process_instance_id = pi_instance_id inst, ja_task_type = task_type,
      ja_service_task_id = service_task_id, ja_domain_payload = pi_domain_payload inst,
      ja_domain_payload_hash = pi_domain_payload_hash inst, ja_session_stack = pi_session_stack inst,
      ja_orch_flags = orch_flags_of inst, ja_retries_remaining = 3, ja_entry_id = pi_entry_id inst,
      ja_runbook_id = pi_runbook_id inst, ja_worker_id = [], ja_claim_token = [],
      ja_claim_expires_at = None, ja_attempt_count = 0, ja_failure_count = 0, ja_not_before = None\<rparr>"

definition park_on_job :: "string \<Rightarrow> string \<Rightarrow> string \<Rightarrow> tick_state \<Rightarrow> transition_error + step_result" where
  "park_on_job job_key task_type service_task_id ts =
     (let f = tk_fiber ts;
          ts = upd_changes (\<lambda>ch. push_event (Ev_JobActivated job_key task_type service_task_id (fb_pc f))
                 (push_enqueue (job_activation_of (tk_instance ts) job_key task_type service_task_id) ch)) ts
      in park ts (f\<lparr>fb_wait := W_Job job_key\<rparr>))"

definition exec_native ::
  "ext \<Rightarrow> executable_workflow \<Rightarrow> snapshot \<Rightarrow> u32 \<Rightarrow> u16 \<Rightarrow> tick_state \<Rightarrow> transition_error + step_result" where
  "exec_native x w s task_type retc ts =
     try_res (ok_or (vec_get (md_task_manifest (wf_metadata w)) (unat task_type))
                (MissingMetadata ''task manifest'')) (\<lambda>task.
     (let f = tk_fiber ts;
          service_task_id = node_label w (fb_pc f);
          job_key = job_key_of x (pi_instance_id (tk_instance ts)) service_task_id (fb_pc f) (fb_loop_epoch f)
      in case bt_get (sn_dedupe s) job_key of
           Some completion \<Rightarrow>
             try_res (apply_completion x completion (tk_instance ts)) (\<lambda>inst.
               advance (ts\<lparr>tk_instance := inst,
                 tk_fiber := f\<lparr>fb_stack := fb_stack f @ replicate (unat retc) (V_Bool True)\<rparr>\<rparr>))
         | None \<Rightarrow> park_on_job job_key task service_task_id ts))"

definition exec_dsl_task ::
  "ext \<Rightarrow> executable_workflow \<Rightarrow> snapshot \<Rightarrow> u32 \<Rightarrow> string option \<Rightarrow> tick_state
     \<Rightarrow> transition_error + step_result" where
  "exec_dsl_task x w s task_type produces_placeholder ts =
     try_res (ok_or (vec_get (md_task_manifest (wf_metadata w)) (unat task_type))
                (MissingMetadata ''task manifest'')) (\<lambda>task.
     (let f = tk_fiber ts;
          service_task_id = node_label w (fb_pc f);
          job_key = job_key_of x (pi_instance_id (tk_instance ts)) service_task_id (fb_pc f) (fb_loop_epoch f)
      in case bt_get (sn_dedupe s) job_key of
           Some completion \<Rightarrow>
             try_res (apply_completion x completion (tk_instance ts)) (\<lambda>inst.
             try_res (case produces_placeholder of
                        Some placeholder \<Rightarrow>
                          map_err InvalidCommand (bind_placeholder_from_payload x inst placeholder)
                      | None \<Rightarrow> Inr inst) (\<lambda>inst.
               advance (ts\<lparr>tk_instance := inst\<rparr>)))
         | None \<Rightarrow> park_on_job job_key task service_task_id ts))"

text \<open>The lookup, identity check and input encoding that \<open>ExecFfi\<close>, \<open>V2AwaitEffect\<close> and
  \<open>V2ArmEffect\<close> share, and the pushes they make for the invocation.\<close>

definition ffi_input_at ::
  "ext \<Rightarrow> (addr, ffi_task_decl) btree \<Rightarrow> string \<Rightarrow> string \<Rightarrow> process_instance \<Rightarrow> addr \<Rightarrow> hash32
     \<Rightarrow> transition_error + bytes" where
  "ffi_input_at x decls missing_decl wrong_template inst a template_id =
     try_res (ok_or (bt_get decls a) (MissingMetadata missing_decl)) (\<lambda>declaration.
     if fd_template_id declaration \<noteq> template_id then Inl (MissingMetadata wrong_template)
     else map_err (\<lambda>_. InvalidCommand ''FFI input contract violation'')
       (encode_ffi_inputs x inst declaration))"

definition push_invocation ::
  "ext \<Rightarrow> executable_workflow \<Rightarrow> hash32 \<Rightarrow> effect_id \<Rightarrow> bytes \<Rightarrow> tick_state \<Rightarrow> tick_state" where
  "push_invocation x w template_id effect_id input ts =
     (let f = tk_fiber ts in
      upd_changes (\<lambda>ch.
        push_event (Ev_FfiInvocationPending effect_id (hex_bytes template_id) (node_label w (fb_pc f))
                      (fb_pc f) [])
          (push_effect (DE_Invoke effect_id (fb_id f) (fb_pc f) (hex_bytes template_id) template_id input
                          (x_uuid_string x effect_id)) ch)) ts)"

definition instruction_effect_id :: "ext \<Rightarrow> tick_state \<Rightarrow> effect_id" where
  "instruction_effect_id x ts =
     for_instruction x (pi_instance_id (tk_instance ts)) (fb_id (tk_fiber ts)) (fb_pc (tk_fiber ts))"

definition exec_ffi ::
  "ext \<Rightarrow> executable_workflow \<Rightarrow> hash32 \<Rightarrow> tick_state \<Rightarrow> transition_error + step_result" where
  "exec_ffi x w template_id ts =
     try_res (ffi_input_at x (md_ffi_task_decls (wf_metadata w)) ''FFI task declaration''
                ''FFI template identity'' (tk_instance ts) (fb_pc (tk_fiber ts)) template_id) (\<lambda>input.
     (let effect_id = instruction_effect_id x ts in
      park (push_invocation x w template_id effect_id input ts)
        ((tk_fiber ts)\<lparr>fb_wait := W_Effect effect_id\<rparr>)))"

definition exec_await_effect ::
  "ext \<Rightarrow> executable_workflow \<Rightarrow> hash32 \<Rightarrow> tick_state \<Rightarrow> transition_error + step_result" where
  "exec_await_effect x w template_id ts =
     try_res (ffi_input_at x (md_v2_ffi_task_decls (wf_metadata w)) ''v2 FFI effect declaration''
                ''v2 FFI effect template identity'' (tk_instance ts) (fb_pc (tk_fiber ts)) template_id) (\<lambda>input.
     (let effect_id = instruction_effect_id x ts in
      park (push_invocation x w template_id effect_id input ts)
        ((tk_fiber ts)\<lparr>fb_wait := W_Effect effect_id\<rparr>)))"

section \<open>Messages and timers\<close>

definition PUBLISHED_MESSAGE_TTL_MS :: u64 where
  "PUBLISHED_MESSAGE_TTL_MS = 300000"

definition exec_publish_message ::
  "ext \<Rightarrow> executable_workflow \<Rightarrow> deterministic_context \<Rightarrow> u32 \<Rightarrow> tick_state
     \<Rightarrow> transition_error + step_result" where
  "exec_publish_message x w cx name ts =
     (let inst = tk_instance ts; f = tk_fiber ts in
      try_res (resolve_correlation_key_at x w inst (fb_pc f)) (\<lambda>correlation_key.
      (let message_name = unwrap_or (bt_get (md_message_name_map (wf_metadata w)) name) (dec_u name);
           msg_id = ''publish:'' @ x_uuid_string x (pi_instance_id inst) @ '':''
                      @ x_uuid_string x (fb_id f) @ '':'' @ dec_u (fb_pc f)
       in
       try_res (ok_or (checked_add (cx_logical_time cx) PUBLISHED_MESSAGE_TTL_MS)
                  (NumericOverflow ''published message expiry'')) (\<lambda>expiry.
       try_res (ok_or (i64_try_from expiry) (NumericOverflow ''published message expiry'')) (\<lambda>expires_at.
       try_res (logical_timestamp cx) (\<lambda>received_at.
       advance (upd_changes (\<lambda>ch.
         push_event (Ev_MessageBuffered message_name correlation_key msg_id expires_at)
           (push_buffered (BM_Insert
              \<lparr>bm_tenant_id = pi_tenant_id inst, bm_message_name = message_name,
               bm_correlation_key = correlation_key, bm_msg_id = msg_id, bm_payload = [],
               bm_payload_hash = None, bm_process_instance_id = Some (pi_instance_id inst),
               bm_received_at = received_at, bm_expires_at = expires_at\<rparr>) ch)) ts)))))))"

definition park_on_timer :: "ext \<Rightarrow> u64 \<Rightarrow> tick_state \<Rightarrow> transition_error + step_result" where
  "park_on_timer x deadline_ms ts =
     (let f = tk_fiber ts;
          ts' = upd_changes (\<lambda>ch.
            push_effect (DE_ScheduleTimer (instruction_effect_id x ts) (fb_id f) deadline_ms TK_Wait None)
              (push_event (Ev_WaitTimerSet (fb_id f) deadline_ms) ch)) ts
      in park ts' ((bump_pc f)\<lparr>fb_wait := W_Timer deadline_ms\<rparr>))"

definition exec_wait_for ::
  "ext \<Rightarrow> deterministic_context \<Rightarrow> tick_state \<Rightarrow> transition_error + step_result" where
  "exec_wait_for x cx ts =
     try_res (pop_value ''V2WaitFor'' ts) (\<lambda>(v, ts).
     case v of
       V_I64 duration \<Rightarrow>
         try_res (ok_or (checked_add (cx_logical_time cx) (max0_u64 duration))
                    (NumericOverflow ''V2WaitFor deadline'')) (\<lambda>deadline_ms.
         park_on_timer x deadline_ms ts)
     | _ \<Rightarrow> Inl (InvalidCommand ''V2WaitFor: duration must be I64''))"

definition exec_wait_until :: "ext \<Rightarrow> tick_state \<Rightarrow> transition_error + step_result" where
  "exec_wait_until x ts =
     try_res (pop_value ''V2WaitUntil'' ts) (\<lambda>(v, ts).
     case v of
       V_I64 deadline \<Rightarrow> park_on_timer x (max0_u64 deadline) ts
     | _ \<Rightarrow> Inl (InvalidCommand ''V2WaitUntil: deadline must be I64''))"

definition buffered_match ::
  "executable_workflow \<Rightarrow> snapshot \<Rightarrow> u32 \<Rightarrow> string \<Rightarrow> claimed_buffered_message option" where
  "buffered_match w s name corr_key =
     find (\<lambda>b. message_name_matches (md_message_name_map (wf_metadata w))
                 (bm_message_name (cm_message b)) name
               \<and> bm_correlation_key (cm_message b) = corr_key)
       (sn_buffered_messages s)"

definition consume_buffered ::
  "u32 \<Rightarrow> string \<Rightarrow> claimed_buffered_message \<Rightarrow> tick_state \<Rightarrow> transition_error + step_result" where
  "consume_buffered name corr_key b ts =
     (let m = cm_message b; f = tk_fiber ts in
      try_res (case bm_payload_hash m of
           Some hash \<Rightarrow>
             try_res (ok_or (from_utf8 (bm_payload m))
                        (InvalidCommand ''buffered message payload is not UTF-8'')) (\<lambda>payload.
             Inr ((tk_instance ts)\<lparr>pi_domain_payload := payload, pi_domain_payload_hash := hash\<rparr>))
         | None \<Rightarrow> Inr (tk_instance ts)) (\<lambda>inst.
      advance (upd_changes (\<lambda>ch.
          push_event (Ev_MsgReceived name corr_key None)
            (push_event (Ev_BufferedMessageConsumed (bm_message_name m) (bm_correlation_key m)
                           (bm_msg_id m) (fb_id f))
              (push_buffered (BM_Consume b) ch)))
        (ts\<lparr>tk_instance := inst\<rparr>))))"

definition exec_wait_msg ::
  "ext \<Rightarrow> executable_workflow \<Rightarrow> snapshot \<Rightarrow> u32 \<Rightarrow> tick_state \<Rightarrow> transition_error + step_result" where
  "exec_wait_msg x w s name ts =
     (let f = tk_fiber ts in
      try_res (resolve_correlation_key_at x w (tk_instance ts) (fb_pc f)) (\<lambda>corr_key.
      case buffered_match w s name corr_key of
        Some b \<Rightarrow> consume_buffered name corr_key b ts
      | None \<Rightarrow>
          park (upd_changes (push_event (Ev_WaitMsgSubscribed (fb_id f) name corr_key)) ts)
            ((bump_pc f)\<lparr>fb_wait := W_Msg 0 name corr_key\<rparr>)))"

section \<open>Ending\<close>

definition full_cleanup :: terminal_cleanup where
  "full_cleanup = \<lparr>tc_delete_all_fibers = True, tc_delete_all_joins = True, tc_cancel_jobs = True\<rparr>"

definition exec_end ::
  "snapshot \<Rightarrow> deterministic_context \<Rightarrow> tick_state \<Rightarrow> transition_error + step_result" where
  "exec_end s cx ts =
     (let ch = push_delete (fb_id (tk_fiber ts)) (tk_changes ts);
          live_after = apply_fiber_deltas (sn_fibers s) (ch_fibers_upsert ch) (ch_fibers_delete ch) False
      in if bt_is_empty live_after then
           try_res (logical_timestamp cx) (\<lambda>at.
             Inr (Done (finish ((push_event (Ev_Completed at) ch)\<lparr>ch_cleanup := Some full_cleanup\<rparr>)
                    ((tk_instance ts)\<lparr>pi_state := PS_Completed at\<rparr>))))
         else Inr (Done (finish ch (tk_instance ts))))"

definition exec_end_terminate ::
  "snapshot \<Rightarrow> deterministic_context \<Rightarrow> tick_state \<Rightarrow> transition_error + step_result" where
  "exec_end_terminate s cx ts =
     try_res (logical_timestamp cx) (\<lambda>at.
     (let ch = (push_event (Ev_Terminated at (fb_id (tk_fiber ts))) (tk_changes ts))
                 \<lparr>ch_cleanup := Some full_cleanup\<rparr>;
          ch = fold (\<lambda>i. push_mutation (CM_Retire i)) (armed_record_ids_in_transition s ch) ch
      in Inr (Done (finish ch ((tk_instance ts)\<lparr>pi_state := PS_Terminated at\<rparr>)))))"

definition exec_fail ::
  "ext \<Rightarrow> deterministic_context \<Rightarrow> u32 \<Rightarrow> tick_state \<Rightarrow> transition_error + step_result" where
  "exec_fail x cx code ts =
     try_res (fail_contract x (tk_instance ts) (tk_fiber ts) (tk_changes ts) cx
       (''process failed with code '' @ dec_u code)) (\<lambda>t. Inr (Done t))"

section \<open>Guards\<close>

text \<open>\<open>V2Guard\<close> and \<open>V2GuardN\<close> open the same record but for the interrupting flag.\<close>

definition guard_record :: "bool \<Rightarrow> record_id \<Rightarrow> addr \<Rightarrow> addr \<Rightarrow> concurrency_record" where
  "guard_record interrupting i handler opened_at =
     (record_new i (RK_Guard interrupting))\<lparr>rec_handler := Some handler, rec_opened_at := Some opened_at\<rparr>"

definition exec_guard ::
  "ext \<Rightarrow> deterministic_context \<Rightarrow> addr \<Rightarrow> tick_state \<Rightarrow> transition_error + step_result" where
  "exec_guard x cx handler ts =
     (let (record_id, ts) = next_id x cx ts;
          f = tk_fiber ts;
          ts = open_record (guard_record True record_id handler (fb_pc f)) ts
      in advance (upd_changes (push_event (Ev_V2GuardOpened record_id (fb_id f) handler)) ts))"

definition exec_guard_n ::
  "ext \<Rightarrow> deterministic_context \<Rightarrow> addr \<Rightarrow> tick_state \<Rightarrow> transition_error + step_result" where
  "exec_guard_n x cx handler ts =
     (let (record_id, ts) = next_id x cx ts;
          f = tk_fiber ts;
          ts = open_record (guard_record False record_id handler (fb_pc f)) ts
      in advance (upd_changes (push_event (Ev_V2GuardOpened record_id (fb_id f) handler)) ts))"

definition guard_r_record :: "ext \<Rightarrow> process_instance \<Rightarrow> record_id \<Rightarrow> addr \<Rightarrow> concurrency_record" where
  "guard_r_record x inst i opened_at =
     (record_new i (RK_Guard True))
       \<lparr>rec_handler := None,
        rec_rollback_domain_payload := Some (pi_domain_payload inst),
        rec_rollback_domain_payload_hash := Some (pi_domain_payload_hash inst),
        rec_rollback_flags := Some (pi_flags inst),
        rec_rollback_join_expected := Some (pi_join_expected inst),
        rec_rollback_session_stack := Some (x_session_print x (pi_session_stack inst)),
        rec_opened_at := Some opened_at\<rparr>"

definition exec_guard_r ::
  "ext \<Rightarrow> deterministic_context \<Rightarrow> tick_state \<Rightarrow> transition_error + step_result" where
  "exec_guard_r x cx ts =
     (let (record_id, ts) = next_id x cx ts;
          f = tk_fiber ts;
          ts = open_record (guard_r_record x (tk_instance ts) record_id (fb_pc f)) ts
      in advance (upd_changes (push_event (Ev_V2GuardROpened record_id (fb_id f))) ts))"

text \<open>\<open>V2GuardEnd\<close>, \<open>V2GuardNEnd\<close> and \<open>V2GuardREnd\<close> differ in the name of the underflow only.\<close>

definition exec_guard_close :: "string \<Rightarrow> tick_state \<Rightarrow> transition_error + step_result" where
  "exec_guard_close word ts =
     try_res (pop_handle word ts) (\<lambda>(handle, ts).
       advance (upd_changes (\<lambda>ch.
         push_event (Ev_V2GuardRetired handle (fb_id (tk_fiber ts)))
           (push_mutation (CM_Retire handle) ch)) ts))"

definition exec_guard_end :: "tick_state \<Rightarrow> transition_error + step_result" where
  "exec_guard_end ts = exec_guard_close ''V2GuardEnd'' ts"

definition exec_guard_n_end :: "tick_state \<Rightarrow> transition_error + step_result" where
  "exec_guard_n_end ts = exec_guard_close ''V2GuardNEnd'' ts"

definition exec_guard_r_end :: "tick_state \<Rightarrow> transition_error + step_result" where
  "exec_guard_r_end ts = exec_guard_close ''V2GuardREnd'' ts"

definition exec_guard_arm_timer ::
  "ext \<Rightarrow> snapshot \<Rightarrow> deterministic_context \<Rightarrow> tick_state \<Rightarrow> transition_error + step_result" where
  "exec_guard_arm_timer x s cx ts =
     try_res (pop_value ''V2GuardArmTimer'' ts) (\<lambda>(v, ts).
     case v of
       V_I64 duration \<Rightarrow>
         try_res (ok_or (vec_last (fb_control_stack (tk_fiber ts)))
                    (InvalidCommand ''V2GuardArmTimer: no open guard'')) (\<lambda>record_id.
         (let f = tk_fiber ts;
              due_at = sat_add (cx_logical_time cx) (max0_u64 duration);
              repeat_spec =
                (case map_option rec_kind (fetch_record_in_transition s (tk_changes ts) record_id) of
                   Some (RK_Guard False) \<Rightarrow>
                     Some \<lparr>rs_interval_ms = max0_u64 duration, rs_remaining = 1, rs_fired_count = 0\<rparr>
                 | _ \<Rightarrow> None)
          in advance (upd_changes (push_effect (DE_ScheduleTimer (instruction_effect_id x ts) (fb_id f)
                due_at (TK_V2GuardTimer record_id) repeat_spec)) ts)))
     | _ \<Rightarrow> Inl (InvalidCommand ''V2GuardArmTimer: duration must be I64''))"

definition arm_error_route :: "string option \<times> addr \<Rightarrow> concurrency_record \<Rightarrow> concurrency_record" where
  "arm_error_route route r =
     (let routes = rec_error_routes r in
      if fst route = None then r\<lparr>rec_error_routes := routes @ [route]\<rparr>
      else
        (let insert_pos = unwrap_or (position (\<lambda>(code, _). code = None) routes) (length routes)
         in r\<lparr>rec_error_routes := take insert_pos routes @ [route] @ drop insert_pos routes\<rparr>))"

text \<open>The search over the staged mutations, newest first.\<close>

fun arm_newest_insert ::
  "record_id \<Rightarrow> string option \<times> addr \<Rightarrow> concurrency_mutation list
     \<Rightarrow> transition_error + concurrency_mutation list" where
  "arm_newest_insert record_id route [] =
     Inl (InvalidCommand ''V2GuardArmError: no open guard record found to arm'')"
| "arm_newest_insert record_id route (m # ms) =
     (case m of
        CM_Insert r \<Rightarrow>
          if rec_id r \<noteq> record_id
          then try_res (arm_newest_insert record_id route ms) (\<lambda>ms'. Inr (m # ms'))
          else if rec_state r \<noteq> Armed \<or> \<not> (case rec_kind r of RK_Guard _ \<Rightarrow> True | _ \<Rightarrow> False)
          then Inl (InvalidCommand ''V2GuardArmError: target record is not an armed guard'')
          else Inr (CM_Insert (arm_error_route route r) # ms)
      | _ \<Rightarrow> try_res (arm_newest_insert record_id route ms) (\<lambda>ms'. Inr (m # ms')))"

definition exec_guard_arm_error ::
  "string option \<Rightarrow> addr \<Rightarrow> tick_state \<Rightarrow> transition_error + step_result" where
  "exec_guard_arm_error error_code handler ts =
     try_res (ok_or (vec_last (fb_control_stack (tk_fiber ts)))
                (InvalidCommand ''V2GuardArmError: no open guard'')) (\<lambda>record_id.
     try_res (arm_newest_insert record_id (error_code, handler)
                (rev (ch_concurrency_mutations (tk_changes ts)))) (\<lambda>ms.
     advance (upd_changes (\<lambda>ch. ch\<lparr>ch_concurrency_mutations := rev ms\<rparr>) ts)))"

definition exec_guard_timer_cycle :: "u32 \<Rightarrow> tick_state \<Rightarrow> transition_error + step_result" where
  "exec_guard_timer_cycle max_fires ts =
     (case vec_pop (ch_effects (tk_changes ts)) of
        Some (DE_ScheduleTimer timer_id fiber_id due_at (TK_V2GuardTimer record_id) (Some current), rest) \<Rightarrow>
          advance (upd_changes (\<lambda>ch. ch\<lparr>ch_effects := rest @
            [DE_ScheduleTimer timer_id fiber_id due_at (TK_V2GuardTimer record_id)
               (Some (current\<lparr>rs_remaining := max_fires\<rparr>))]\<rparr>) ts)
      | _ \<Rightarrow> Inl (InvalidCommand ''V2GuardTimerCycle: no GUARD-TIMER> repeat spec to set''))"

section \<open>Fork and join\<close>

definition fork_spawn ::
  "ext \<Rightarrow> deterministic_context \<Rightarrow> fiber \<Rightarrow> record_id \<Rightarrow> addr
     \<Rightarrow> u32 \<times> uuid bset \<times> changes \<times> uuid list \<Rightarrow> u32 \<times> uuid bset \<times> changes \<times> uuid list" where
  "fork_spawn x cx f record_id target = (\<lambda>(ordinal, members, ch, ids).
     (let child_id = derived_id x cx ordinal;
          child = (fiber_new child_id target)\<lparr>fb_control_stack := fb_control_stack f @ [record_id]\<rparr>;
          ch = push_upsert child
                 (push_event (Ev_FiberSpawned child_id target (Some (fb_id f)))
                   (push_delta (CS_Push child_id record_id) ch))
      in (sat_add ordinal 1, bs_insert child_id members, ch, ids @ [child_id])))"

definition fork_ancestor_ops :: "fiber \<Rightarrow> uuid list \<Rightarrow> (record_id \<times> membership_op) list" where
  "fork_ancestor_ops f ids =
     concat (map (\<lambda>ancestor. (ancestor, Remove (fb_id f)) # map (\<lambda>c. (ancestor, Add c)) ids)
       (fb_control_stack f))"

definition exec_fork ::
  "ext \<Rightarrow> snapshot \<Rightarrow> deterministic_context \<Rightarrow> addr list \<Rightarrow> tick_state \<Rightarrow> transition_error + step_result" where
  "exec_fork x s cx targets ts =
     (let (record_id, ts) = next_id x cx ts;
          f = tk_fiber ts;
          (ordinal, members, ch, ids) =
            fold (fork_spawn x cx f record_id) targets
              (tk_ordinal ts, rec_members (record_new record_id RK_Barrier), tk_changes ts, []);
          r = (record_new record_id RK_Barrier)
                \<lparr>rec_counters := \<lparr>ct_arity = of_nat (length targets), ct_count = of_nat (length targets)\<rparr>,
                 rec_members := members\<rparr>;
          ch = push_event (Ev_V2Forked record_id (fb_id f) ids targets) ch;
          ch = push_mutation (CM_Insert r) ch;
          ch = v2_reconcile_ancestor_membership s (fork_ancestor_ops f ids) (bs_of_list []) ch
      in Inr (Done (finish (push_delete (fb_id f) ch) (tk_instance ts))))"

definition join_release ::
  "snapshot \<Rightarrow> record_id \<Rightarrow> concurrency_record \<Rightarrow> tick_state \<Rightarrow> transition_error + step_result" where
  "join_release s handle r ts =
     (let f = tk_fiber ts;
          cancelled = filter (\<lambda>m. m \<noteq> fb_id f) (bs_list (rec_members r));
          ch = fold push_delete cancelled (tk_changes ts);
          ch = v2_reconcile_ancestor_membership s (dead_fiber_ops s cancelled) (bs_of_list [handle]) ch;
          ch = push_mutation (CM_Retire handle) ch;
          ch = push_event (Ev_V2JoinReleased handle (fb_id f) (sat_add (fb_pc f) 1) cancelled) ch
      in advance (ts\<lparr>tk_changes := ch\<rparr>))"

definition join_arrive ::
  "record_id \<Rightarrow> concurrency_record \<Rightarrow> tick_state \<Rightarrow> transition_error + step_result" where
  "join_arrive handle r ts =
     (let f = tk_fiber ts in
      park (upd_changes (\<lambda>ch. push_event (Ev_V2JoinArrived handle (fb_id f))
                                (push_mutation (CM_Insert r) ch)) ts)
        (f\<lparr>fb_wait := W_V2Barrier handle\<rparr>))"

definition exec_join :: "snapshot \<Rightarrow> tick_state \<Rightarrow> transition_error + step_result" where
  "exec_join s ts =
     try_res (pop_handle ''V2Join'' ts) (\<lambda>(handle, ts).
     try_res (ok_or (fetch_record_in_transition s (tk_changes ts) handle)
                (InvalidCommand ''V2Join: unknown barrier handle'')) (\<lambda>r.
     (let count = sat_sub (ct_count (rec_counters r)) 1;
          r = r\<lparr>rec_counters := (rec_counters r)\<lparr>ct_count := count\<rparr>\<rparr>
      in if count = 0 then join_release s handle r ts else join_arrive handle r ts)))"

section \<open>Races\<close>

definition exec_race_open ::
  "ext \<Rightarrow> deterministic_context \<Rightarrow> u16 \<Rightarrow> tick_state \<Rightarrow> transition_error + step_result" where
  "exec_race_open x cx arm_count ts =
     (let (record_id, ts) = next_id x cx ts;
          f = tk_fiber ts;
          ts = open_record ((record_new record_id RK_Race)
                 \<lparr>rec_counters := \<lparr>ct_arity = ucast arm_count, ct_count = ucast arm_count\<rparr>\<rparr>) ts;
          ts = upd_changes (push_event (Ev_V2RaceOpened record_id (fb_id f) arm_count)) ts
      in advance (ts\<lparr>tk_race_arms := []\<rparr>))"

definition push_arm :: "v2_race_arm \<Rightarrow> tick_state \<Rightarrow> tick_state" where
  "push_arm a ts = ts\<lparr>tk_race_arms := tk_race_arms ts @ [a]\<rparr>"

definition exec_arm_timer ::
  "ext \<Rightarrow> deterministic_context \<Rightarrow> addr \<Rightarrow> tick_state \<Rightarrow> transition_error + step_result" where
  "exec_arm_timer x cx target ts =
     try_res (pop_value ''V2ArmTimer'' ts) (\<lambda>(v, ts).
     case v of
       V_I64 duration \<Rightarrow>
         try_res (ok_or (vec_last (fb_control_stack (tk_fiber ts)))
                    (InvalidCommand ''V2ArmTimer: no open race'')) (\<lambda>record_id.
         (let due_at = sat_add (cx_logical_time cx) (max0_u64 duration)
          in advance (push_arm (Arm_Timer target)
               (upd_changes (push_effect (DE_ScheduleTimer (instruction_effect_id x ts)
                  (fb_id (tk_fiber ts)) due_at (TK_V2Race record_id target) None)) ts))))
     | _ \<Rightarrow> Inl (InvalidCommand ''V2ArmTimer: duration must be I64''))"

definition exec_arm_msg ::
  "ext \<Rightarrow> executable_workflow \<Rightarrow> addr \<Rightarrow> u32 \<Rightarrow> tick_state \<Rightarrow> transition_error + step_result" where
  "exec_arm_msg x w target name ts =
     try_res (resolve_correlation_key_at x w (tk_instance ts) (fb_pc (tk_fiber ts))) (\<lambda>corr_key.
     advance (push_arm (Arm_Msg target name corr_key) ts))"

definition exec_arm_effect ::
  "ext \<Rightarrow> executable_workflow \<Rightarrow> addr \<Rightarrow> hash32 \<Rightarrow> tick_state \<Rightarrow> transition_error + step_result" where
  "exec_arm_effect x w target template_id ts =
     try_res (ffi_input_at x (md_v2_ffi_task_decls (wf_metadata w)) ''v2 FFI effect declaration''
                ''v2 FFI effect template identity'' (tk_instance ts) (fb_pc (tk_fiber ts)) template_id) (\<lambda>input.
     (let effect_id = instruction_effect_id x ts in
      advance (push_arm (Arm_Effect target effect_id template_id)
        (push_invocation x w template_id effect_id input ts))))"

definition exec_race_close :: "tick_state \<Rightarrow> transition_error + step_result" where
  "exec_race_close ts =
     try_res (pop_handle ''V2RaceClose'' ts) (\<lambda>(handle, ts).
     (let f = tk_fiber ts in
      park (upd_changes (push_event (Ev_V2RaceClosed handle (fb_id f)
              (of_nat (length (tk_race_arms ts))))) ts)
        (f\<lparr>fb_wait := W_V2Race handle (tk_race_arms ts)\<rparr>)))"

definition exec_cancel_scope ::
  "ext \<Rightarrow> snapshot \<Rightarrow> tick_state \<Rightarrow> transition_error + step_result" where
  "exec_cancel_scope x s ts =
     try_res (pop_handle ''V2CancelScope'' ts) (\<lambda>(handle, ts).
     try_res (v2_rollback_guard_scope x s handle (Continues (fb_id (tk_fiber ts))) (tk_changes ts))
       (\<lambda>(restored, ch).
          advance (ts\<lparr>tk_changes := ch, tk_instance := restore_instance restored (tk_instance ts)\<rparr>)))"

section \<open>The loop\<close>

fun exec_instr ::
  "ext \<Rightarrow> executable_workflow \<Rightarrow> snapshot \<Rightarrow> deterministic_context \<Rightarrow> instr \<Rightarrow> tick_state
     \<Rightarrow> transition_error + step_result" where
  "exec_instr x w s cx (I_Jump target) ts = goto ts target"
| "exec_instr x w s cx (I_BrIf target) ts = exec_branch True target ts"
| "exec_instr x w s cx (I_BrIfNot target) ts = exec_branch False target ts"
| "exec_instr x w s cx (I_PushBool b) ts = advance (push_value (V_Bool b) ts)"
| "exec_instr x w s cx (I_PushI64 i) ts = advance (push_value (V_I64 i) ts)"
| "exec_instr x w s cx I_Pop ts = exec_pop ts"
| "exec_instr x w s cx (I_LoadFlag key) ts = exec_load_flag key ts"
| "exec_instr x w s cx (I_V2LoadPlaceholderMatch p e) ts = exec_load_placeholder_match p e ts"
| "exec_instr x w s cx I_V2RouteZeroMatch ts = exec_route_zero_match x w cx ts"
| "exec_instr x w s cx (I_V2MiIndexLive flag index) ts = exec_mi_index_live flag index ts"
| "exec_instr x w s cx (I_V2MiLoadElement flag index) ts = exec_mi_load_element flag index ts"
| "exec_instr x w s cx (I_V2MiArityCheck flag mx) ts = exec_mi_arity_check flag mx ts"
| "exec_instr x w s cx (I_StoreFlag key) ts = exec_store_flag key ts"
| "exec_instr x w s cx (I_ExecNative task_type argc retc) ts = exec_native x w s task_type retc ts"
| "exec_instr x w s cx (I_ExecDslTask task_type static_args produces) ts =
     exec_dsl_task x w s task_type produces ts"
| "exec_instr x w s cx (I_RoutePayload branches dflt) ts = exec_route_payload x w cx branches dflt ts"
| "exec_instr x w s cx (I_ExecFfi template_id argc retc) ts = exec_ffi x w template_id ts"
| "exec_instr x w s cx (I_V2AwaitEffect template_id argc retc) ts = exec_await_effect x w template_id ts"
| "exec_instr x w s cx (I_PublishMessage name) ts = exec_publish_message x w cx name ts"
| "exec_instr x w s cx (I_CancelWait wait_id) ts = advance ts"
| "exec_instr x w s cx (I_IncCounter counter_id) ts = exec_inc_counter counter_id ts"
| "exec_instr x w s cx (I_BrCounterLt counter_id limit target) ts =
     exec_br_counter_lt counter_id limit target ts"
| "exec_instr x w s cx I_End ts = exec_end s cx ts"
| "exec_instr x w s cx I_EndTerminate ts = exec_end_terminate s cx ts"
| "exec_instr x w s cx (I_Fail code) ts = exec_fail x cx code ts"
| "exec_instr x w s cx (I_V2Guard handler) ts = exec_guard x cx handler ts"
| "exec_instr x w s cx I_V2GuardEnd ts = exec_guard_end ts"
| "exec_instr x w s cx (I_V2Fork targets pairing) ts = exec_fork x s cx targets ts"
| "exec_instr x w s cx (I_V2Join pairing) ts = exec_join s ts"
| "exec_instr x w s cx (I_V2RaceOpen arm_count) ts = exec_race_open x cx arm_count ts"
| "exec_instr x w s cx (I_V2ArmTimer target) ts = exec_arm_timer x cx target ts"
| "exec_instr x w s cx (I_V2ArmMsg target name) ts = exec_arm_msg x w target name ts"
| "exec_instr x w s cx (I_V2ArmEffect target template_id argc retc) ts =
     exec_arm_effect x w target template_id ts"
| "exec_instr x w s cx I_V2RaceClose ts = exec_race_close ts"
| "exec_instr x w s cx (I_V2GuardN handler) ts = exec_guard_n x cx handler ts"
| "exec_instr x w s cx I_V2GuardNEnd ts = exec_guard_n_end ts"
| "exec_instr x w s cx I_V2GuardR ts = exec_guard_r x cx ts"
| "exec_instr x w s cx I_V2GuardREnd ts = exec_guard_r_end ts"
| "exec_instr x w s cx I_V2GuardArmTimer ts = exec_guard_arm_timer x s cx ts"
| "exec_instr x w s cx (I_V2GuardArmError code handler) ts = exec_guard_arm_error code handler ts"
| "exec_instr x w s cx (I_V2GuardTimerCycle max_fires) ts = exec_guard_timer_cycle max_fires ts"
| "exec_instr x w s cx I_V2WaitFor ts = exec_wait_for x cx ts"
| "exec_instr x w s cx I_V2WaitUntil ts = exec_wait_until x ts"
| "exec_instr x w s cx (I_V2WaitMsg name) ts = exec_wait_msg x w s name ts"
| "exec_instr x w s cx I_V2CancelScope ts = exec_cancel_scope x s ts"

definition tick_step ::
  "ext \<Rightarrow> executable_workflow \<Rightarrow> snapshot \<Rightarrow> deterministic_context \<Rightarrow> tick_state
     \<Rightarrow> transition_error + step_result" where
  "tick_step x w s cx ts =
     try_res (ok_or (vec_get (wf_instructions w) (unat (fb_pc (tk_fiber ts))))
                (ProgramCounterOutOfBounds (fb_pc (tk_fiber ts))))
       (\<lambda>instruction. exec_instr x w s cx instruction ts)"

text \<open>\<open>for _ in 0..step_limit\<close>.\<close>

primrec tick_loop ::
  "nat \<Rightarrow> ext \<Rightarrow> executable_workflow \<Rightarrow> snapshot \<Rightarrow> deterministic_context \<Rightarrow> tick_state
     \<Rightarrow> transition_error + transition" where
  "tick_loop 0 x w s cx ts = Inl (StepLimitExceeded (max_steps (wf_limits w)))"
| "tick_loop (Suc n) x w s cx ts =
     try_res (tick_step x w s cx ts) (\<lambda>r.
       case r of
         Done t \<Rightarrow> Inr t
       | Next ts' \<Rightarrow> tick_loop n x w s cx ts')"

definition select_fiber :: "snapshot \<Rightarrow> uuid option \<Rightarrow> transition_error + uuid" where
  "select_fiber s fiber_id =
     (case fiber_id of
        Some i \<Rightarrow> Inr i
      | None \<Rightarrow>
          ok_or (map_option fb_id (find (\<lambda>f. fb_wait f = W_Running) (bt_values (sn_fibers s))))
            (InvalidCommand ''no running fiber''))"

definition tick_start :: "snapshot \<Rightarrow> fiber \<Rightarrow> tick_state" where
  "tick_start s f = \<lparr>tk_fiber = f, tk_instance = sn_instance s, tk_changes = changes_default,
     tk_ordinal = 0, tk_race_arms = []\<rparr>"

definition apply_tick ::
  "ext \<Rightarrow> executable_workflow \<Rightarrow> snapshot \<Rightarrow> command \<Rightarrow> deterministic_context
     \<Rightarrow> transition_error + transition" where
  "apply_tick x w s cmd cx =
     (case cmd of
        Cmd_Tick fiber_id \<Rightarrow>
          if pi_state (sn_instance s) \<noteq> PS_Running
            then Inl (InvalidCommand ''Tick requires a running instance'')
          else
            try_res (select_fiber s fiber_id) (\<lambda>selected.
            try_res (ok_or (bt_get (sn_fibers s) selected) (MissingFiber selected)) (\<lambda>f.
            if fb_wait f \<noteq> W_Running then Inl (InvalidCommand ''selected fiber is not running'')
            else tick_loop (unat (max_steps (wf_limits w))) x w s cx (tick_start s f)))
      | _ \<Rightarrow> Inl (InvalidCommand ''apply_tick requires Tick''))"

end
