(* ===== verification/Commands.thy ===== *)
theory Commands
  imports Tick
begin

text \<open>
  The command handlers of the kernel other than the tick: timers (with the guard deadline and
  its rollback), messages, effect completions, job completions and failures, and child-start
  results (\<open>apply_timer\<close>, \<open>apply_message\<close>, \<open>apply_ffi_completion\<close>, \<open>apply_job_completion\<close>,
  \<open>apply_job_failure\<close>, \<open>apply_start_child_result\<close> of \<open>bpmn-lite-kernel/src/lib.rs\<close>).
\<close>

section \<open>Texts\<close>

definition describe_wait :: "ext \<Rightarrow> wait_state \<Rightarrow> string" where
  "describe_wait x wt =
     (case wt of
        W_Running \<Rightarrow> []
      | W_Timer deadline_ms \<Rightarrow> ''Timer('' @ dec_u deadline_ms @ '')''
      | W_Msg _ name corr_key \<Rightarrow> ''Msg('' @ dec_u name @ '', '' @ debug_str corr_key @ '')''
      | W_Job job_key \<Rightarrow> ''Job('' @ job_key @ '')''
      | W_Effect effect_id \<Rightarrow> ''Effect('' @ x_uuid_string x effect_id @ '')''
      | W_Join join_id \<Rightarrow> ''Join('' @ dec_u join_id @ '')''
      | W_V2Barrier record_id \<Rightarrow> ''V2Barrier('' @ x_uuid_string x record_id @ '')''
      | W_V2Race record_id arms \<Rightarrow>
          ''V2Race('' @ x_uuid_string x record_id @ '', '' @ dec_nat (length arms) @ '' arms)''
      | W_Incident incident_id \<Rightarrow> ''Incident('' @ x_uuid_string x incident_id @ '')'')"

text \<open>\<open>{:?}\<close> of \<open>ProcessState\<close> (derived \<open>Debug\<close>).\<close>

definition debug_process_state :: "ext \<Rightarrow> process_state \<Rightarrow> string" where
  "debug_process_state x st =
     (case st of
        PS_Running \<Rightarrow> ''Running''
      | PS_Completed at \<Rightarrow> ''Completed { at: '' @ dec_i64 at @ '' }''
      | PS_Cancelled reason at \<Rightarrow>
          ''Cancelled { reason: '' @ debug_str reason @ '', at: '' @ dec_i64 at @ '' }''
      | PS_Terminated at \<Rightarrow> ''Terminated { at: '' @ dec_i64 at @ '' }''
      | PS_Failed incident_id \<Rightarrow> ''Failed { incident_id: '' @ x_uuid_string x incident_id @ '' }''
      | PS_Incidented incident_id \<Rightarrow> ''Incidented { incident_id: '' @ x_uuid_string x incident_id @ '' }''
      | PS_WaitingOnSubmission callout_id node_id \<Rightarrow>
          ''WaitingOnSubmission { callout_id: '' @ x_uuid_string x callout_id @ '', node_id: ''
            @ debug_str node_id @ '' }''
      | PS_WaitingOnInvocation execution_id node_id \<Rightarrow>
          ''WaitingOnInvocation { execution_id: '' @ x_uuid_string x execution_id @ '', node_id: ''
            @ debug_str node_id @ '' }'')"

fun error_class_label :: "error_class \<Rightarrow> string" where
  "error_class_label Transient = ''transient''"
| "error_class_label ContractViolation = ''contract_violation''"
| "error_class_label (BusinessRejection _) = ''business_rejection''"

section \<open>Child start\<close>

definition apply_start_child_result ::
  "ext \<Rightarrow> snapshot \<Rightarrow> string \<Rightarrow> uuid \<Rightarrow> bool \<Rightarrow> deterministic_context \<Rightarrow> transition_error + transition" where
  "apply_start_child_result x s idempotency_key child_instance_id accepted cx =
     (let inst = sn_instance s in
      if (case pi_state inst of
            PS_WaitingOnInvocation execution_id _ \<Rightarrow> execution_id = child_instance_id
          | _ \<Rightarrow> False)
      then Inr (transition_new inst)
      else case pi_state inst of
        PS_WaitingOnSubmission _ node_id \<Rightarrow>
          if accepted then
            Inr (tb_event (Ev_ChildStartAccepted idempotency_key child_instance_id)
              (transition_new (inst\<lparr>pi_state := PS_WaitingOnInvocation child_instance_id node_id\<rparr>)))
          else
            try_res (ok_or (vec_get (bt_values (sn_fibers s)) 0)
                       (InvalidCommand ''child-start rejection requires an active fiber'')) (\<lambda>f.
            (let incident_id = derived_id x cx 0 in
             try_res (logical_timestamp cx) (\<lambda>created_at.
             (let inc = \<lparr>inc_incident_id = incident_id, inc_process_instance_id = pi_instance_id inst,
                        inc_fiber_id = fb_id f, inc_service_task_id = node_id,
                        inc_bytecode_addr = fb_pc f, inc_error_class = ContractViolation,
                        inc_message = ''child start rejected: '' @ idempotency_key,
                        inc_retry_count = 0, inc_created_at = created_at,
                        inc_resolved_at = None, inc_resolution = None\<rparr>
              in Inr (tb_event (Ev_IncidentCreated incident_id node_id None)
                   (tb_event (Ev_ChildStartRejected idempotency_key child_instance_id incident_id)
                   (tb_incident inc
                   (tb_upsert_fiber (f\<lparr>fb_wait := W_Incident incident_id\<rparr>)
                   (transition_new (inst\<lparr>pi_state := PS_Incidented incident_id\<rparr>))))))))))
      | _ \<Rightarrow> Inl (InvalidCommand ''child-start result requires WaitingOnSubmission''))"

section \<open>Job completion\<close>

definition ack_of :: "job_completion \<Rightarrow> job_mutation option" where
  "ack_of completion =
     (case (jc_worker_id completion, jc_claim_token completion) of
        (Some worker_id, Some claim_token) \<Rightarrow>
          Some (JM_AckClaimed (jc_job_key completion) worker_id claim_token)
      | _ \<Rightarrow> None)"

definition parked_on_job :: "string \<Rightarrow> fiber \<Rightarrow> bool" where
  "parked_on_job key f = (case fb_wait f of W_Job job_key \<Rightarrow> job_key = key | _ \<Rightarrow> False)"

definition apply_job_completion ::
  "ext \<Rightarrow> snapshot \<Rightarrow> job_completion \<Rightarrow> transition_error + transition" where
  "apply_job_completion x s completion =
     (let inst = sn_instance s;
          current_hash = blake3_hash x (pi_domain_payload inst)
      in if jc_expected_instance_payload_hash completion \<noteq> current_hash then Inl OptimisticConflict
         else if is_terminal (pi_state inst) then
           (let t = tb_event (Ev_SignalIgnored (''complete_job(key='' @ jc_job_key completion
                      @ '', state='' @ debug_process_state x (pi_state inst) @ '')''))
                      (transition_new inst)
            in Inr (case ack_of completion of
                      Some m \<Rightarrow> tb_job_mutation m t
                    | None \<Rightarrow> tb_ack_job (jc_job_key completion) t))
         else
           try_res (ok_or (find (parked_on_job (jc_job_key completion)) (bt_values (sn_fibers s)))
                      (InvalidCommand ''completion has no parked fiber'')) (\<lambda>f.
           try_res (apply_completion x completion inst) (\<lambda>inst'.
           (let f = (bump_pc f)\<lparr>fb_wait := W_Running\<rparr>;
                ch = push_event (Ev_JobCompleted (jc_job_key completion) current_hash
                       (pi_domain_payload_hash inst') (jc_orch_flags completion) (fb_pc f)) changes_default;
                ch = push_upsert f ch;
                ch = (case ack_of completion of
                        Some m \<Rightarrow> push_job_mutation m ch
                      | None \<Rightarrow> push_ack (jc_job_key completion) ch);
                ch = push_dedupe \<lparr>dw_key = jc_job_key completion, dw_completion = completion\<rparr> ch
            in Inr (finish ch inst')))))"

section \<open>Effect completion\<close>

definition instr_at :: "executable_workflow \<Rightarrow> addr \<Rightarrow> instr option" where
  "instr_at w a = vec_get (wf_instructions w) (unat a)"

definition is_v2_arm_effect :: "executable_workflow \<Rightarrow> addr \<Rightarrow> bool" where
  "is_v2_arm_effect w a = (case instr_at w a of Some (I_V2ArmEffect _ _ _ _) \<Rightarrow> True | _ \<Rightarrow> False)"

definition is_v2_ffi :: "executable_workflow \<Rightarrow> addr \<Rightarrow> bool" where
  "is_v2_ffi w a =
     (case instr_at w a of
        Some (I_V2AwaitEffect _ _ _) \<Rightarrow> True
      | Some (I_V2ArmEffect _ _ _ _) \<Rightarrow> True
      | _ \<Rightarrow> False)"

text \<open>How a completion meets the fiber: it resolves the parked effect, wins a race, or arrives
  late after its race was decided.\<close>

datatype ffi_match = FM_Parked | FM_RaceWin record_id addr | FM_Late

definition match_ffi ::
  "ext \<Rightarrow> executable_workflow \<Rightarrow> snapshot \<Rightarrow> effect_id \<Rightarrow> uuid \<Rightarrow> addr \<Rightarrow> fiber \<Rightarrow> transition_error + ffi_match" where
  "match_ffi x w s effect_id fiber_id a f =
     (let mismatch = Inl (InvalidCommand ''FFI completion does not match parked effect'');
          late_or_mismatch =
            (if is_v2_arm_effect w a
                \<and> effect_id = for_instruction x (pi_instance_id (sn_instance s)) fiber_id a
             then Inr FM_Late else mismatch)
      in case fb_wait f of
           W_Effect parked \<Rightarrow>
             if parked = effect_id \<and> fb_pc f = a then Inr FM_Parked else late_or_mismatch
         | W_V2Race record_id arms \<Rightarrow>
             (case find_map (\<lambda>arm. case arm of
                  Arm_Effect target arm_effect_id _ \<Rightarrow>
                    if arm_effect_id = effect_id then Some target else None
                | _ \<Rightarrow> None) arms of
                Some target \<Rightarrow> Inr (FM_RaceWin record_id target)
              | None \<Rightarrow> if is_v2_arm_effect w a then Inr FM_Late else mismatch)
         | _ \<Rightarrow> late_or_mismatch)"

definition ffi_result_instance ::
  "ext \<Rightarrow> executable_workflow \<Rightarrow> process_instance \<Rightarrow> addr \<Rightarrow> bytes \<Rightarrow> string option \<Rightarrow> bool
     \<Rightarrow> transition_error + process_instance" where
  "ffi_result_instance x w inst a output_payload new_domain_payload no_match =
     (if no_match then Inr inst
      else case new_domain_payload of
        Some payload \<Rightarrow>
          Inr (inst\<lparr>pi_domain_payload := payload, pi_domain_payload_hash := content_hash x payload\<rparr>)
      | None \<Rightarrow>
          try_res (if is_v2_ffi w a
               then ok_or (bt_get (md_v2_ffi_task_decls (wf_metadata w)) a)
                      (MissingMetadata ''v2 FFI effect declaration'')
               else ok_or (bt_get (md_ffi_task_decls (wf_metadata w)) a)
                      (MissingMetadata ''FFI task declaration'')) (\<lambda>declaration.
          map_err (\<lambda>_. InvalidCommand ''FFI output contract violation'')
            (apply_ffi_outputs x inst declaration output_payload)))"

definition apply_ffi_completion ::
  "ext \<Rightarrow> executable_workflow \<Rightarrow> snapshot \<Rightarrow> command \<Rightarrow> transition_error + transition" where
  "apply_ffi_completion x w s cmd =
     (case cmd of
        Cmd_EffectCompleted effect_id (EO_Ffi fiber_id a output_payload new_domain_payload no_match) \<Rightarrow>
          try_res (ok_or (bt_get (sn_fibers s) fiber_id) (MissingFiber fiber_id)) (\<lambda>f.
          try_res (match_ffi x w s effect_id fiber_id a f) (\<lambda>m.
          if m = FM_Late then
            Inr (tb_effect_mutation (EM_Terminal effect_id ETS_Completed) (transition_new (sn_instance s)))
          else
            try_res (ffi_result_instance x w (sn_instance s) a output_payload new_domain_payload no_match) (\<lambda>inst.
            (let (f, t) =
                   (case m of
                      FM_RaceWin record_id target \<Rightarrow>
                        (f\<lparr>fb_pc := target, fb_wait := W_Running\<rparr>,
                         tb_timer_mutation (TM_V2CancelRace (fb_id f) record_id effect_id)
                           (tb_event (Ev_V2RaceWon record_id (fb_id f))
                             (tb_concurrency_mutation (CM_Retire record_id) (transition_new inst))))
                    | _ \<Rightarrow> ((bump_pc f)\<lparr>fb_wait := W_Running\<rparr>, transition_new inst))
             in Inr (tb_event (Ev_FfiInvocationCompleted effect_id
                        (if no_match then ''no_match'' else ''success'') None)
                  (tb_effect_mutation (EM_Terminal effect_id ETS_Completed)
                  (tb_upsert_fiber f t)))))))
      | _ \<Rightarrow> Inl (InvalidCommand ''FFI completion handler requires an FFI effect result''))"

section \<open>Messages\<close>

text \<open>The first fiber, in fiber order, that a delivery resumes: parked on the message itself, or
  on a race with a matching message arm (the first such arm).\<close>

definition match_msg_fiber ::
  "(u32, string) btree \<Rightarrow> string \<Rightarrow> string \<Rightarrow> fiber \<Rightarrow> (fiber \<times> record_id option) option" where
  "match_msg_fiber names name correlation_key f =
     (case fb_wait f of
        W_Msg _ waiting_name corr_key \<Rightarrow>
          if message_name_matches names name waiting_name \<and> corr_key = correlation_key
          then Some (f\<lparr>fb_wait := W_Running\<rparr>, None) else None
      | W_V2Race record_id arms \<Rightarrow>
          map_option (\<lambda>target. (f\<lparr>fb_pc := target, fb_wait := W_Running\<rparr>, Some record_id))
            (find_map (\<lambda>arm. case arm of
                 Arm_Msg target waiting_name corr_key \<Rightarrow>
                   if message_name_matches names name waiting_name \<and> corr_key = correlation_key
                   then Some target else None
               | _ \<Rightarrow> None) arms)
      | _ \<Rightarrow> None)"

definition message_name_id :: "(u32, string) btree \<Rightarrow> string \<Rightarrow> u32" where
  "message_name_id names name =
     unwrap_or (find_map (\<lambda>(i, candidate). if candidate = name then Some i else None) (bt_entries names)) 0"

definition push_race_won :: "ext \<Rightarrow> snapshot \<Rightarrow> record_id \<Rightarrow> fiber \<Rightarrow> changes \<Rightarrow> changes" where
  "push_race_won x s record_id f ch =
     push_timer_mutation (TM_V2CancelRace (fb_id f) record_id
         (for_instruction x (pi_instance_id (sn_instance s)) (fb_id f) (fb_pc f)))
       (push_event (Ev_V2RaceWon record_id (fb_id f)) (push_mutation (CM_Retire record_id) ch))"

definition apply_message ::
  "ext \<Rightarrow> executable_workflow \<Rightarrow> snapshot \<Rightarrow> command \<Rightarrow> deterministic_context \<Rightarrow> transition_error + transition" where
  "apply_message x w s cmd cx =
     (case cmd of
        Cmd_MessageDelivered message_id name correlation_key payload payload_hash expires_at \<Rightarrow>
          try_res (logical_timestamp cx) (\<lambda>received_at.
          (let inst = sn_instance s;
               names = md_message_name_map (wf_metadata w);
               message = \<lparr>bm_tenant_id = pi_tenant_id inst, bm_message_name = name,
                 bm_correlation_key = correlation_key, bm_msg_id = message_id, bm_payload = payload,
                 bm_payload_hash = payload_hash, bm_process_instance_id = Some (pi_instance_id inst),
                 bm_received_at = received_at, bm_expires_at = expires_at\<rparr>
           in if is_terminal (pi_state inst) then
                Inr (finish (push_event (Ev_SignalIgnored (''signal on '' @ debug_process_state x (pi_state inst)
                        @ '' instance: msg='' @ name))
                      (push_buffered (BM_Deliver message) changes_default)) inst)
              else
                (let ch = push_event (Ev_MessageBuffered name correlation_key message_id expires_at)
                            changes_default
                 in case find_map (match_msg_fiber names name correlation_key) (bt_values (sn_fibers s)) of
                      None \<Rightarrow> Inr (finish (push_buffered (BM_Insert message) ch) inst)
                    | Some (f, race) \<Rightarrow>
                        try_res (case payload_hash of
                             Some hash \<Rightarrow>
                               try_res (ok_or (from_utf8 payload)
                                          (InvalidCommand ''message payload is not UTF-8'')) (\<lambda>txt.
                               Inr (inst\<lparr>pi_domain_payload := txt, pi_domain_payload_hash := hash\<rparr>))
                           | None \<Rightarrow> Inr inst) (\<lambda>inst.
                        (let ch = push_buffered (BM_Deliver message) ch;
                             ch = push_event (Ev_BufferedMessageConsumed name correlation_key message_id
                                    (fb_id f)) ch;
                             ch = push_event (Ev_MsgReceived (message_name_id names name) correlation_key
                                    None) ch;
                             ch = (case race of
                                     Some record_id \<Rightarrow> push_race_won x s record_id f ch
                                   | None \<Rightarrow> ch)
                         in Inr (finish (push_upsert f ch) inst))))))
      | _ \<Rightarrow> Inl (InvalidCommand ''message handler requires MessageDelivered''))"

section \<open>Rollback of a failed or timed-out scope\<close>

text \<open>Whether any fiber but the trigger survives the changes so far.\<close>

definition survivors_without :: "snapshot \<Rightarrow> changes \<Rightarrow> uuid \<Rightarrow> uuid list" where
  "survivors_without s ch trigger =
     filter (\<lambda>i. i \<noteq> trigger)
       (bt_keys (apply_fiber_deltas (sn_fibers s) (ch_fibers_upsert ch) (ch_fibers_delete ch) False))"

text \<open>\<open>split_off\<close> at the retiring guard, with one \<open>Pop\<close> delta per dropped handle, newest first.\<close>

definition truncate_scope :: "record_id \<Rightarrow> fiber \<Rightarrow> changes \<Rightarrow> fiber \<times> changes" where
  "truncate_scope guard_handle f ch =
     (case position (\<lambda>i. i = guard_handle) (fb_control_stack f) of
        Some pos \<Rightarrow>
          (f\<lparr>fb_control_stack := take pos (fb_control_stack f)\<rparr>,
           fold (\<lambda>h. push_delta (CS_Pop (fb_id f) h)) (rev (drop pos (fb_control_stack f))) ch)
      | None \<Rightarrow> (f, ch))"

text \<open>The spanning case: the trigger fiber survives, parked on an incident at the address of the
  guard's opening word.\<close>

definition rescue_trigger ::
  "ext \<Rightarrow> executable_workflow \<Rightarrow> snapshot \<Rightarrow> deterministic_context \<Rightarrow> record_id \<Rightarrow> addr \<Rightarrow> fiber
     \<Rightarrow> error_class \<Rightarrow> string \<Rightarrow> u32 \<Rightarrow> string option \<Rightarrow> process_instance \<Rightarrow> changes
     \<Rightarrow> transition_error + changes \<times> process_instance" where
  "rescue_trigger x w s cx guard_handle opened_at f err message attempt job_key inst ch =
     (let ch = ch\<lparr>ch_fibers_delete := filter (\<lambda>i. i \<noteq> fb_id f) (ch_fibers_delete ch)\<rparr>;
          (f, ch) = truncate_scope guard_handle f ch;
          ch = v2_reconcile_ancestor_membership s
                 (map (\<lambda>ancestor. (ancestor, Add (fb_id f))) (fb_control_stack f)) (bs_of_list []) ch;
          incident_id = derived_id x cx 0;
          service_task_id = node_label w (fb_pc f)
      in try_res (logical_timestamp cx) (\<lambda>created_at.
         (let inc = \<lparr>inc_incident_id = incident_id, inc_process_instance_id = pi_instance_id inst,
                    inc_fiber_id = fb_id f, inc_service_task_id = service_task_id,
                    inc_bytecode_addr = fb_pc f, inc_error_class = err, inc_message = message,
                    inc_retry_count = attempt, inc_created_at = created_at,
                    inc_resolved_at = None, inc_resolution = None\<rparr>;
              f = f\<lparr>fb_pc := opened_at, fb_wait := W_Incident incident_id\<rparr>;
              inst = inst\<lparr>pi_state := PS_Incidented incident_id\<rparr>;
              ch = push_event (Ev_IncidentCreated incident_id service_task_id job_key)
                     (push_upsert f (push_incident inc ch))
          in Inr (ch, inst))))"

definition apply_v2_guard_timer_rollback ::
  "ext \<Rightarrow> executable_workflow \<Rightarrow> snapshot \<Rightarrow> record_id \<Rightarrow> concurrency_record \<Rightarrow> deterministic_context
     \<Rightarrow> transition_error + changes \<times> process_instance" where
  "apply_v2_guard_timer_rollback x w s guard_handle guard_rec cx =
     (case vec_get (bs_list (rec_members guard_rec)) 0 of
        None \<Rightarrow> Inr (changes_default, sn_instance s)
      | Some trigger_fiber_id \<Rightarrow>
          try_res (v2_rollback_guard_scope x s guard_handle (Dies trigger_fiber_id) changes_default)
            (\<lambda>(restored, ch).
          (let inst = restore_instance restored (sn_instance s);
               ch = fold push_job_mutation (void_jobs s (ch_fibers_delete ch)) ch
           in if survivors_without s ch trigger_fiber_id = [] then
                try_res (ok_or (bt_get (sn_fibers s) trigger_fiber_id)
                  (InvalidCommand ''guard timer rollback: trigger fibre vanished mid-transition'')) (\<lambda>f.
                try_res (ok_or (rec_opened_at guard_rec) (InvalidCommand
                  ''guard timer rollback: spanning guard scope carries no opened_at address'')) (\<lambda>opened_at.
                rescue_trigger x w s cx guard_handle opened_at f ContractViolation
                  ''guard-arming timer deadline elapsed'' 0 None inst ch))
              else Inr (ch, inst))))"

section \<open>Timers\<close>

definition is_guard :: "concurrency_record \<Rightarrow> bool" where
  "is_guard r = (case rec_kind r of RK_Guard _ \<Rightarrow> True | _ \<Rightarrow> False)"

definition guard_timer_rearm :: "claimed_timer \<Rightarrow> u64 \<Rightarrow> bool \<Rightarrow> timer_mutation" where
  "guard_timer_rearm timer fired_at interrupting =
     (case (if interrupting then None else tm_repeat_spec timer) of
        Some spec \<Rightarrow>
          if rs_remaining spec > 1 then
            TM_Rearm (tm_timer_id timer) (tm_claim_token timer)
              (sat_add fired_at (rs_interval_ms spec))
              \<lparr>rs_interval_ms = rs_interval_ms spec, rs_remaining = rs_remaining spec - 1,
               rs_fired_count = sat_add (rs_fired_count spec) 1\<rparr>
          else TM_Consume (tm_timer_id timer) (tm_claim_token timer)
      | None \<Rightarrow> TM_Consume (tm_timer_id timer) (tm_claim_token timer))"

definition fire_guard_timer ::
  "ext \<Rightarrow> executable_workflow \<Rightarrow> snapshot \<Rightarrow> claimed_timer \<Rightarrow> u64 \<Rightarrow> deterministic_context \<Rightarrow> record_id
     \<Rightarrow> transition_error + transition" where
  "fire_guard_timer x w s timer fired_at cx record_id =
     (let stale = tb_timer_mutation (TM_Consume (tm_timer_id timer) (tm_claim_token timer))
                    (transition_new (sn_instance s))
      in case ct_get (sn_concurrency_table s) record_id of
           None \<Rightarrow> Inr stale
         | Some r \<Rightarrow>
             if rec_state r \<noteq> Armed \<or> \<not> is_guard r then Inr stale
             else
               try_res (if rec_rollback_domain_payload r \<noteq> None
                    then apply_v2_guard_timer_rollback x w s record_id r cx
                    else try_res (v2_trigger_guard_changes x s record_id cx)
                           (\<lambda>ch. Inr (ch, sn_instance s))) (\<lambda>(ch, inst).
               (let ch = push_event (Ev_TimerFired (tm_timer_id timer) (tm_fiber_id timer) fired_at) ch;
                    ch = push_timer_mutation (guard_timer_rearm timer fired_at
                           (rec_kind r = RK_Guard True)) ch
                in Inr (finish ch inst))))"

definition apply_timer ::
  "ext \<Rightarrow> executable_workflow \<Rightarrow> snapshot \<Rightarrow> claimed_timer \<Rightarrow> u64 \<Rightarrow> deterministic_context
     \<Rightarrow> transition_error + transition" where
  "apply_timer x w s timer fired_at cx =
     (let inst = sn_instance s;
          fired = Ev_TimerFired (tm_timer_id timer) (tm_fiber_id timer) fired_at;
          consume = tb_timer_mutation (TM_Consume (tm_timer_id timer) (tm_claim_token timer))
      in if tm_tenant_id timer \<noteq> pi_tenant_id inst
           then Inl (InvalidCommand ''timer tenant does not match snapshot'')
         else if tm_instance_id timer \<noteq> pi_instance_id inst
           then Inl (InvalidCommand ''timer instance does not match snapshot'')
         else if fired_at < tm_due_at timer
           then Inl (InvalidCommand ''timer fired before due_at'')
         else
           case (tm_kind timer, bt_get (sn_fibers s) (tm_fiber_id timer)) of
             (TK_Wait, Some f) \<Rightarrow>
               (case fb_wait f of
                  W_Timer deadline_ms \<Rightarrow>
                    if deadline_ms \<le> fired_at
                    then Inr (consume (tb_event fired
                           (tb_upsert_fiber (f\<lparr>fb_wait := W_Running\<rparr>) (transition_new inst))))
                    else Inr (consume (transition_new inst))
                | _ \<Rightarrow> Inr (consume (transition_new inst)))
           | (TK_V2Race record_id resume_at, Some f) \<Rightarrow>
               (case fb_wait f of
                  W_V2Race current _ \<Rightarrow>
                    if current = record_id
                    then Inr (consume
                           (tb_timer_mutation (TM_V2CancelRace (tm_fiber_id timer) record_id (tm_timer_id timer))
                           (tb_concurrency_mutation (CM_Retire record_id)
                           (tb_event (Ev_V2RaceWon record_id (tm_fiber_id timer))
                           (tb_event fired
                           (tb_upsert_fiber (f\<lparr>fb_pc := resume_at, fb_wait := W_Running\<rparr>)
                             (transition_new inst)))))))
                    else Inr (consume (transition_new inst))
                | _ \<Rightarrow> Inr (consume (transition_new inst)))
           | (TK_V2GuardTimer record_id, _) \<Rightarrow> fire_guard_timer x w s timer fired_at cx record_id
           | _ \<Rightarrow> Inr (consume (transition_new inst)))"

section \<open>Job failure\<close>

definition failed_fiber :: "snapshot \<Rightarrow> effect_id \<Rightarrow> string \<Rightarrow> fiber option" where
  "failed_fiber s effect_id job_key =
     find (\<lambda>f. case fb_wait f of
                 W_Job parked \<Rightarrow> parked = job_key
               | W_Effect parked \<Rightarrow> parked = effect_id
               | _ \<Rightarrow> False) (bt_values (sn_fibers s))"

text \<open>The innermost armed guard of a fiber: the walk skips races and barriers and stops at the
  first guard.\<close>

definition innermost_guard :: "snapshot \<Rightarrow> fiber \<Rightarrow> (record_id \<times> concurrency_record) option" where
  "innermost_guard s f =
     find_map (\<lambda>i. case ct_get (sn_concurrency_table s) i of
                     Some r \<Rightarrow> if rec_state r = Armed \<and> is_guard r then Some (i, r) else None
                   | None \<Rightarrow> None)
       (rev (fb_control_stack f))"

definition route_for :: "string \<Rightarrow> concurrency_record \<Rightarrow> addr option" where
  "route_for rejection_code r =
     map_option snd (find (\<lambda>(code, _). case code of Some c \<Rightarrow> c = rejection_code | None \<Rightarrow> True)
       (rec_error_routes r))"

definition matched_error_route ::
  "snapshot \<Rightarrow> fiber \<Rightarrow> error_class \<Rightarrow> (string \<times> addr \<times> record_id) option" where
  "matched_error_route s f err =
     (case err of
        BusinessRejection rejection_code \<Rightarrow>
          Option.bind (innermost_guard s f) (\<lambda>(i, r).
            map_option (\<lambda>handler. (rejection_code, handler, i)) (route_for rejection_code r))
      | _ \<Rightarrow> None)"

fun rollback_eligible :: "error_class \<Rightarrow> bool" where
  "rollback_eligible ContractViolation = True"
| "rollback_eligible (BusinessRejection _) = False"
| "rollback_eligible Transient = False"

definition rollback_guard_of :: "snapshot \<Rightarrow> fiber \<Rightarrow> error_class \<Rightarrow> (record_id \<times> concurrency_record) option" where
  "rollback_guard_of s f err =
     (if rollback_eligible err then
        (case innermost_guard s f of
           Some (i, r) \<Rightarrow>
             if rec_kind r = RK_Guard True \<and> rec_rollback_domain_payload r \<noteq> None then Some (i, r) else None
         | None \<Rightarrow> None)
      else None)"

definition ack_job_key :: "string \<Rightarrow> changes \<Rightarrow> changes" where
  "ack_job_key job_key ch = (if job_key \<noteq> [] then push_ack job_key ch else ch)"

definition fail_job_routed ::
  "ext \<Rightarrow> snapshot \<Rightarrow> deterministic_context \<Rightarrow> string \<Rightarrow> string \<times> addr \<times> record_id
     \<Rightarrow> transition_error + transition" where
  "fail_job_routed x s cx job_key = (\<lambda>(code, handler, record_id).
     try_res (v2_trigger_guard_changes_with_target x s record_id cx handler) (\<lambda>ch.
     Inr (finish (push_event (Ev_ErrorRouted job_key code (''guard:'' @ x_uuid_string x record_id) handler)
       (ack_job_key job_key ch)) (sn_instance s))))"

definition fail_job_rollback ::
  "ext \<Rightarrow> executable_workflow \<Rightarrow> snapshot \<Rightarrow> deterministic_context \<Rightarrow> fiber \<Rightarrow> string \<Rightarrow> error_class \<Rightarrow> string
     \<Rightarrow> u32 \<Rightarrow> record_id \<times> concurrency_record \<Rightarrow> transition_error + transition" where
  "fail_job_rollback x w s cx f job_key err message attempt = (\<lambda>(guard_handle, guard_rec).
     try_res (v2_rollback_guard_scope x s guard_handle (Dies (fb_id f)) changes_default) (\<lambda>(restored, ch).
     (let inst = restore_instance restored (sn_instance s);
          ch = ack_job_key job_key ch
      in if survivors_without s ch (fb_id f) = [] then
           try_res (ok_or (rec_opened_at guard_rec)
             (InvalidCommand ''rollback: spanning guard scope carries no opened_at address'')) (\<lambda>opened_at.
           try_res (rescue_trigger x w s cx guard_handle opened_at f err message attempt
                      (if job_key \<noteq> [] then Some job_key else None) inst ch) (\<lambda>(ch, inst).
           Inr (finish ch inst)))
         else Inr (finish ch inst))))"

definition fail_job_incident ::
  "ext \<Rightarrow> executable_workflow \<Rightarrow> snapshot \<Rightarrow> deterministic_context \<Rightarrow> fiber \<Rightarrow> effect_id \<Rightarrow> string
     \<Rightarrow> error_class \<Rightarrow> string \<Rightarrow> job_retry option \<Rightarrow> u32 \<Rightarrow> transition_error + transition" where
  "fail_job_incident x w s cx f effect_id job_key err message retry attempt =
     (let incident_id = derived_id x cx 0;
          service_task_id = node_label w (fb_pc f);
          inst = sn_instance s
      in try_res (logical_timestamp cx) (\<lambda>created_at.
         (let inc = \<lparr>inc_incident_id = incident_id, inc_process_instance_id = pi_instance_id inst,
                    inc_fiber_id = fb_id f, inc_service_task_id = service_task_id,
                    inc_bytecode_addr = fb_pc f, inc_error_class = err, inc_message = message,
                    inc_retry_count = attempt, inc_created_at = created_at,
                    inc_resolved_at = None, inc_resolution = None\<rparr>;
              ch = push_event (Ev_IncidentCreated incident_id service_task_id
                                 (if job_key \<noteq> [] then Some job_key else None))
                     (push_upsert (f\<lparr>fb_wait := W_Incident incident_id\<rparr>)
                       (push_incident inc changes_default));
              ch = (if job_key = [] then push_effect_mutation (EM_Terminal effect_id ETS_Failed) ch else ch);
              ch = (case retry of
                      Some rt \<Rightarrow>
                        push_event (Ev_JobDeadLettered job_key incident_id)
                          (push_job_mutation (JM_DeadLetterClaimed job_key (jr_worker_id rt)
                             (jr_claim_token rt) (error_class_label err) message incident_id) ch)
                    | None \<Rightarrow> ack_job_key job_key ch)
          in Inr (finish ch (inst\<lparr>pi_state := PS_Incidented incident_id\<rparr>)))))"

definition fail_job_retry :: "snapshot \<Rightarrow> string \<Rightarrow> string \<Rightarrow> job_retry \<Rightarrow> transition" where
  "fail_job_retry s job_key message rt =
     finish (push_event (Ev_JobRetryScheduled job_key (jr_not_before_ms rt) 0)
       (push_job_mutation (JM_RetryClaimed job_key (jr_worker_id rt) (jr_claim_token rt) ''transient''
          message (jr_not_before_ms rt)) changes_default)) (sn_instance s)"

definition fail_job_ignored :: "snapshot \<Rightarrow> string \<Rightarrow> string \<Rightarrow> transition" where
  "fail_job_ignored s job_key signal_desc =
     finish (ack_job_key job_key (push_event (Ev_SignalIgnored signal_desc) changes_default)) (sn_instance s)"

definition apply_job_failure ::
  "ext \<Rightarrow> executable_workflow \<Rightarrow> snapshot \<Rightarrow> command \<Rightarrow> deterministic_context \<Rightarrow> transition_error + transition" where
  "apply_job_failure x w s cmd cx =
     (case cmd of
        Cmd_EffectFailed effect_id job_key err message retry attempt \<Rightarrow>
          if is_terminal (pi_state (sn_instance s)) then
            Inr (fail_job_ignored s job_key (''fail_job(key='' @ job_key @ '', state=''
              @ debug_process_state x (pi_state (sn_instance s)) @ '')''))
          else (case failed_fiber s effect_id job_key of
            None \<Rightarrow> Inr (fail_job_ignored s job_key (''fail_job(key='' @ job_key @ '', no fiber)''))
          | Some f \<Rightarrow>
              (case (err, retry) of
                 (Transient, Some rt) \<Rightarrow> Inr (fail_job_retry s job_key message rt)
               | _ \<Rightarrow>
                   (case matched_error_route s f err of
                      Some route \<Rightarrow> fail_job_routed x s cx job_key route
                    | None \<Rightarrow>
                        (case rollback_guard_of s f err of
                           Some g \<Rightarrow> fail_job_rollback x w s cx f job_key err message attempt g
                         | None \<Rightarrow> fail_job_incident x w s cx f effect_id job_key err message retry attempt))))
      | _ \<Rightarrow> Inl (InvalidCommand ''job failure handler requires EffectFailed''))"

end
