(* ===== verification/Kernel.thy ===== *)
theory Kernel
  imports Commands
begin

text \<open>
  The transition function \<open>apply\<close> of \<open>bpmn-lite-kernel/src/lib.rs\<close>: limits on entry, dispatch to
  the handler of the command, the Ring 3 check on the frame the transition would leave, and the
  command envelope that goes into the journal.
\<close>

section \<open>Cancel, terminate, incident resolution\<close>

definition apply_cancel ::
  "ext \<Rightarrow> snapshot \<Rightarrow> string \<Rightarrow> deterministic_context \<Rightarrow> transition" where
  "apply_cancel x s reason cx =
     (let nxt = (sn_instance s)\<lparr>pi_state := PS_Cancelled reason (cx_logical_time cx)\<rparr>;
          t = fold (\<lambda>f t.
                let wait_desc = describe_wait x (fb_wait f) in
                if wait_desc \<noteq> [] then tb_event (Ev_WaitCancelled (fb_id f) wait_desc reason) t else t)
              (bt_values (sn_fibers s)) (transition_new nxt);
          t = tb_terminal_cleanup full_cleanup (tb_event (Ev_Cancelled reason) t)
      in retire_all_armed_records s t)"

definition apply_terminate :: "snapshot \<Rightarrow> deterministic_context \<Rightarrow> transition_error + transition" where
  "apply_terminate s cx =
     try_res (logical_timestamp cx) (\<lambda>at.
     (let fiber_id = unwrap_or (vec_get (bt_keys (sn_fibers s)) 0) 0;
          nxt = (sn_instance s)\<lparr>pi_state := PS_Terminated at\<rparr>;
          t = tb_terminal_cleanup full_cleanup (tb_event (Ev_Terminated at fiber_id) (transition_new nxt))
      in Inr (retire_all_armed_records s t)))"

definition parked_on_incident :: "uuid \<Rightarrow> fiber \<Rightarrow> bool" where
  "parked_on_incident incident_id f =
     (case fb_wait f of W_Incident i \<Rightarrow> i = incident_id | _ \<Rightarrow> False)"

definition apply_resolve_incident ::
  "snapshot \<Rightarrow> uuid \<Rightarrow> string \<Rightarrow> deterministic_context \<Rightarrow> transition_error + transition" where
  "apply_resolve_incident s incident_id resolution cx =
     try_res (ok_or (bt_get (sn_incidents s) incident_id) (InvalidCommand ''incident does not exist'')) (\<lambda>inc.
     if inc_resolved_at inc \<noteq> None then Inr (transition_new (sn_instance s))
     else if pi_state (sn_instance s) \<noteq> PS_Incidented incident_id then
       Inl (InvalidCommand ''ResolveIncident requires the instance to be Incidented on this incident_id'')
     else
       try_res (logical_timestamp cx) (\<lambda>at.
       (let inc = inc\<lparr>inc_resolved_at := Some at, inc_resolution := Some resolution\<rparr>;
            nxt = (sn_instance s)\<lparr>pi_state := PS_Running\<rparr>;
            t = tb_event (Ev_IncidentResolved incident_id resolution) (tb_incident inc (transition_new nxt))
        in Inr (case find (parked_on_incident incident_id) (bt_values (sn_fibers s)) of
                  Some f \<Rightarrow> tb_upsert_fiber (f\<lparr>fb_wait := W_Running\<rparr>) t
                | None \<Rightarrow> t))))"

section \<open>Dispatch\<close>

fun dispatch ::
  "ext \<Rightarrow> executable_workflow \<Rightarrow> snapshot \<Rightarrow> command \<Rightarrow> deterministic_context
     \<Rightarrow> transition_error + transition" where
  "dispatch x w s (Cmd_TimerFired timer fired_at) cx = apply_timer x w s timer fired_at cx"
| "dispatch x w s (Cmd_Cancel reason) cx = Inr (apply_cancel x s reason cx)"
| "dispatch x w s (Cmd_Tick fiber_id) cx = apply_tick x w s (Cmd_Tick fiber_id) cx"
| "dispatch x w s (Cmd_EffectCompleted effect_id (EO_Job completion)) cx = apply_job_completion x s completion"
| "dispatch x w s (Cmd_EffectCompleted effect_id (EO_Ffi i a p d n)) cx =
     apply_ffi_completion x w s (Cmd_EffectCompleted effect_id (EO_Ffi i a p d n))"
| "dispatch x w s (Cmd_EffectCompleted effect_id (EO_Json j)) cx =
     Inl (UnsupportedCommand ''JSON effect completion requires T8'')"
| "dispatch x w s (Cmd_EffectFailed effect_id job_key err message retry attempt) cx =
     apply_job_failure x w s (Cmd_EffectFailed effect_id job_key err message retry attempt) cx"
| "dispatch x w s (Cmd_MessageDelivered message_id name key payload hash expires_at) cx =
     apply_message x w s (Cmd_MessageDelivered message_id name key payload hash expires_at) cx"
| "dispatch x w s Cmd_Terminate cx = apply_terminate s cx"
| "dispatch x w s (Cmd_ResolveIncident incident_id resolution) cx =
     apply_resolve_incident s incident_id resolution cx"
| "dispatch x w s (Cmd_StartChildResult key child accepted) cx =
     apply_start_child_result x s key child accepted cx"
| "dispatch x w s (Cmd_JobClaimed job_key worker_id claim_expires_at) cx =
     Inr (tb_event (Ev_JobClaimed job_key worker_id claim_expires_at) (transition_new (sn_instance s)))"
| "dispatch x w s (Cmd_V2TriggerGuard record_id) cx =
     apply_v2_trigger_guard x s (Cmd_V2TriggerGuard record_id) cx"

definition check_arrays_for :: "command \<Rightarrow> bool" where
  "check_arrays_for cmd = (case cmd of Cmd_Cancel _ \<Rightarrow> False | Cmd_Terminate \<Rightarrow> False | _ \<Rightarrow> True)"

definition apply_command ::
  "ext \<Rightarrow> executable_workflow \<Rightarrow> snapshot \<Rightarrow> command \<Rightarrow> deterministic_context
     \<Rightarrow> transition_error + transition" where
  "apply_command x w s cmd cx =
     try_res (validate_snapshot_limits w s (check_arrays_for cmd)) (\<lambda>_.
     try_res (dispatch x w s cmd cx) (\<lambda>t.
     try_res (map_err Integrity (ring3_shadow_check w s t)) (\<lambda>_.
     try_res (ok_or (i64_try_from (cx_logical_time cx)) (NumericOverflow ''logical time'')) (\<lambda>logical_time.
     Inr (with_command_envelope
            (command_envelope_new (cx_command_id cx) logical_time (JC_Kernel cmd)) t)))))"

end
