(* ===== verification/ScopeLaws.thy ===== *)
theory ScopeLaws
  imports Kernel
begin

text \<open>
  Laws of the scope operations: the fields of a finished transition, reading a record through
  the staged changes, the effect of an ancestor reconciliation on the table, and the K-1/K-2
  invariant as the equality of two relations (who holds a handle, who is a member of its armed
  record).
\<close>

section \<open>Finished transitions\<close>

lemma fold_pushes:
  "fold tb_upsert_fiber fs t = t\<lparr>tr_fibers_upsert := tr_fibers_upsert t @ fs\<rparr>"
  "fold tb_delete_fiber is t = t\<lparr>tr_fibers_delete := tr_fibers_delete t @ is\<rparr>"
  "fold tb_event es t = t\<lparr>tr_events := tr_events t @ es\<rparr>"
  "fold tb_effect efs t = t\<lparr>tr_effects := tr_effects t @ efs\<rparr>"
  "fold tb_effect_mutation ems t = t\<lparr>tr_effect_mutations := tr_effect_mutations t @ ems\<rparr>"
  "fold tb_timer_mutation tms t = t\<lparr>tr_timer_mutations := tr_timer_mutations t @ tms\<rparr>"
  "fold tb_enqueue_job js t = t\<lparr>tr_jobs_enqueue := tr_jobs_enqueue t @ js\<rparr>"
  "fold tb_ack_job ks t = t\<lparr>tr_jobs_ack := tr_jobs_ack t @ ks\<rparr>"
  "fold tb_job_mutation jms t = t\<lparr>tr_job_mutations := tr_job_mutations t @ jms\<rparr>"
  "fold tb_dedupe ds t = t\<lparr>tr_dedupe := tr_dedupe t @ ds\<rparr>"
  "fold tb_incident incs t = t\<lparr>tr_incidents := tr_incidents t @ incs\<rparr>"
  "fold tb_join_mutation jns t = t\<lparr>tr_join_mutations := tr_join_mutations t @ jns\<rparr>"
  "fold tb_buffered_message bms t = t\<lparr>tr_buffered_messages := tr_buffered_messages t @ bms\<rparr>"
  "fold tb_concurrency_mutation cms t = t\<lparr>tr_concurrency_mutations := tr_concurrency_mutations t @ cms\<rparr>"
  "fold tb_control_stack_delta cds t = t\<lparr>tr_control_stack_deltas := tr_control_stack_deltas t @ cds\<rparr>"
  subgoal by (induction fs arbitrary: t) (simp_all add: tb_upsert_fiber_def)
  subgoal by (induction "is" arbitrary: t) (simp_all add: tb_delete_fiber_def)
  subgoal by (induction es arbitrary: t) (simp_all add: tb_event_def)
  subgoal by (induction efs arbitrary: t) (simp_all add: tb_effect_def)
  subgoal by (induction ems arbitrary: t) (simp_all add: tb_effect_mutation_def)
  subgoal by (induction tms arbitrary: t) (simp_all add: tb_timer_mutation_def)
  subgoal by (induction js arbitrary: t) (simp_all add: tb_enqueue_job_def)
  subgoal by (induction ks arbitrary: t) (simp_all add: tb_ack_job_def)
  subgoal by (induction jms arbitrary: t) (simp_all add: tb_job_mutation_def)
  subgoal by (induction ds arbitrary: t) (simp_all add: tb_dedupe_def)
  subgoal by (induction incs arbitrary: t) (simp_all add: tb_incident_def)
  subgoal by (induction jns arbitrary: t) (simp_all add: tb_join_mutation_def)
  subgoal by (induction bms arbitrary: t) (simp_all add: tb_buffered_message_def)
  subgoal by (induction cms arbitrary: t) (simp_all add: tb_concurrency_mutation_def)
  subgoal by (induction cds arbitrary: t) (simp_all add: tb_control_stack_delta_def)
  done

lemma finish_eq:
  "finish ch inst =
     (transition_new inst)
       \<lparr>tr_fibers_upsert := ch_fibers_upsert ch, tr_fibers_delete := ch_fibers_delete ch,
        tr_events := ch_events ch, tr_effects := ch_effects ch,
        tr_effect_mutations := ch_effect_mutations ch, tr_timer_mutations := ch_timer_mutations ch,
        tr_jobs_enqueue := ch_jobs_enqueue ch, tr_jobs_ack := ch_jobs_ack ch,
        tr_job_mutations := ch_job_mutations ch, tr_dedupe := ch_dedupe ch,
        tr_incidents := ch_incidents ch, tr_join_mutations := ch_join_mutations ch,
        tr_buffered_messages := ch_buffered_messages ch,
        tr_terminal_cleanup := unwrap_or (ch_cleanup ch)
          \<lparr>tc_delete_all_fibers = False, tc_delete_all_joins = False, tc_cancel_jobs = False\<rparr>,
        tr_concurrency_mutations := ch_concurrency_mutations ch,
        tr_control_stack_deltas := ch_control_stack_deltas ch\<rparr>"
  unfolding finish_def fold_pushes transition_new_def
  by (cases "ch_cleanup ch") (simp_all add: tb_terminal_cleanup_def unwrap_or_def)

lemma finish_simps [simp]:
  "tr_next_snapshot (finish ch inst) = inst"
  "tr_fibers_upsert (finish ch inst) = ch_fibers_upsert ch"
  "tr_fibers_delete (finish ch inst) = ch_fibers_delete ch"
  "tr_events (finish ch inst) = ch_events ch"
  "tr_effects (finish ch inst) = ch_effects ch"
  "tr_effect_mutations (finish ch inst) = ch_effect_mutations ch"
  "tr_timer_mutations (finish ch inst) = ch_timer_mutations ch"
  "tr_jobs_enqueue (finish ch inst) = ch_jobs_enqueue ch"
  "tr_jobs_ack (finish ch inst) = ch_jobs_ack ch"
  "tr_job_mutations (finish ch inst) = ch_job_mutations ch"
  "tr_dedupe (finish ch inst) = ch_dedupe ch"
  "tr_incidents (finish ch inst) = ch_incidents ch"
  "tr_buffered_messages (finish ch inst) = ch_buffered_messages ch"
  "tr_state_override (finish ch inst) = None"
  "tr_terminal_cleanup (finish ch inst) = unwrap_or (ch_cleanup ch)
     \<lparr>tc_delete_all_fibers = False, tc_delete_all_joins = False, tc_cancel_jobs = False\<rparr>"
  "tr_concurrency_mutations (finish ch inst) = ch_concurrency_mutations ch"
  "tr_control_stack_deltas (finish ch inst) = ch_control_stack_deltas ch"
  by (simp_all add: finish_eq transition_new_def)

lemma fold_push_mutation:
  "fold (\<lambda>a. push_mutation (g a)) as ch =
     ch\<lparr>ch_concurrency_mutations := ch_concurrency_mutations ch @ map g as\<rparr>"
  by (induction as arbitrary: ch) (simp_all add: push_mutation_def)

lemma fold_push_delete:
  "fold push_delete is ch = ch\<lparr>ch_fibers_delete := ch_fibers_delete ch @ is\<rparr>"
  by (induction "is" arbitrary: ch) (simp_all add: push_delete_def)

lemma fold_push_job_mutation:
  "fold push_job_mutation ms ch = ch\<lparr>ch_job_mutations := ch_job_mutations ch @ ms\<rparr>"
  by (induction ms arbitrary: ch) (simp_all add: push_job_mutation_def)

section \<open>Records during a transition\<close>

text \<open>The table a transition in progress stands for.\<close>

abbreviation staged_table :: "snapshot \<Rightarrow> changes \<Rightarrow> concurrency_table" where
  "staged_table s ch \<equiv> fold_mutations (ch_concurrency_mutations ch) (sn_concurrency_table s)"

lemma fetch_step_apply:
  "fetch_step h m = Some (Some r) \<Longrightarrow> ct_get (apply_concurrency_mutation m t) h = Some r"
  "fetch_step h m = Some None \<Longrightarrow> \<not> armed_at (apply_concurrency_mutation m t) h r'"
  "fetch_step h m = None \<Longrightarrow> ct_get (apply_concurrency_mutation m t) h = ct_get t h"
  by (cases m; auto simp: fetch_step_def btree_simps armed_at_def split: if_splits)+

lemma fetch_snoc:
  "fetch_record_in_transition s (ch\<lparr>ch_concurrency_mutations := ms @ [m]\<rparr>) h =
     (case fetch_step h m of
        Some r \<Rightarrow> r
      | None \<Rightarrow> fetch_record_in_transition s (ch\<lparr>ch_concurrency_mutations := ms\<rparr>) h)"
  by (simp add: fetch_record_in_transition_def split: option.split)

text \<open>What the newest-first search returns is what the folded table holds; and it returns every
  record that is armed there.\<close>

lemma fetch_staged_aux:
  "(fetch_record_in_transition s (ch\<lparr>ch_concurrency_mutations := ms\<rparr>) h = Some r \<longrightarrow>
      ct_get (fold_mutations ms (sn_concurrency_table s)) h = Some r)
   \<and> (armed_at (fold_mutations ms (sn_concurrency_table s)) h r \<longrightarrow>
      fetch_record_in_transition s (ch\<lparr>ch_concurrency_mutations := ms\<rparr>) h = Some r)"
proof (induction ms rule: rev_induct)
  case Nil
  then show ?case by (simp add: fetch_record_in_transition_def armed_at_def)
next
  case (snoc m ms)
  let ?T = "fold_mutations ms (sn_concurrency_table s)"
  show ?case
  proof (cases "fetch_step h m")
    case None
    then show ?thesis
      using snoc fetch_step_apply(3) [OF None, of ?T]
      unfolding fetch_snoc by (simp add: armed_at_def)
  next
    case (Some q)
    show ?thesis
    proof (cases q)
      case None
      then show ?thesis
        using Some fetch_step_apply(2) [of h m ?T r] unfolding fetch_snoc by simp
    next
      case (Some r')
      then have "ct_get (apply_concurrency_mutation m ?T) h = Some r'"
        using \<open>fetch_step h m = Some q\<close> fetch_step_apply(1) by simp
      then show ?thesis
        using \<open>fetch_step h m = Some q\<close> Some unfolding fetch_snoc by (simp add: armed_at_def)
    qed
  qed
qed

lemma fetch_staged: "fetch_record_in_transition s ch h = Some r \<Longrightarrow> ct_get (staged_table s ch) h = Some r"
  using fetch_staged_aux [where s = s and ch = ch and ms = "ch_concurrency_mutations ch" and h = h and r = r]
  by simp

lemma fetch_armed: "armed_at (staged_table s ch) h r \<Longrightarrow> fetch_record_in_transition s ch h = Some r"
  using fetch_staged_aux [where s = s and ch = ch and ms = "ch_concurrency_mutations ch" and h = h and r = r]
  by simp

lemma armed_ids:
  "i \<in> set (armed_record_ids_in_transition s ch) \<longleftrightarrow> (\<exists>r. armed_at (staged_table s ch) i r)"
  unfolding armed_record_ids_in_transition_def armed_at_def ct_get_def
  by (force simp: bt_entries_mem [symmetric])

section \<open>Ancestor reconciliation\<close>

lemma apply_membership_op_fields [simp]:
  "rec_id (apply_membership_op p r) = rec_id r"
  "rec_kind (apply_membership_op p r) = rec_kind r"
  "rec_state (apply_membership_op p r) = rec_state r"
  "rec_counters (apply_membership_op p r) = rec_counters r"
  by (cases p; simp)+

lemma fold_membership_fields [simp]:
  "rec_id (fold apply_membership_op ps r) = rec_id r"
  "rec_kind (fold apply_membership_op ps r) = rec_kind r"
  "rec_state (fold apply_membership_op ps r) = rec_state r"
  "rec_counters (fold apply_membership_op ps r) = rec_counters r"
  by (induction ps arbitrary: r) simp_all

lemma members_fold_ops:
  assumes "{i. Add i \<in> set ps} \<inter> {i. Remove i \<in> set ps} = {}"
  shows "bs_set (rec_members (fold apply_membership_op ps r)) =
    (bs_set (rec_members r) - {i. Remove i \<in> set ps}) \<union> {i. Add i \<in> set ps}"
  using assms
proof (induction ps arbitrary: r)
  case (Cons p ps)
  then have ih: "bs_set (rec_members (fold apply_membership_op ps (apply_membership_op p r))) =
     (bs_set (rec_members (apply_membership_op p r)) - {i. Remove i \<in> set ps}) \<union> {i. Add i \<in> set ps}"
    by (auto intro!: Cons.IH)
  have "bs_set (rec_members (fold apply_membership_op (p # ps) r)) =
     (bs_set (rec_members (apply_membership_op p r)) - {i. Remove i \<in> set ps}) \<union> {i. Add i \<in> set ps}"
    by (simp only: fold_simps ih)
  then show ?case
    using Cons.prems by (cases p) auto
qed simp

definition ops_for :: "record_id \<Rightarrow> (record_id \<times> membership_op) list \<Rightarrow> membership_op list" where
  "ops_for h ops = map snd (filter (\<lambda>p. fst p = h) ops)"

lemma ops_for_simps [simp]:
  "ops_for h [] = []"
  "ops_for h (p # ops) = (if fst p = h then snd p # ops_for h ops else ops_for h ops)"
  "ops_for h (ops @ ops') = ops_for h ops @ ops_for h ops'"
  by (simp_all add: ops_for_def)

lemma ops_for_mem: "p \<in> set (ops_for h ops) \<longleftrightarrow> (h, p) \<in> set ops"
  by (force simp: ops_for_def)

text \<open>The record a reconciliation works on.\<close>

definition base_record :: "snapshot \<Rightarrow> record_id bset \<Rightarrow> changes \<Rightarrow> record_id \<Rightarrow> concurrency_record option" where
  "base_record s ex ch h = (if bs_contains ex h then None else fetch_record_in_transition s ch h)"

lemma touched_get:
  "bt_get (fold (reconcile_step s ex ch) ops bt_empty) h =
     (if ops_for h ops = [] then None
      else map_option (fold apply_membership_op (ops_for h ops)) (base_record s ex ch h))"
proof (induction ops rule: rev_induct)
  case (snoc p ops)
  obtain k q where p: "p = (k, q)" by (cases p)
  let ?t = "fold (reconcile_step s ex ch) ops bt_empty"
  have step: "bt_get (reconcile_step s ex ch (k, q) ?t) h =
      (if bs_contains ex k then bt_get ?t h
       else case (case bt_get ?t k of Some r \<Rightarrow> Some r | None \<Rightarrow> fetch_record_in_transition s ch k) of
              None \<Rightarrow> bt_get ?t h
            | Some r \<Rightarrow> if h = k then Some (apply_membership_op q r) else bt_get ?t h)"
    by (auto simp: reconcile_step_def bt_get_insert split: option.splits)
  show ?case
  proof (cases "k = h")
    case True
    then show ?thesis
      using snoc.IH step
      by (cases "fetch_record_in_transition s ch h")
         (auto simp: p base_record_def split: option.splits if_splits)
  next
    case False
    then show ?thesis
      using snoc.IH step by (auto simp: p split: option.splits if_splits)
  qed
qed simp

lemma ct_get_fold_inserts:
  assumes "\<And>k r. bt_get m k = Some r \<Longrightarrow> rec_id r = k"
  shows "ct_get (fold_mutations (map CM_Insert (bt_values m)) t) h =
    (case bt_get m h of Some r \<Rightarrow> Some r | None \<Rightarrow> ct_get t h)"
proof -
  have "ct_get (fold_mutations (map CM_Insert (map snd es)) t) h =
      (case map_of es h of Some r \<Rightarrow> Some r | None \<Rightarrow> ct_get t h)"
    if "\<forall>(k, r) \<in> set es. rec_id r = k" "distinct (map fst es)" for es
    using that
  proof (induction es arbitrary: t)
    case (Cons e es)
    obtain k r where e: "e = (k, r)" by (cases e)
    have k: "rec_id r = k" and rest: "\<forall>(k, r) \<in> set es. rec_id r = k" "distinct (map fst es)"
      and fresh: "map_of es k = None"
      using Cons.prems e by (auto simp: map_of_eq_None_iff)
    show ?case
      using Cons.IH [OF rest, of "ct_insert r t"] k fresh
      by (auto simp: e btree_simps split: option.split)
  qed simp
  note entries = this
  have "\<forall>(k, r) \<in> set (bt_entries m). rec_id r = k"
    using assms by (auto simp: bt_entries_mem)
  from entries [OF this] show ?thesis
    by (simp add: bt_values_def bt_get_def al_wf_distinct)
qed

text \<open>After a reconciliation each touched handle holds its record with the operations applied.\<close>

lemma reconcile_mutations:
  "\<exists>ms. v2_reconcile_ancestor_membership s ops ex ch =
     ch\<lparr>ch_concurrency_mutations := ch_concurrency_mutations ch @ ms\<rparr>"
  unfolding v2_reconcile_ancestor_membership_def Let_def fold_push_mutation by blast

lemma reconcile_get:
  assumes wf: "ct_wf (sn_concurrency_table s)"
  shows "ct_get (staged_table s (v2_reconcile_ancestor_membership s ops ex ch)) h =
    (case (if ops_for h ops = [] then None else base_record s ex ch h) of
       Some r \<Rightarrow> Some (fold apply_membership_op (ops_for h ops) r)
     | None \<Rightarrow> ct_get (staged_table s ch) h)"
proof -
  let ?m = "fold (reconcile_step s ex ch) ops bt_empty"
  have key: "rec_id r = k" if "bt_get ?m k = Some r" for k r
  proof -
    have "map_option (fold apply_membership_op (ops_for k ops)) (base_record s ex ch k) = Some r"
      using that unfolding touched_get by (simp split: if_splits)
    then obtain r0 where "base_record s ex ch k = Some r0"
      "r = fold apply_membership_op (ops_for k ops) r0" by auto
    then have "fetch_record_in_transition s ch k = Some r0" "rec_id r = rec_id r0"
      by (auto simp: base_record_def split: if_splits)
    then have "ct_get (staged_table s ch) k = Some r0" "rec_id r = rec_id r0"
      using fetch_staged by auto
    then show ?thesis using ct_wf_fold [OF wf] unfolding ct_wf_iff by metis
  qed
  have "ct_get (staged_table s (v2_reconcile_ancestor_membership s ops ex ch)) h =
      ct_get (fold_mutations (map CM_Insert (bt_values ?m)) (staged_table s ch)) h"
    by (simp add: v2_reconcile_ancestor_membership_def Let_def fold_push_mutation)
  also have "\<dots> = (case bt_get ?m h of Some r \<Rightarrow> Some r | None \<Rightarrow> ct_get (staged_table s ch) h)"
    using key by (rule ct_get_fold_inserts)
  finally show ?thesis
    by (auto simp: touched_get split: option.split)
qed

end
