(* ===== verification/Preservation.thy ===== *)
theory Preservation
  imports ScopeLaws
begin

text \<open>
  Every word of the interpreter keeps K-1, K-2 and K-3. The invariant \<open>tick_ok\<close> is about the frame
  the transition in progress stands for (the snapshot with the staged changes and the running
  fiber folded in); \<open>word_ok\<close> collects what a word relies on: fresh identities, and the nesting
  facts that the program verifier establishes.
\<close>

section \<open>K-1 and K-2 as one equation\<close>

definition member_rel :: "concurrency_table \<Rightarrow> (uuid \<times> record_id) set" where
  "member_rel table = {(m, h). \<exists>r. armed_at table h r \<and> m \<in> bs_set (rec_members r)}"

definition holds_rel :: "(uuid, fiber) btree \<Rightarrow> (uuid \<times> record_id) set" where
  "holds_rel fibers = {(m, h). \<exists>f. bt_get fibers m = Some f \<and> h \<in> set (effective_control_stack f)}"

lemma K12_iff: "K1 fibers table \<and> K2 fibers table \<longleftrightarrow> member_rel table = holds_rel fibers"
proof
  assume k: "K1 fibers table \<and> K2 fibers table"
  show "member_rel table = holds_rel fibers"
  proof (intro set_eqI iffI)
    fix p assume "p \<in> member_rel table"
    then obtain m h r where p: "p = (m, h)" and a: "armed_at table h r" "m \<in> bs_set (rec_members r)"
      unfolding member_rel_def by auto
    then obtain f where "bt_get fibers m = Some f" using k unfolding K1_def by blast
    then show "p \<in> holds_rel fibers"
      using k a p unfolding K2_def holds_rel_def by blast
  next
    fix p assume "p \<in> holds_rel fibers"
    then show "p \<in> member_rel table"
      using k unfolding K2_def holds_rel_def member_rel_def by blast
  qed
next
  assume eq: "member_rel table = holds_rel fibers"
  have "(\<exists>r. armed_at table h r \<and> m \<in> bs_set (rec_members r)) \<longleftrightarrow>
        (\<exists>f. bt_get fibers m = Some f \<and> h \<in> set (effective_control_stack f))" for m h
    using eq unfolding member_rel_def holds_rel_def set_eq_iff by auto
  then show "K1 fibers table \<and> K2 fibers table"
    unfolding K1_def K2_def by (metis option.inject)
qed

text \<open>Control stacks are paths of one tree: a handle that is on two stacks has the same handles
  below it on both.\<close>

definition coherent :: "'a list \<Rightarrow> 'a list \<Rightarrow> bool" where
  "coherent xs ys \<longleftrightarrow>
     (\<forall>i < length xs. \<forall>j < length ys. xs ! i = ys ! j \<longrightarrow> take (Suc i) xs = take (Suc j) ys)"

definition stacks_coherent :: "(uuid, fiber) btree \<Rightarrow> bool" where
  "stacks_coherent fibers \<longleftrightarrow>
     (\<forall>f \<in> set (bt_values fibers). \<forall>g \<in> set (bt_values fibers).
        coherent (effective_control_stack f) (effective_control_stack g))"

text \<open>A frame that satisfies the three theorems, with well-keyed maps and coherent stacks.\<close>

definition frame_inv :: "(uuid, fiber) btree \<Rightarrow> concurrency_table \<Rightarrow> bool" where
  "frame_inv fibers table \<longleftrightarrow>
     fibers_wf fibers \<and> ct_wf table \<and> stacks_coherent fibers
     \<and> member_rel table = holds_rel fibers \<and> K3 table"

lemma frame_inv_K: "frame_inv fibers table \<Longrightarrow> check_k_invariants fibers table = Inr ()"
  unfolding frame_inv_def check_k_iff using K12_iff by blast

section \<open>Coherent stacks\<close>

lemma coherentD:
  "coherent xs ys \<Longrightarrow> i < length xs \<Longrightarrow> j < length ys \<Longrightarrow> xs ! i = ys ! j \<Longrightarrow> i = j \<and> take i xs = take i ys"
proof -
  assume a: "coherent xs ys" "i < length xs" "j < length ys" "xs ! i = ys ! j"
  then have t: "take (Suc i) xs = take (Suc j) ys" unfolding coherent_def by blast
  then have "length (take (Suc i) xs) = length (take (Suc j) ys)" by simp
  then have "i = j" using a(2,3) by simp
  then show ?thesis using t a(2,3) by (simp add: take_Suc_conv_app_nth)
qed

lemma coherent_sym: "coherent xs ys \<Longrightarrow> coherent ys xs"
  unfolding coherent_def by metis

lemma coherent_distinct: "coherent xs xs \<Longrightarrow> distinct xs"
  using coherentD unfolding distinct_conv_nth by blast

lemma coherent_prefix: "coherent (xs @ zs) ys \<Longrightarrow> coherent xs ys"
  unfolding coherent_def by (auto simp: nth_append split: if_splits)

lemma coherent_push: "coherent xs ys \<Longrightarrow> i \<notin> set ys \<Longrightarrow> coherent (xs @ [i]) ys"
  unfolding coherent_def by (auto simp: nth_append less_Suc_eq)

lemma coherent_push_self:
  assumes "coherent xs xs" "i \<notin> set xs"
  shows "coherent (xs @ [i]) (xs @ [i])"
  unfolding coherent_def
proof (intro allI impI)
  fix a b assume a: "a < length (xs @ [i])" "b < length (xs @ [i])" "(xs @ [i]) ! a = (xs @ [i]) ! b"
  show "take (Suc a) (xs @ [i]) = take (Suc b) (xs @ [i])"
  proof (cases "a < length xs \<and> b < length xs")
    case True
    then have "xs ! a = xs ! b" using a(3) by (simp add: nth_append)
    then have "a = b" using coherentD [OF assms(1), of a b] True by simp
    then show ?thesis by simp
  next
    case False
    have "a = b"
      using False a assms(2) nth_mem [of a xs] nth_mem [of b xs]
      by (auto simp: nth_append less_Suc_eq split: if_splits)
    then show ?thesis by simp
  qed
qed

lemma stacks_coherentD:
  "stacks_coherent fibers \<Longrightarrow> bt_get fibers m = Some f \<Longrightarrow> bt_get fibers n = Some g
     \<Longrightarrow> coherent (effective_control_stack f) (effective_control_stack g)"
  unfolding stacks_coherent_def Ball_def bt_values_mem by blast

text \<open>A stack that fits beside those of a snapshot.\<close>

definition stack_ok :: "snapshot \<Rightarrow> record_id list \<Rightarrow> bool" where
  "stack_ok s xs \<longleftrightarrow> stacks_coherent (sn_fibers s) \<and> coherent xs xs \<and>
     list_all (\<lambda>g. coherent xs (effective_control_stack g)) (bt_values (sn_fibers s))"

definition unheld :: "snapshot \<Rightarrow> record_id \<Rightarrow> bool" where
  "unheld s i \<longleftrightarrow> list_all (\<lambda>g. i \<notin> set (effective_control_stack g)) (bt_values (sn_fibers s))"

lemma stack_ok_prefix: "stack_ok s (xs @ zs) \<Longrightarrow> stack_ok s xs"
  unfolding stack_ok_def list_all_iff
  by (blast intro: coherent_prefix coherent_sym)

lemma stack_ok_push: "stack_ok s xs \<Longrightarrow> i \<notin> set xs \<Longrightarrow> unheld s i \<Longrightarrow> stack_ok s (xs @ [i])"
  unfolding stack_ok_def unheld_def list_all_iff
  by (blast intro: coherent_push coherent_push_self)

lemma stack_ok_distinct: "stack_ok s xs \<Longrightarrow> distinct xs"
  unfolding stack_ok_def by (blast intro: coherent_distinct)

text \<open>A frame whose fibers come from the snapshot or hold one new stack.\<close>

lemma stacks_coherent_new:
  assumes "stack_ok s xs"
    "\<And>m g. bt_get fibers m = Some g \<Longrightarrow> (\<exists>n. bt_get (sn_fibers s) n = Some g) \<or> effective_control_stack g = xs"
  shows "stacks_coherent fibers"
  unfolding stacks_coherent_def
proof (intro ballI)
  fix f g assume fg: "f \<in> set (bt_values fibers)" "g \<in> set (bt_values fibers)"
  have new: "coherent xs (effective_control_stack g)" if "bt_get (sn_fibers s) n = Some g" for n g
    using assms(1) that unfolding stack_ok_def list_all_iff Ball_def bt_values_mem by blast
  have old: "coherent (effective_control_stack f) (effective_control_stack g)"
    if "bt_get (sn_fibers s) m = Some f" "bt_get (sn_fibers s) n = Some g" for m n f g
    using assms(1) that stacks_coherentD unfolding stack_ok_def by blast
  have self: "coherent xs xs" using assms(1) unfolding stack_ok_def by blast
  obtain m n where "bt_get fibers m = Some f" "bt_get fibers n = Some g"
    using fg unfolding bt_values_mem by blast
  then consider "(\<exists>m. bt_get (sn_fibers s) m = Some f)" "(\<exists>n. bt_get (sn_fibers s) n = Some g)"
    | "effective_control_stack f = xs" "(\<exists>n. bt_get (sn_fibers s) n = Some g)"
    | "(\<exists>m. bt_get (sn_fibers s) m = Some f)" "effective_control_stack g = xs"
    | "effective_control_stack f = xs" "effective_control_stack g = xs"
    using assms(2) by blast
  then show "coherent (effective_control_stack f) (effective_control_stack g)"
    by cases (use new old self in \<open>auto intro: coherent_sym\<close>)
qed

section \<open>The frame of a tick in progress\<close>

definition live_fibers :: "snapshot \<Rightarrow> tick_state \<Rightarrow> (uuid, fiber) btree" where
  "live_fibers s ts =
     apply_fiber_deltas (sn_fibers s) (ch_fibers_upsert (tk_changes ts) @ [tk_fiber ts])
       (ch_fibers_delete (tk_changes ts)) False"

definition tick_ok :: "snapshot \<Rightarrow> tick_state \<Rightarrow> bool" where
  "tick_ok s ts \<longleftrightarrow>
     fibers_wf (sn_fibers s) \<and> ct_wf (sn_concurrency_table s)
     \<and> stack_ok s (fb_control_stack (tk_fiber ts))
     \<and> ch_fibers_upsert (tk_changes ts) = [] \<and> ch_cleanup (tk_changes ts) = None
     \<and> fb_id (tk_fiber ts) \<notin> set (ch_fibers_delete (tk_changes ts))
     \<and> fb_wait (tk_fiber ts) = W_Running
     \<and> frame_inv (live_fibers s ts) (staged_table s (tk_changes ts))"

text \<open>The frame after a finished transition.\<close>

definition post_ok :: "snapshot \<Rightarrow> transition \<Rightarrow> bool" where
  "post_ok s t \<longleftrightarrow>
     (case derive_post_transition_frame s t of (fibers, table) \<Rightarrow> frame_inv fibers table)"

lemma live_get:
  assumes "tick_ok s ts"
  shows "bt_get (live_fibers s ts) i =
    (if i \<in> set (ch_fibers_delete (tk_changes ts)) then None
     else if i = fb_id (tk_fiber ts) then Some (tk_fiber ts) else bt_get (sn_fibers s) i)"
  using assms unfolding live_fibers_def tick_ok_def get_fiber_deltas by auto

lemma live_wf: "fibers_wf (sn_fibers s) \<Longrightarrow> fibers_wf (live_fibers s ts)"
  unfolding live_fibers_def by (rule fibers_wf_deltas)

text \<open>What the other live fibers hold does not change with the running fiber.\<close>

definition others :: "snapshot \<Rightarrow> uuid list \<Rightarrow> uuid \<Rightarrow> (uuid \<times> record_id) set" where
  "others s dels self =
     {(m, h). m \<noteq> self \<and> m \<notin> set dels \<and>
        (\<exists>f. bt_get (sn_fibers s) m = Some f \<and> h \<in> set (effective_control_stack f))}"

lemma holds_live:
  assumes "tick_ok s ts"
  shows "holds_rel (live_fibers s ts) =
    others s (ch_fibers_delete (tk_changes ts)) (fb_id (tk_fiber ts))
    \<union> {fb_id (tk_fiber ts)} \<times> set (fb_control_stack (tk_fiber ts))"
proof -
  have eff: "effective_control_stack (tk_fiber ts) = fb_control_stack (tk_fiber ts)"
    using assms by (simp add: tick_ok_def effective_control_stack_def)
  have own: "fb_id (tk_fiber ts) \<notin> set (ch_fibers_delete (tk_changes ts))"
    using assms by (simp add: tick_ok_def)
  show ?thesis
    unfolding holds_rel_def others_def live_get [OF assms] using own eff by (auto split: if_splits)
qed

text \<open>The fibers of a frame given by one upserted fiber and a list of deletions.\<close>

lemma holds_one_upsert:
  assumes "fb_id f \<notin> set dels"
  shows "holds_rel (apply_fiber_deltas (sn_fibers s) [f] dels False) =
    others s dels (fb_id f) \<union> {fb_id f} \<times> set (effective_control_stack f)"
  unfolding holds_rel_def others_def get_fiber_deltas using assms by (auto split: if_splits)

lemma holds_no_upsert:
  "holds_rel (apply_fiber_deltas (sn_fibers s) [] (dels @ [i]) False) = others s dels i"
  unfolding holds_rel_def others_def get_fiber_deltas by (auto split: if_splits)

lemma coherent_one_upsert:
  assumes "stack_ok s (effective_control_stack f)"
  shows "stacks_coherent (apply_fiber_deltas (sn_fibers s) [f] dels False)"
proof (rule stacks_coherent_new [OF assms])
  fix m g assume "bt_get (apply_fiber_deltas (sn_fibers s) [f] dels False) m = Some g"
  then show "(\<exists>n. bt_get (sn_fibers s) n = Some g) \<or> effective_control_stack g = effective_control_stack f"
    unfolding get_fiber_deltas by (auto split: if_splits)
qed

section \<open>Establishing the invariant\<close>

lemma tick_ok_parts:
  assumes "tick_ok s ts"
  shows "fibers_wf (sn_fibers s)" "ct_wf (sn_concurrency_table s)"
    "ch_fibers_upsert (tk_changes ts) = []" "ch_cleanup (tk_changes ts) = None"
    "fb_id (tk_fiber ts) \<notin> set (ch_fibers_delete (tk_changes ts))"
    "fb_wait (tk_fiber ts) = W_Running"
    "stack_ok s (fb_control_stack (tk_fiber ts))"
    "K3 (staged_table s (tk_changes ts))"
    "distinct (fb_control_stack (tk_fiber ts))"
    "member_rel (staged_table s (tk_changes ts)) =
       others s (ch_fibers_delete (tk_changes ts)) (fb_id (tk_fiber ts))
       \<union> {fb_id (tk_fiber ts)} \<times> set (fb_control_stack (tk_fiber ts))"
proof -
  show "distinct (fb_control_stack (tk_fiber ts))"
    using assms by (auto simp: tick_ok_def intro: stack_ok_distinct)
  show "member_rel (staged_table s (tk_changes ts)) =
       others s (ch_fibers_delete (tk_changes ts)) (fb_id (tk_fiber ts))
       \<union> {fb_id (tk_fiber ts)} \<times> set (fb_control_stack (tk_fiber ts))"
    using assms holds_live [OF assms] by (simp add: tick_ok_def frame_inv_def)
qed (use assms in \<open>simp_all add: tick_ok_def frame_inv_def\<close>)

lemma tick_okI:
  assumes ok: "tick_ok s ts"
    and id: "fb_id (tk_fiber ts') = fb_id (tk_fiber ts)"
    and run: "fb_wait (tk_fiber ts') = W_Running"
    and ups: "ch_fibers_upsert (tk_changes ts') = []" "ch_cleanup (tk_changes ts') = None"
    and dels: "set (ch_fibers_delete (tk_changes ts)) \<subseteq> set (ch_fibers_delete (tk_changes ts'))"
      "fb_id (tk_fiber ts) \<notin> set (ch_fibers_delete (tk_changes ts'))"
    and stack: "stack_ok s (fb_control_stack (tk_fiber ts'))"
    and mem: "member_rel (staged_table s (tk_changes ts')) =
       others s (ch_fibers_delete (tk_changes ts')) (fb_id (tk_fiber ts))
       \<union> {fb_id (tk_fiber ts)} \<times> set (fb_control_stack (tk_fiber ts'))"
    and k3: "K3 (staged_table s (tk_changes ts'))"
  shows "tick_ok s ts'"
proof -
  note parts = tick_ok_parts [OF ok]
  have eff: "effective_control_stack (tk_fiber ts') = fb_control_stack (tk_fiber ts')"
    using run by (simp add: effective_control_stack_def)
  have live: "live_fibers s ts' =
      apply_fiber_deltas (sn_fibers s) [tk_fiber ts'] (ch_fibers_delete (tk_changes ts')) False"
    using ups by (simp add: live_fibers_def)
  have holds: "holds_rel (live_fibers s ts') = member_rel (staged_table s (tk_changes ts'))"
    unfolding live mem using holds_one_upsert [of "tk_fiber ts'" "ch_fibers_delete (tk_changes ts')" s]
      dels(2) id eff by simp
  have sd: "stacks_coherent (live_fibers s ts')"
    unfolding live using coherent_one_upsert [of s "tk_fiber ts'"] stack eff by simp
  have "frame_inv (live_fibers s ts') (staged_table s (tk_changes ts'))"
    unfolding frame_inv_def using live_wf [OF parts(1)] ct_wf_fold [OF parts(2)] sd holds k3 by simp
  then show ?thesis
    unfolding tick_ok_def using parts(1,2) ups dels id run stack by simp
qed

lemma post_frameI:
  assumes wf: "fibers_wf (sn_fibers s)" "ct_wf (sn_concurrency_table s)"
    and t: "tr_fibers_upsert t = [f]" "\<not> tc_delete_all_fibers (tr_terminal_cleanup t)"
    and own: "fb_id f \<notin> set (tr_fibers_delete t)"
    and stack: "stack_ok s (effective_control_stack f)"
    and mem: "member_rel (fold_mutations (tr_concurrency_mutations t) (sn_concurrency_table s)) =
       others s (tr_fibers_delete t) (fb_id f) \<union> {fb_id f} \<times> set (effective_control_stack f)"
    and k3: "K3 (fold_mutations (tr_concurrency_mutations t) (sn_concurrency_table s))"
  shows "post_ok s t"
  unfolding post_ok_def derive_post_transition_frame_def frame_inv_def
  using t fibers_wf_deltas [OF wf(1)] ct_wf_fold [OF wf(2)] k3 coherent_one_upsert [OF stack]
    holds_one_upsert [OF own] mem by simp

lemma post_okI:
  assumes ok: "tick_ok s ts"
    and t: "tr_fibers_upsert t = [f]" "\<not> tc_delete_all_fibers (tr_terminal_cleanup t)"
    and id: "fb_id f = fb_id (tk_fiber ts)"
    and dels: "fb_id (tk_fiber ts) \<notin> set (tr_fibers_delete t)"
    and stack: "stack_ok s (effective_control_stack f)"
    and mem: "member_rel (fold_mutations (tr_concurrency_mutations t) (sn_concurrency_table s)) =
       others s (tr_fibers_delete t) (fb_id (tk_fiber ts))
       \<union> {fb_id (tk_fiber ts)} \<times> set (effective_control_stack f)"
    and k3: "K3 (fold_mutations (tr_concurrency_mutations t) (sn_concurrency_table s))"
  shows "post_ok s t"
  by (rule post_frameI [OF tick_ok_parts(1,2) [OF ok] t]) (simp_all add: id dels stack mem k3)

text \<open>Words that leave the control stack and the records alone.\<close>

lemma tick_ok_same:
  assumes "tick_ok s ts" "fb_id (tk_fiber ts') = fb_id (tk_fiber ts)"
    "fb_wait (tk_fiber ts') = W_Running"
    "fb_control_stack (tk_fiber ts') = fb_control_stack (tk_fiber ts)"
    "ch_fibers_upsert (tk_changes ts') = []" "ch_cleanup (tk_changes ts') = None"
    "ch_fibers_delete (tk_changes ts') = ch_fibers_delete (tk_changes ts)"
    "ch_concurrency_mutations (tk_changes ts') = ch_concurrency_mutations (tk_changes ts)"
  shows "tick_ok s ts'"
  using tick_ok_parts [OF assms(1)] assms by (intro tick_okI [OF assms(1)]) simp_all

lemma post_ok_same:
  assumes "tick_ok s ts" "tr_fibers_upsert t = [f]" "\<not> tc_delete_all_fibers (tr_terminal_cleanup t)"
    "fb_id f = fb_id (tk_fiber ts)" "effective_control_stack f = fb_control_stack (tk_fiber ts)"
    "tr_fibers_delete t = ch_fibers_delete (tk_changes ts)"
    "tr_concurrency_mutations t = ch_concurrency_mutations (tk_changes ts)"
  shows "post_ok s t"
  using tick_ok_parts [OF assms(1)] assms by (intro post_okI [OF assms(1-4)]) simp_all

section \<open>Table changes\<close>

lemma armed_insert:
  "armed_at (ct_insert r t) h r' \<longleftrightarrow> (if h = rec_id r then r' = r \<and> rec_state r = Armed else armed_at t h r')"
  by (auto simp: armed_at_def btree_simps)

lemma armed_retire: "armed_at (ct_retire i t) h r \<longleftrightarrow> h \<noteq> i \<and> armed_at t h r"
  by (auto simp: armed_at_def btree_simps)

lemma member_insert:
  "rec_state r = Armed \<Longrightarrow> member_rel (ct_insert r t) =
     (member_rel t - UNIV \<times> {rec_id r}) \<union> bs_set (rec_members r) \<times> {rec_id r}"
  unfolding member_rel_def armed_insert by (auto split: if_splits)

lemma member_retire: "member_rel (ct_retire i t) = member_rel t - UNIV \<times> {i}"
  unfolding member_rel_def armed_retire by auto

lemma K3_insert:
  "K3 t \<Longrightarrow> (rec_state r = Armed \<and> rec_kind r = RK_Barrier \<Longrightarrow>
      0 < ct_count (rec_counters r) \<and> ct_count (rec_counters r) \<le> ct_arity (rec_counters r))
   \<Longrightarrow> K3 (ct_insert r t)"
  unfolding K3_def armed_insert by (auto split: if_splits)

lemma K3_retire: "K3 t \<Longrightarrow> K3 (ct_retire i t)"
  unfolding K3_def armed_retire by blast

lemma staged_push [simp]:
  "staged_table s (ch\<lparr>ch_concurrency_mutations := ch_concurrency_mutations ch @ [m]\<rparr>) =
     apply_concurrency_mutation m (staged_table s ch)"
  by simp

text \<open>A handle that names no record is on no live stack.\<close>

lemma fresh_not_held:
  assumes "tick_ok s ts" "ct_get (staged_table s (tk_changes ts)) h = None"
  shows "(m, h) \<notin> others s (ch_fibers_delete (tk_changes ts)) (fb_id (tk_fiber ts))"
    and "h \<notin> set (fb_control_stack (tk_fiber ts))"
proof -
  have "(m, h) \<notin> member_rel (staged_table s (tk_changes ts))" for m
    using assms(2) by (simp add: member_rel_def armed_at_def)
  then have "(m, h) \<notin> others s (ch_fibers_delete (tk_changes ts)) (fb_id (tk_fiber ts))
      \<union> {fb_id (tk_fiber ts)} \<times> set (fb_control_stack (tk_fiber ts))" for m
    using tick_ok_parts(10) [OF assms(1)] by simp
  then show "(m, h) \<notin> others s (ch_fibers_delete (tk_changes ts)) (fb_id (tk_fiber ts))"
    and "h \<notin> set (fb_control_stack (tk_fiber ts))" by auto
qed

section \<open>Words that touch no scope\<close>

definition step_ok :: "snapshot \<Rightarrow> step_result \<Rightarrow> bool" where
  "step_ok s r = (case r of Next ts' \<Rightarrow> tick_ok s ts' | Done t \<Rightarrow> post_ok s t)"

lemma step_ok_simps [simp]:
  "step_ok s (Next ts') = tick_ok s ts'" "step_ok s (Done t) = post_ok s t"
  by (simp_all add: step_ok_def)

named_theorems word_defs \<open>definitions of the interpreter's helpers\<close>

lemmas [word_defs] =
  goto_def advance_def park_def upd_changes_def push_value_def pop_value_def bump_pc_def
  push_arm_def step_ok_def

lemma park_ok:
  assumes "park ts f = Inr r" "tick_ok s ts" "fb_id f = fb_id (tk_fiber ts)"
    "effective_control_stack f = fb_control_stack (tk_fiber ts)"
  shows "step_ok s r"
proof -
  have r: "r = Done (finish (push_upsert f (tk_changes ts)) (tk_instance ts))"
    using assms(1) by (simp add: park_def)
  show ?thesis
    unfolding r step_ok_simps
    by (rule post_ok_same [OF assms(2)])
       (use assms tick_ok_parts(3,4) [OF assms(2)] in \<open>simp_all add: push_upsert_def unwrap_or_def\<close>)
qed

text \<open>Changes of a state that the invariant does not see.\<close>

lemma tick_ok_push_value: "tick_ok s ts \<Longrightarrow> tick_ok s (push_value v ts)"
  by (rule tick_ok_same) (simp_all add: word_defs tick_ok_parts)

lemma tick_ok_instance: "tick_ok s ts \<Longrightarrow> tick_ok s (ts\<lparr>tk_instance := i\<rparr>)"
  by (rule tick_ok_same) (simp_all add: tick_ok_parts)

lemma tick_ok_arms: "tick_ok s ts \<Longrightarrow> tick_ok s (ts\<lparr>tk_race_arms := a\<rparr>)"
  by (rule tick_ok_same) (simp_all add: tick_ok_parts)

lemma tick_ok_ordinal: "tick_ok s ts \<Longrightarrow> tick_ok s (ts\<lparr>tk_ordinal := n\<rparr>)"
  by (rule tick_ok_same) (simp_all add: tick_ok_parts)

lemma tick_ok_changes:
  assumes "tick_ok s ts" "ch_fibers_upsert (g (tk_changes ts)) = ch_fibers_upsert (tk_changes ts)"
    "ch_cleanup (g (tk_changes ts)) = ch_cleanup (tk_changes ts)"
    "ch_fibers_delete (g (tk_changes ts)) = ch_fibers_delete (tk_changes ts)"
    "ch_concurrency_mutations (g (tk_changes ts)) = ch_concurrency_mutations (tk_changes ts)"
  shows "tick_ok s (upd_changes g ts)"
  by (rule tick_ok_same [OF assms(1)]) (use assms tick_ok_parts in \<open>simp_all add: word_defs\<close>)

lemma tick_ok_fiber:
  assumes "tick_ok s ts" "fb_id f = fb_id (tk_fiber ts)" "fb_wait f = fb_wait (tk_fiber ts)"
    "fb_control_stack f = fb_control_stack (tk_fiber ts)"
  shows "tick_ok s (ts\<lparr>tk_fiber := f\<rparr>)"
  by (rule tick_ok_same [OF assms(1)]) (use assms tick_ok_parts in \<open>simp_all add: word_defs\<close>)

lemma goto_ok: "goto ts a = Inr r \<Longrightarrow> tick_ok s ts \<Longrightarrow> step_ok s r"
  by (auto simp: word_defs intro!: tick_ok_fiber)

lemma advance_ok: "advance ts = Inr r \<Longrightarrow> tick_ok s ts \<Longrightarrow> step_ok s r"
  by (auto simp: word_defs intro!: tick_ok_fiber)

lemmas tick_ok_intros =
  tick_ok_push_value tick_ok_instance tick_ok_arms tick_ok_ordinal tick_ok_changes tick_ok_fiber

lemma pop_value_ok: "pop_value word ts = Inr (v, ts') \<Longrightarrow> tick_ok s ts \<Longrightarrow> tick_ok s ts'"
  by (auto simp: pop_value_def split: option.splits intro!: tick_ok_fiber)

lemma pop_value_fiber:
  "pop_value word ts = Inr (v, ts') \<Longrightarrow>
     fb_id (tk_fiber ts') = fb_id (tk_fiber ts) \<and> tk_changes ts' = tk_changes ts
     \<and> fb_control_stack (tk_fiber ts') = fb_control_stack (tk_fiber ts)
     \<and> fb_wait (tk_fiber ts') = fb_wait (tk_fiber ts)"
  by (auto simp: pop_value_def split: option.splits)

lemma fail_contract_ok:
  assumes "tick_ok s ts"
    "fail_contract x (tk_instance ts) (tk_fiber ts) (tk_changes ts) cx message = Inr t"
  shows "post_ok s t"
proof -
  obtain at where at: "logical_timestamp cx = Inr at"
    using assms(2) by (auto simp: fail_contract_def Let_def elim: try_resE)
  let ?f = "(tk_fiber ts)\<lparr>fb_wait := W_Incident (derived_id x cx 0)\<rparr>"
  show ?thesis
    by (rule post_ok_same [OF assms(1), of t ?f])
       (use assms at tick_ok_parts(3,4) [OF assms(1)] in
         \<open>auto simp: fail_contract_def Let_def res_simps push_defs unwrap_or_def
            effective_control_stack_def\<close>)
qed

lemma simple_words_ok:
  assumes "tick_ok s ts"
  shows "exec_branch b target ts = Inr r \<Longrightarrow> step_ok s r"
    "exec_pop ts = Inr r \<Longrightarrow> step_ok s r"
    "exec_load_flag key ts = Inr r \<Longrightarrow> step_ok s r"
    "exec_load_placeholder_match p e ts = Inr r \<Longrightarrow> step_ok s r"
    "exec_mi_index_live flag index ts = Inr r \<Longrightarrow> step_ok s r"
    "exec_mi_load_element flag index ts = Inr r \<Longrightarrow> step_ok s r"
    "exec_mi_arity_check flag mx ts = Inr r \<Longrightarrow> step_ok s r"
    "exec_br_counter_lt counter_id limit target ts = Inr r \<Longrightarrow> step_ok s r"
  subgoal unfolding exec_branch_def
    by (auto elim!: try_resE intro: goto_ok [OF _ pop_value_ok [OF _ assms]]
        advance_ok [OF _ pop_value_ok [OF _ assms]] split: if_splits)
  subgoal unfolding exec_pop_def
    by (auto elim!: try_resE intro: advance_ok [OF _ pop_value_ok [OF _ assms]])
  subgoal unfolding exec_load_flag_def by (rule advance_ok) (auto intro: tick_ok_intros assms)
  subgoal unfolding exec_load_placeholder_match_def by (rule advance_ok) (auto intro: tick_ok_intros assms)
  subgoal unfolding exec_mi_index_live_def by (rule advance_ok) (auto intro: tick_ok_intros assms)
  subgoal unfolding exec_mi_load_element_def
    by (elim try_resE, rule advance_ok) (auto intro: tick_ok_intros assms)
  subgoal unfolding exec_mi_arity_check_def Let_def
    by (auto split: if_splits intro: advance_ok assms)
  subgoal unfolding exec_br_counter_lt_def by (auto split: if_splits intro: advance_ok goto_ok assms)
  done

lemma data_words_ok:
  assumes "tick_ok s ts"
  shows "exec_store_flag key ts = Inr r \<Longrightarrow> step_ok s r"
    "exec_inc_counter counter_id ts = Inr r \<Longrightarrow> step_ok s r"
    "exec_route_zero_match x w cx ts = Inr r \<Longrightarrow> step_ok s r"
    "exec_route_payload x w cx branches dflt ts = Inr r \<Longrightarrow> step_ok s r"
    "exec_fail x cx code ts = Inr r \<Longrightarrow> step_ok s r"
    "exec_publish_message x w cx name ts = Inr r \<Longrightarrow> step_ok s r"
  subgoal unfolding exec_store_flag_def
    by (elim try_resE, clarsimp, erule advance_ok, intro tick_ok_changes tick_ok_instance)
       (use pop_value_ok assms in \<open>auto simp: push_defs\<close>)
  subgoal unfolding exec_inc_counter_def Let_def
    by (erule advance_ok, intro tick_ok_changes tick_ok_instance tick_ok_fiber)
       (use assms in \<open>simp_all add: push_defs tick_ok_fiber tick_ok_instance\<close>)
  subgoal unfolding exec_route_zero_match_def
    by (auto elim!: try_resE intro: fail_contract_ok [OF assms])
  subgoal unfolding exec_route_payload_def Let_def
    by (auto elim!: try_resE intro: fail_contract_ok [OF assms] goto_ok assms split: option.splits)
  subgoal unfolding exec_fail_def
    by (auto elim!: try_resE intro: fail_contract_ok [OF assms])
  subgoal unfolding exec_publish_message_def Let_def
    by (auto elim!: try_resE intro!: tick_ok_changes intro: advance_ok assms simp: push_defs)
  done

lemma job_words_ok:
  assumes "tick_ok s ts"
  shows "park_on_job job_key task sid ts = Inr r \<Longrightarrow> step_ok s r"
    "exec_native x w s task_type retc ts = Inr r \<Longrightarrow> step_ok s r"
    "exec_dsl_task x w s task_type produces ts = Inr r \<Longrightarrow> step_ok s r"
    "exec_ffi x w template_id ts = Inr r \<Longrightarrow> step_ok s r"
    "exec_await_effect x w template_id ts = Inr r \<Longrightarrow> step_ok s r"
proof -
  have park_job: "step_ok s r" if "park_on_job job_key task sid ts = Inr r" for job_key task sid r
    using that unfolding park_on_job_def Let_def
    by (rule park_ok, intro tick_ok_changes)
       (use assms in \<open>simp_all add: push_defs upd_changes_def effective_control_stack_def\<close>)
  have native: "tick_ok s (ts\<lparr>tk_instance := i,
      tk_fiber := (tk_fiber ts)\<lparr>fb_stack := fb_stack (tk_fiber ts) @ vs\<rparr>\<rparr>)" for i vs
    by (rule tick_ok_same [OF assms]) (use tick_ok_parts [OF assms] in simp_all)
  show "park_on_job job_key task sid ts = Inr r \<Longrightarrow> step_ok s r" by (rule park_job)
  show "exec_native x w s task_type retc ts = Inr r \<Longrightarrow> step_ok s r"
    unfolding exec_native_def Let_def
    by (auto elim!: try_resE dest!: park_job advance_ok [OF _ native] split: option.splits)
  show "exec_dsl_task x w s task_type produces ts = Inr r \<Longrightarrow> step_ok s r"
    unfolding exec_dsl_task_def Let_def
    by (auto elim!: try_resE dest!: park_job advance_ok [OF _ tick_ok_instance [OF assms]] split: option.splits)
  have eff: "effective_control_stack ((tk_fiber ts)\<lparr>fb_wait := W_Effect e\<rparr>) = fb_control_stack (tk_fiber ts)" for e
    by (simp add: effective_control_stack_def)
  have park_inv: "step_ok s r"
    if "park (push_invocation x w tid e input ts) ((tk_fiber ts)\<lparr>fb_wait := W_Effect e\<rparr>) = Inr r" for tid e input r
    using that unfolding push_invocation_def Let_def
    by (rule park_ok, intro tick_ok_changes)
       (use assms eff in \<open>simp_all add: push_defs upd_changes_def\<close>)
  show "exec_ffi x w template_id ts = Inr r \<Longrightarrow> step_ok s r"
    unfolding exec_ffi_def Let_def by (auto elim!: try_resE dest!: park_inv)
  show "exec_await_effect x w template_id ts = Inr r \<Longrightarrow> step_ok s r"
    unfolding exec_await_effect_def Let_def by (auto elim!: try_resE dest!: park_inv)
qed

lemma wait_words_ok:
  assumes "tick_ok s ts"
  shows "exec_wait_for x cx ts = Inr r \<Longrightarrow> step_ok s r"
    "exec_wait_until x ts = Inr r \<Longrightarrow> step_ok s r"
    "exec_wait_msg x w s name ts = Inr r \<Longrightarrow> step_ok s r"
proof -
  have timer: "step_ok s r" if "park_on_timer x d ts' = Inr r" "tick_ok s ts'" for d ts' r
    using that unfolding park_on_timer_def Let_def
    by (elim park_ok, intro tick_ok_changes)
       (simp_all add: push_defs upd_changes_def bump_pc_def effective_control_stack_def)
  show "exec_wait_for x cx ts = Inr r \<Longrightarrow> step_ok s r"
    unfolding exec_wait_for_def
    by (auto elim!: try_resE dest!: pop_value_ok [OF _ assms] elim!: timer split: val.splits)
  show "exec_wait_until x ts = Inr r \<Longrightarrow> step_ok s r"
    unfolding exec_wait_until_def
    by (auto elim!: try_resE dest!: pop_value_ok [OF _ assms] elim!: timer split: val.splits)
  have consume: "step_ok s r" if "consume_buffered name corr_key b ts = Inr r" for corr_key b r
    using that unfolding consume_buffered_def Let_def
    by (elim try_resE, erule_tac advance_ok, intro tick_ok_changes tick_ok_instance)
       (use assms in \<open>simp_all add: push_defs\<close>)
  show "exec_wait_msg x w s name ts = Inr r \<Longrightarrow> step_ok s r"
    unfolding exec_wait_msg_def Let_def
  proof (elim try_resE)
    fix k assume r: "(case buffered_match w s name k of
        None \<Rightarrow> park (upd_changes (push_event (Ev_WaitMsgSubscribed (fb_id (tk_fiber ts)) name k)) ts)
                  ((bump_pc (tk_fiber ts))\<lparr>fb_wait := W_Msg 0 name k\<rparr>)
      | Some b \<Rightarrow> consume_buffered name k b ts) = Inr r"
    show "step_ok s r"
    proof (cases "buffered_match w s name k")
      case None
      then have "park (upd_changes (push_event (Ev_WaitMsgSubscribed (fb_id (tk_fiber ts)) name k)) ts)
                  ((bump_pc (tk_fiber ts))\<lparr>fb_wait := W_Msg 0 name k\<rparr>) = Inr r"
        using r by simp
      then show ?thesis
        by (rule park_ok, intro tick_ok_changes)
           (use assms in \<open>simp_all add: push_defs upd_changes_def bump_pc_def effective_control_stack_def\<close>)
    next
      case (Some b)
      then show ?thesis using r consume by simp
    qed
  qed
qed

lemma arm_words_ok:
  assumes "tick_ok s ts"
  shows "exec_guard_arm_timer x s cx ts = Inr r \<Longrightarrow> step_ok s r"
    "exec_guard_timer_cycle max_fires ts = Inr r \<Longrightarrow> step_ok s r"
    "exec_arm_timer x cx target ts = Inr r \<Longrightarrow> step_ok s r"
    "exec_arm_msg x w target name ts = Inr r \<Longrightarrow> step_ok s r"
    "exec_arm_effect x w target template_id ts = Inr r \<Longrightarrow> step_ok s r"
proof -
  have eff: "tick_ok s (upd_changes (push_effect e) ts')" if "tick_ok s ts'" for e ts'
    by (rule tick_ok_changes [OF that]) (simp_all add: push_defs)
  have arm: "tick_ok s (push_arm a ts')" if "tick_ok s ts'" for a ts'
    unfolding push_arm_def by (rule tick_ok_arms [OF that])
  have inv: "tick_ok s (push_invocation x w tid e input ts)" for tid e input
    unfolding push_invocation_def Let_def by (rule tick_ok_changes [OF assms]) (simp_all add: push_defs)
  show "exec_guard_arm_timer x s cx ts = Inr r \<Longrightarrow> step_ok s r"
    unfolding exec_guard_arm_timer_def Let_def
    by (auto elim!: try_resE dest!: pop_value_ok [OF _ assms] elim!: advance_ok [OF _ eff] split: val.splits)
  show "exec_guard_timer_cycle max_fires ts = Inr r \<Longrightarrow> step_ok s r"
    unfolding exec_guard_timer_cycle_def
    by (auto split: option.splits durable_effect.splits timer_kind.splits
        elim!: advance_ok [OF _ tick_ok_changes [OF assms]])
  show "exec_arm_timer x cx target ts = Inr r \<Longrightarrow> step_ok s r"
    unfolding exec_arm_timer_def Let_def
    by (auto elim!: try_resE dest!: pop_value_ok [OF _ assms] elim!: advance_ok [OF _ arm [OF eff]] split: val.splits)
  show "exec_arm_msg x w target name ts = Inr r \<Longrightarrow> step_ok s r"
    unfolding exec_arm_msg_def by (auto elim!: try_resE advance_ok [OF _ arm [OF assms]])
  show "exec_arm_effect x w target template_id ts = Inr r \<Longrightarrow> step_ok s r"
    unfolding exec_arm_effect_def Let_def by (auto elim!: try_resE advance_ok [OF _ arm [OF inv]])
qed

end
