(* ===== verification/ScopeWords.thy ===== *)
theory ScopeWords
  imports Preservation
begin

text \<open>
  The words that open, close and join scopes keep the K-invariants, under the facts collected
  in \<open>word_ok\<close>; hence so does a whole tick.
\<close>

section \<open>What the scope words rely on\<close>

definition top_handle :: "tick_state \<Rightarrow> record_id option" where
  "top_handle ts = vec_last (fb_control_stack (tk_fiber ts))"

text \<open>The next derived identity names no record yet, and is on no stack.\<close>

definition fresh_record :: "ext \<Rightarrow> snapshot \<Rightarrow> deterministic_context \<Rightarrow> tick_state \<Rightarrow> bool" where
  "fresh_record x s cx ts \<longleftrightarrow>
     ct_get (staged_table s (tk_changes ts)) (derived_id x cx (tk_ordinal ts)) = None
     \<and> unheld s (derived_id x cx (tk_ordinal ts))"

text \<open>The running fiber is the only member of the scope it closes.\<close>

definition sole_member :: "snapshot \<Rightarrow> tick_state \<Rightarrow> bool" where
  "sole_member s ts =
     (case top_handle ts of
        None \<Rightarrow> True
      | Some h \<Rightarrow>
          (case ct_get (staged_table s (tk_changes ts)) h of
             None \<Rightarrow> True
           | Some r \<Rightarrow> rec_state r = Armed \<longrightarrow> bs_list (rec_members r) = [fb_id (tk_fiber ts)]))"

text \<open>The fibers a fork creates.\<close>

fun fork_ids :: "ext \<Rightarrow> deterministic_context \<Rightarrow> u32 \<Rightarrow> addr list \<Rightarrow> uuid list" where
  "fork_ids x cx ordinal [] = []"
| "fork_ids x cx ordinal (target # targets) =
     derived_id x cx ordinal # fork_ids x cx (sat_add ordinal 1) targets"

definition fork_ready ::
  "ext \<Rightarrow> snapshot \<Rightarrow> deterministic_context \<Rightarrow> addr list \<Rightarrow> tick_state \<Rightarrow> bool" where
  "fork_ready x s cx targets ts \<longleftrightarrow>
     fresh_record x s cx ts \<and> targets \<noteq> [] \<and> length targets < 2 ^ 32 \<and>
     (let ids = fork_ids x cx (sat_add (tk_ordinal ts) 1) targets in
      distinct ids \<and>
      list_all (\<lambda>i. \<not> bt_contains (sn_fibers s) i \<and> i \<noteq> fb_id (tk_fiber ts)
                    \<and> i \<notin> set (ch_fibers_delete (tk_changes ts))) ids)"

text \<open>The handle on top is a barrier, and at its last arrival no other member is parked in a
  nested race or barrier.\<close>

definition join_ready :: "snapshot \<Rightarrow> tick_state \<Rightarrow> bool" where
  "join_ready s ts =
     (case top_handle ts of
        None \<Rightarrow> True
      | Some h \<Rightarrow>
          (case ct_get (staged_table s (tk_changes ts)) h of
             None \<Rightarrow> True
           | Some r \<Rightarrow> rec_kind r = RK_Barrier \<and>
               (ct_count (rec_counters r) = 1 \<longrightarrow>
                 list_all (\<lambda>m. m = fb_id (tk_fiber ts) \<or>
                   (case bt_get (sn_fibers s) m of
                      None \<Rightarrow> True
                    | Some f \<Rightarrow> set (effective_control_stack f) \<subseteq> insert h (set (fb_control_stack f))))
                   (bs_list (rec_members r)))))"

section \<open>Opening a record\<close>

lemma open_record_ok:
  assumes ok: "tick_ok s ts" and fresh: "ct_get (staged_table s (tk_changes ts)) (rec_id r) = None"
    and unheld: "unheld s (rec_id r)" and r: "rec_state r = Armed" "rec_kind r \<noteq> RK_Barrier" "bs_set (rec_members r) = {}"
  shows "tick_ok s (open_record r ts)"
proof -
  note parts = tick_ok_parts [OF ok]
  note nh = fresh_not_held [OF ok fresh]
  let ?r = "r\<lparr>rec_members := bs_insert (fb_id (tk_fiber ts)) (rec_members r)\<rparr>"
  have st: "staged_table s (tk_changes (open_record r ts)) = ct_insert ?r (staged_table s (tk_changes ts))"
    by (simp add: open_record_def Let_def upd_changes_def push_defs)
  have "member_rel (ct_insert ?r (staged_table s (tk_changes ts))) =
     others s (ch_fibers_delete (tk_changes ts)) (fb_id (tk_fiber ts))
     \<union> {fb_id (tk_fiber ts)} \<times> set (fb_control_stack (tk_fiber ts) @ [rec_id r])"
    using r member_insert [of ?r "staged_table s (tk_changes ts)"] nh unfolding parts(10) by auto
  moreover have "K3 (ct_insert ?r (staged_table s (tk_changes ts)))"
    using r by (intro K3_insert parts) auto
  ultimately show ?thesis
    using parts(3-6) stack_ok_push [OF parts(7) nh(2) unheld]
    by (intro tick_okI [OF ok], unfold st)
      (simp_all add: open_record_def Let_def upd_changes_def push_defs del: fold_simps)
qed

lemma next_id_ok: "next_id x cx ts = (i, ts') \<Longrightarrow> tick_ok s ts \<Longrightarrow> tick_ok s ts'"
  by (auto simp: next_id_def intro: tick_ok_ordinal)

lemma open_words_ok:
  assumes ok: "tick_ok s ts" and fresh: "fresh_record x s cx ts"
  shows "exec_guard x cx handler ts = Inr r \<Longrightarrow> step_ok s r"
    "exec_guard_n x cx handler ts = Inr r \<Longrightarrow> step_ok s r"
    "exec_guard_r x cx ts = Inr r \<Longrightarrow> step_ok s r"
    "exec_race_open x cx arm_count ts = Inr r \<Longrightarrow> step_ok s r"
proof -
  let ?ts = "ts\<lparr>tk_ordinal := sat_add (tk_ordinal ts) 1\<rparr>"
  let ?i = "derived_id x cx (tk_ordinal ts)"
  have ok1: "tick_ok s ?ts" using ok by (rule tick_ok_ordinal)
  have opened: "tick_ok s (open_record r ?ts)"
    if "rec_id r = ?i" "rec_state r = Armed" "rec_kind r \<noteq> RK_Barrier" "bs_set (rec_members r) = {}" for r
    using fresh that by (intro open_record_ok [OF ok1]) (simp_all add: fresh_record_def)
  have event: "tick_ok s (upd_changes (push_event e) (open_record r ?ts))"
    if "rec_id r = ?i" "rec_state r = Armed" "rec_kind r \<noteq> RK_Barrier" "bs_set (rec_members r) = {}" for r e
    using opened [OF that] by (rule tick_ok_changes) (simp_all add: push_defs)
  show "exec_guard x cx handler ts = Inr r \<Longrightarrow> step_ok s r"
    unfolding exec_guard_def next_id_def Let_def prod.case
    by (erule advance_ok, rule event) (simp_all add: guard_record_def record_new_def)
  show "exec_guard_n x cx handler ts = Inr r \<Longrightarrow> step_ok s r"
    unfolding exec_guard_n_def next_id_def Let_def prod.case
    by (erule advance_ok, rule event) (simp_all add: guard_record_def record_new_def)
  show "exec_guard_r x cx ts = Inr r \<Longrightarrow> step_ok s r"
    unfolding exec_guard_r_def next_id_def Let_def prod.case
    by (erule advance_ok, rule event) (simp_all add: guard_r_record_def record_new_def)
  show "exec_race_open x cx arm_count ts = Inr r \<Longrightarrow> step_ok s r"
    unfolding exec_race_open_def next_id_def Let_def prod.case
    by (erule advance_ok, rule tick_ok_arms, rule event) (simp_all add: record_new_def)
qed

section \<open>Closing a scope\<close>

lemma pop_handle_Inr:
  "pop_handle word ts = Inr (h, ts') \<longleftrightarrow>
     (\<exists>rest. fb_control_stack (tk_fiber ts) = rest @ [h] \<and>
        ts' = upd_changes (push_delta (CS_Pop (fb_id (tk_fiber ts)) h))
                (ts\<lparr>tk_fiber := (tk_fiber ts)\<lparr>fb_control_stack := rest\<rparr>\<rparr>))"
  by (auto simp: pop_handle_def vec_pop_Some vec_pop_None split: option.splits)

text \<open>A handle on the running fiber's stack names an armed record with the fiber among its
  members.\<close>

lemma held_armed:
  assumes "tick_ok s ts" "h \<in> set (fb_control_stack (tk_fiber ts))"
  obtains r where "armed_at (staged_table s (tk_changes ts)) h r" "fb_id (tk_fiber ts) \<in> bs_set (rec_members r)"
    "fetch_record_in_transition s (tk_changes ts) h = Some r" "rec_id r = h"
proof -
  have "(fb_id (tk_fiber ts), h) \<in> member_rel (staged_table s (tk_changes ts))"
    using assms tick_ok_parts(10) by blast
  then obtain r where r: "armed_at (staged_table s (tk_changes ts)) h r"
    "fb_id (tk_fiber ts) \<in> bs_set (rec_members r)" unfolding member_rel_def by auto
  moreover have "rec_id r = h"
    using r ct_wf_fold [OF tick_ok_parts(2) [OF assms(1)]] unfolding ct_wf_iff armed_at_def by blast
  ultimately show thesis using that fetch_armed by blast
qed

lemma member_rel_armed: "armed_at t h r \<Longrightarrow> (m, h) \<in> member_rel t \<longleftrightarrow> m \<in> bs_set (rec_members r)"
  unfolding member_rel_def armed_at_def by auto

lemma others_member:
  "tick_ok s ts \<Longrightarrow> p \<in> others s (ch_fibers_delete (tk_changes ts)) (fb_id (tk_fiber ts))
     \<Longrightarrow> p \<in> member_rel (staged_table s (tk_changes ts))"
  using tick_ok_parts(10) by blast

lemma others_self: "(i, h) \<notin> others s dels i"
  by (simp add: others_def)

lemma close_ok:
  assumes ok: "tick_ok s ts" and sole: "sole_member s ts" and r: "exec_guard_close word ts = Inr r"
  shows "step_ok s r"
proof -
  note parts = tick_ok_parts [OF ok]
  obtain h rest where stack: "fb_control_stack (tk_fiber ts) = rest @ [h]"
    and adv: "advance (upd_changes (\<lambda>ch. push_event (Ev_V2GuardRetired h (fb_id (tk_fiber ts)))
           (push_mutation (CM_Retire h) ch))
         (upd_changes (push_delta (CS_Pop (fb_id (tk_fiber ts)) h))
           (ts\<lparr>tk_fiber := (tk_fiber ts)\<lparr>fb_control_stack := rest\<rparr>\<rparr>))) = Inr r"
    using r unfolding exec_guard_close_def
    by (auto elim!: try_resE simp: pop_handle_Inr upd_changes_def)
  obtain q where q: "armed_at (staged_table s (tk_changes ts)) h q"
    using held_armed [OF ok, of h] stack by auto
  have "bs_set (rec_members q) = {fb_id (tk_fiber ts)}"
    using sole q stack by (simp add: sole_member_def top_handle_def vec_last_def armed_at_def)
  then have only: "m = fb_id (tk_fiber ts)"
    if "(m, h) \<in> member_rel (staged_table s (tk_changes ts))" for m
    using that member_rel_armed [OF q] by simp
  have none: "(m, h) \<notin> others s (ch_fibers_delete (tk_changes ts)) (fb_id (tk_fiber ts))" for m
    using others_member [OF ok] only [of m] others_self by blast
  have "h \<notin> set rest" using parts(9) stack by simp
  then have "member_rel (ct_retire h (staged_table s (tk_changes ts))) =
      others s (ch_fibers_delete (tk_changes ts)) (fb_id (tk_fiber ts))
      \<union> {fb_id (tk_fiber ts)} \<times> set rest"
    unfolding member_retire parts(10) stack using none by fastforce
  then show ?thesis
    using parts(3-6) stack_ok_prefix [of s rest "[h]"] parts(7) K3_retire [OF parts(8)] stack
    by (intro advance_ok [OF adv] tick_okI [OF ok]) (simp_all add: upd_changes_def push_defs)
qed

section \<open>Membership under reconciliation\<close>

lemma reconcile_armed:
  assumes wf: "ct_wf (sn_concurrency_table s)"
  shows "armed_at (staged_table s (v2_reconcile_ancestor_membership s ops excluded ch)) h r' \<longleftrightarrow>
    (\<exists>r. armed_at (staged_table s ch) h r \<and>
       r' = (if bs_contains excluded h then r else fold apply_membership_op (ops_for h ops) r))"
proof (cases "base_record s excluded ch h")
  case None
  show ?thesis
    using fetch_armed [where s = s and ch = ch and h = h] None unfolding armed_at_def reconcile_get [OF wf] base_record_def
    by (auto split: if_splits)
next
  case (Some r)
  then have "ct_get (staged_table s ch) h = Some r" "\<not> bs_contains excluded h"
    using fetch_staged by (auto simp: base_record_def split: if_splits)
  then show ?thesis
    using Some unfolding armed_at_def reconcile_get [OF wf] by auto
qed

lemma reconcile_member:
  assumes wf: "ct_wf (sn_concurrency_table s)"
    and disj: "\<And>h i. (h, Add i) \<in> set ops \<Longrightarrow> (h, Remove i) \<notin> set ops"
  shows "member_rel (staged_table s (v2_reconcile_ancestor_membership s ops excluded ch)) =
     (member_rel (staged_table s ch) - {(m, h). h \<notin> bs_set excluded \<and> (h, Remove m) \<in> set ops})
     \<union> {(m, h). h \<notin> bs_set excluded \<and> (h, Add m) \<in> set ops \<and> (\<exists>r. armed_at (staged_table s ch) h r)}"
proof -
  have "bs_set (rec_members (fold apply_membership_op (ops_for h ops) r)) =
      (bs_set (rec_members r) - {m. (h, Remove m) \<in> set ops}) \<union> {m. (h, Add m) \<in> set ops}" for h r
    using members_fold_ops [of "ops_for h ops" r] disj unfolding ops_for_mem by blast
  moreover have one: "(\<exists>r'. (\<exists>r. A r \<and> r' = g r) \<and> P r') \<longleftrightarrow> (\<exists>r. A r \<and> P (g r))"
    for A and g :: "concurrency_record \<Rightarrow> concurrency_record" and P
    by blast
  ultimately have "(m, h) \<in> member_rel (staged_table s (v2_reconcile_ancestor_membership s ops excluded ch)) \<longleftrightarrow>
      (\<exists>r. armed_at (staged_table s ch) h r \<and>
        (if h \<in> bs_set excluded then m \<in> bs_set (rec_members r)
         else (m \<in> bs_set (rec_members r) \<and> (h, Remove m) \<notin> set ops) \<or> (h, Add m) \<in> set ops))" for m h
    unfolding member_rel_def mem_Collect_eq prod.case reconcile_armed [OF wf] one bs_contains_iff
    by (cases "h \<in> bs_set excluded") simp_all
  moreover have "armed_at t h r \<Longrightarrow> armed_at t h r' \<Longrightarrow> r = r'" for t h r r'
    by (simp add: armed_at_def)
  ultimately show ?thesis
    unfolding set_eq_iff member_rel_def by (auto split: if_splits)
qed

lemma reconcile_K3:
  assumes "ct_wf (sn_concurrency_table s)" "K3 (staged_table s ch)"
  shows "K3 (staged_table s (v2_reconcile_ancestor_membership s ops excluded ch))"
  using assms(2) unfolding K3_def reconcile_armed [OF assms(1)] by (auto split: if_splits)

lemma reconcile_fields [simp]:
  "ch_fibers_upsert (v2_reconcile_ancestor_membership s ops excluded ch) = ch_fibers_upsert ch"
  "ch_fibers_delete (v2_reconcile_ancestor_membership s ops excluded ch) = ch_fibers_delete ch"
  "ch_cleanup (v2_reconcile_ancestor_membership s ops excluded ch) = ch_cleanup ch"
  by (simp_all add: v2_reconcile_ancestor_membership_def Let_def fold_push_mutation)

section \<open>Closing a race and ending\<close>

lemma race_close_ok:
  assumes ok: "tick_ok s ts" and r: "exec_race_close ts = Inr r"
  shows "step_ok s r"
proof -
  obtain h rest where stack: "fb_control_stack (tk_fiber ts) = rest @ [h]"
    and r: "park (upd_changes (push_event (Ev_V2RaceClosed h (fb_id (tk_fiber ts))
              (of_nat (length (tk_race_arms ts)))))
         (upd_changes (push_delta (CS_Pop (fb_id (tk_fiber ts)) h))
           (ts\<lparr>tk_fiber := (tk_fiber ts)\<lparr>fb_control_stack := rest\<rparr>\<rparr>)))
       ((tk_fiber ts)\<lparr>fb_control_stack := rest, fb_wait := W_V2Race h (tk_race_arms ts)\<rparr>) = Inr r"
    using r unfolding exec_race_close_def
    by (auto elim!: try_resE simp: pop_handle_Inr upd_changes_def Let_def)
  show ?thesis
    using r stack tick_ok_parts(3,4) [OF ok]
    by (auto simp: park_def upd_changes_def push_defs unwrap_or_def effective_control_stack_def
        intro!: post_ok_same [OF ok])
qed

lemma post_ok_cleanup:
  assumes "ct_wf (sn_concurrency_table s)" "tc_delete_all_fibers (tr_terminal_cleanup t)"
    "member_rel (fold_mutations (tr_concurrency_mutations t) (sn_concurrency_table s)) = {}"
    "K3 (fold_mutations (tr_concurrency_mutations t) (sn_concurrency_table s))"
  shows "post_ok s t"
  using assms ct_wf_fold [OF assms(1)]
  by (simp add: post_ok_def derive_post_transition_frame_def apply_fiber_deltas_def frame_inv_def
      stacks_coherent_def holds_rel_def fibers_wf_iff Ball_def bt_values_mem)

lemma end_ok:
  assumes ok: "tick_ok s ts" and empty: "fb_control_stack (tk_fiber ts) = []"
    and r: "exec_end s cx ts = Inr r"
  shows "step_ok s r"
proof -
  note parts = tick_ok_parts [OF ok]
  let ?dels = "ch_fibers_delete (tk_changes ts) @ [fb_id (tk_fiber ts)]"
  let ?F = "apply_fiber_deltas (sn_fibers s) [] ?dels False"
  have holds: "holds_rel ?F = member_rel (staged_table s (tk_changes ts))"
    unfolding holds_no_upsert parts(10) using empty by simp
  show ?thesis
  proof (cases "bt_is_empty ?F")
    case True
    then have "member_rel (staged_table s (tk_changes ts)) = {}"
      unfolding holds [symmetric] by (simp add: bt_is_empty_iff holds_rel_def)
    then show ?thesis
      using r True parts(2,3,8)
      by (auto simp: exec_end_def Let_def push_defs full_cleanup_def unwrap_or_def
          elim!: try_resE intro!: post_ok_cleanup)
  next
    case False
    have "stacks_coherent ?F"
      by (rule stacks_coherent_new [OF parts(7)]) (auto simp: get_fiber_deltas split: if_splits)
    then have "frame_inv ?F (staged_table s (tk_changes ts))"
      unfolding frame_inv_def using fibers_wf_deltas [OF parts(1)] ct_wf_fold [OF parts(2)] parts(8) holds
      by simp
    then show ?thesis
      using r False parts(3,4)
      by (auto simp: exec_end_def Let_def push_defs unwrap_or_def post_ok_def
          derive_post_transition_frame_def)
  qed
qed

lemma retire_all_none:
  assumes "\<And>h r. armed_at t h r \<Longrightarrow> h \<in> set hs"
  shows "\<not> armed_at (fold_mutations (map CM_Retire hs) t) h r"
proof -
  have "armed_at (fold_mutations (map CM_Retire hs) t) h r \<longleftrightarrow> h \<notin> set hs \<and> armed_at t h r" for t
    by (induction hs arbitrary: t) (auto simp: armed_retire)
  then show ?thesis using assms by blast
qed

lemma end_terminate_ok:
  assumes ok: "tick_ok s ts" and r: "exec_end_terminate s cx ts = Inr r"
  shows "step_ok s r"
proof -
  let ?T = "staged_table s (tk_changes ts)"
  have none: "\<not> armed_at (fold_mutations (map CM_Retire (armed_record_ids_in_transition s (tk_changes ts))) ?T) h r"
    for h r
    by (rule retire_all_none) (auto simp: armed_ids)
  have same: "armed_record_ids_in_transition s (ch\<lparr>ch_events := e, ch_cleanup := c\<rparr>) =
      armed_record_ids_in_transition s ch" for ch c e
    by (simp add: armed_record_ids_in_transition_def)
  show ?thesis
    using r none tick_ok_parts(2) [OF ok]
    by (auto simp: exec_end_terminate_def Let_def push_event_def full_cleanup_def unwrap_or_def same
        fold_push_mutation member_rel_def K3_def
        elim!: try_resE intro!: post_ok_cleanup)
qed

section \<open>Joining\<close>

lemma join_arrive_ok:
  assumes ok: "tick_ok s ts" and stack: "fb_control_stack (tk_fiber ts) = rest @ [h]"
    and q: "armed_at (staged_table s (tk_changes ts)) h q" "rec_id q = h"
    and count: "rec_kind q = RK_Barrier" "c \<noteq> 0" "c \<le> ct_count (rec_counters q)"
    and ts': "tk_fiber ts' = (tk_fiber ts)\<lparr>fb_control_stack := rest\<rparr>"
      "tk_changes ts' = push_delta d (tk_changes ts)"
    and r: "join_arrive h (q\<lparr>rec_counters := (rec_counters q)\<lparr>ct_count := c\<rparr>\<rparr>) ts' = Inr r"
  shows "step_ok s r"
proof -
  note parts = tick_ok_parts [OF ok]
  let ?q = "q\<lparr>rec_counters := (rec_counters q)\<lparr>ct_count := c\<rparr>\<rparr>"
  let ?T = "ct_insert ?q (staged_table s (tk_changes ts))"
  have "member_rel ?T = member_rel (staged_table s (tk_changes ts))"
    using q member_insert [of ?q] by (auto simp: member_rel_def armed_at_def)
  moreover have "K3 ?T"
    using q count parts(8) unfolding K3_def armed_insert
    by (auto split: if_splits simp: word_neq_0_conv intro: order_trans)
  ultimately have "post_ok s t" if "tr_fibers_upsert t = [(tk_fiber ts)
         \<lparr>fb_control_stack := rest, fb_wait := W_V2Barrier h\<rparr>]"
      "\<not> tc_delete_all_fibers (tr_terminal_cleanup t)"
      "tr_fibers_delete t = ch_fibers_delete (tk_changes ts)"
      "tr_concurrency_mutations t = ch_concurrency_mutations (tk_changes ts) @ [CM_Insert ?q]" for t
    using that(3,4) parts(5,7,10) stack
    by (intro post_okI [OF ok that(1,2)]) (simp_all add: effective_control_stack_def)
  then show ?thesis
    using r ts' parts(3,4)
    by (auto simp: join_arrive_def park_def upd_changes_def push_defs Let_def unwrap_or_def)
qed

lemma dead_fiber_ops_mem:
  "(h, p) \<in> set (dead_fiber_ops s dead) \<longleftrightarrow>
     (\<exists>i f. i \<in> set dead \<and> bt_get (sn_fibers s) i = Some f \<and> h \<in> set (fb_control_stack f) \<and> p = Remove i)"
proof -
  have "(h, p) \<in> set (case bt_get (sn_fibers s) i of
      Some f \<Rightarrow> map (\<lambda>ancestor. (ancestor, Remove i)) (fb_control_stack f) | None \<Rightarrow> []) \<longleftrightarrow>
    (\<exists>f. bt_get (sn_fibers s) i = Some f \<and> h \<in> set (fb_control_stack f) \<and> p = Remove i)" for i
    by (cases "bt_get (sn_fibers s) i") auto
  then show ?thesis by (simp add: dead_fiber_ops_def Bex_def)
qed

text \<open>What a reconciliation for dead fibers leaves of a set of memberships.\<close>

lemma reconcile_dead:
  assumes "ct_wf (sn_concurrency_table s)"
  shows "member_rel (staged_table s (v2_reconcile_ancestor_membership s (dead_fiber_ops s dead) excluded ch)) =
    member_rel (staged_table s ch) - {(m, a). a \<notin> bs_set excluded \<and> m \<in> set dead \<and>
      (\<exists>f. bt_get (sn_fibers s) m = Some f \<and> a \<in> set (fb_control_stack f))}"
  by (subst reconcile_member [OF assms]) (auto simp: dead_fiber_ops_mem)

lemma others_delete:
  "others s (dels @ dead) self = {(m, h) \<in> others s dels self. m \<notin> set dead}"
  by (auto simp: others_def)

lemma join_release_ok:
  assumes ok: "tick_ok s ts" and stack: "fb_control_stack (tk_fiber ts) = rest @ [h]"
    and q: "armed_at (staged_table s (tk_changes ts)) h q" "bs_list (rec_members r) = bs_list (rec_members q)"
    and flat: "\<And>m f. m \<in> bs_set (rec_members q) \<Longrightarrow> m \<noteq> fb_id (tk_fiber ts) \<Longrightarrow>
       bt_get (sn_fibers s) m = Some f \<Longrightarrow>
       set (effective_control_stack f) \<subseteq> insert h (set (fb_control_stack f))"
    and ts': "tk_fiber ts' = (tk_fiber ts)\<lparr>fb_control_stack := rest\<rparr>"
      "tk_changes ts' = push_delta d (tk_changes ts)"
    and r: "join_release s h r ts' = Inr res"
  shows "step_ok s res"
proof -
  note parts = tick_ok_parts [OF ok]
  let ?self = "fb_id (tk_fiber ts)"
  let ?dels = "ch_fibers_delete (tk_changes ts)"
  let ?dead = "filter (\<lambda>m. m \<noteq> ?self) (bs_list (rec_members q))"
  let ?O = "others s ?dels ?self"
  define ch1 where "ch1 = fold push_delete ?dead (push_delta d (tk_changes ts))"
  define ch2 where "ch2 = v2_reconcile_ancestor_membership s (dead_fiber_ops s ?dead) (bs_of_list [h]) ch1"
  have ch1: "ch_concurrency_mutations ch1 = ch_concurrency_mutations (tk_changes ts)"
      "ch_fibers_delete ch1 = ?dels @ ?dead" "ch_fibers_upsert ch1 = []" "ch_cleanup ch1 = None"
    using parts(3,4) by (simp_all add: ch1_def fold_push_delete push_defs)
  have dead: "m \<in> set ?dead \<longleftrightarrow> (m, h) \<in> ?O" for m
    using member_rel_armed [OF q(1), of m] others_self [of ?self h s ?dels]
    unfolding parts(10) by (auto simp:)
  have gone: "a = h \<or> (\<exists>f. bt_get (sn_fibers s) m = Some f \<and> a \<in> set (fb_control_stack f))"
    if "m \<in> set ?dead" "(m, a) \<in> ?O" for m a
    using that flat [of m] by (auto simp: others_def)
  have "h \<notin> set rest" using parts(9) stack by simp
  then have "(member_rel (staged_table s (tk_changes ts)) - {(m, a). a \<notin> {h} \<and> m \<in> set ?dead \<and>
        (\<exists>f. bt_get (sn_fibers s) m = Some f \<and> a \<in> set (fb_control_stack f))}) - UNIV \<times> {h} =
      {(m, a) \<in> ?O. m \<notin> set ?dead} \<union> {?self} \<times> set rest"
    unfolding parts(10) stack using gone dead by fastforce
  then have mem: "member_rel (ct_retire h (staged_table s ch2)) =
      others s (?dels @ ?dead) ?self \<union> {?self} \<times> set rest"
    unfolding member_retire ch2_def reconcile_dead [OF parts(2)] ch1 others_delete by simp
  have k3: "K3 (ct_retire h (staged_table s ch2))"
    unfolding ch2_def by (intro K3_retire reconcile_K3 parts(2)) (simp add: ch1 parts(8))
  have res: "advance (ts'\<lparr>tk_changes := push_event (Ev_V2JoinReleased h ?self
      (sat_add (fb_pc (tk_fiber ts)) 1) ?dead) (push_mutation (CM_Retire h) ch2)\<rparr>) = Inr res"
    using r ts' q(2) by (simp add: join_release_def Let_def ch1_def ch2_def)
  show ?thesis
    using mem k3 parts(5,6) stack_ok_prefix [of s rest "[h]"] parts(7) stack ts'
    by (intro advance_ok [OF res] tick_okI [OF ok]) (simp_all add: push_defs ch2_def ch1)
qed

lemma join_ok:
  assumes ok: "tick_ok s ts" and ready: "join_ready s ts" and r: "exec_join s ts = Inr r"
  shows "step_ok s r"
proof -
  obtain h rest where stack: "fb_control_stack (tk_fiber ts) = rest @ [h]"
    and pop: "pop_handle ''V2Join'' ts = Inr (h, upd_changes (push_delta (CS_Pop (fb_id (tk_fiber ts)) h))
           (ts\<lparr>tk_fiber := (tk_fiber ts)\<lparr>fb_control_stack := rest\<rparr>\<rparr>))"
    using r unfolding exec_join_def by (auto elim!: try_resE simp: pop_handle_Inr)
  obtain q where q: "armed_at (staged_table s (tk_changes ts)) h q"
      "fetch_record_in_transition s (tk_changes ts) h = Some q" "rec_id q = h"
    using held_armed [OF ok, of h] stack by auto
  have fetch: "fetch_record_in_transition s (push_delta d (tk_changes ts)) h = Some q" for d
    using q(2) by (simp add: push_defs fetch_record_in_transition_def)
  have kind: "rec_kind q = RK_Barrier"
    and flat: "ct_count (rec_counters q) = 1 \<Longrightarrow> m \<in> bs_set (rec_members q) \<Longrightarrow> m \<noteq> fb_id (tk_fiber ts)
       \<Longrightarrow> bt_get (sn_fibers s) m = Some f \<Longrightarrow>
       set (effective_control_stack f) \<subseteq> insert h (set (fb_control_stack f))" for m f
    using ready q(1) stack
    by (simp_all add: join_ready_def top_handle_def vec_last_def armed_at_def list_all_iff)
       (elim conjE, drule bspec, assumption, simp)
  have pos: "0 < ct_count (rec_counters q)"
    using tick_ok_parts(8) [OF ok] q(1) kind unfolding K3_def by blast
  show ?thesis
  proof (cases "sat_sub (ct_count (rec_counters q)) 1 = 0")
    case True
    then have "unat (ct_count (rec_counters q)) - 1 = 0"
      using unat_sat_sub [of "ct_count (rec_counters q)" 1] by simp
    then have "unat (ct_count (rec_counters q)) = unat (1 :: 32 word)"
      using pos by (simp add: word_less_nat_alt)
    then have "ct_count (rec_counters q) = 1" by (rule unsigned_word_eqI)
    then show ?thesis
      using r True pop fetch
      by (intro join_release_ok [OF ok stack q(1) _ flat])
         (auto simp: exec_join_def res_simps upd_changes_def Let_def)
  next
    case False
    have "sat_sub (ct_count (rec_counters q)) 1 \<le> ct_count (rec_counters q)"
      by (simp add: word_le_nat_alt unat_sat_sub)
    then show ?thesis
      using r False pop fetch
      by (intro join_arrive_ok [OF ok stack q(1,3) kind False])
         (auto simp: exec_join_def res_simps upd_changes_def Let_def)
  qed
qed

section \<open>Arming an error route\<close>

text \<open>Tables that agree but for the error routes of their records.\<close>

definition routeless :: "concurrency_record \<Rightarrow> concurrency_record" where
  "routeless r = r\<lparr>rec_error_routes := []\<rparr>"

fun routeless_mutation :: "concurrency_mutation \<Rightarrow> concurrency_mutation" where
  "routeless_mutation (CM_Insert r) = CM_Insert (routeless r)"
| "routeless_mutation m = m"

lemma routeless_fields [simp]:
  "rec_id (routeless r) = rec_id r" "rec_kind (routeless r) = rec_kind r"
  "rec_state (routeless r) = rec_state r" "rec_members (routeless r) = rec_members r"
  "rec_counters (routeless r) = rec_counters r"
  by (simp_all add: routeless_def)

lemma routeless_arm [simp]: "routeless (arm_error_route route r) = routeless r"
  by (simp add: arm_error_route_def routeless_def Let_def)

lemma routeless_retired:
  "map_option routeless (map_option (rec_state_update f) a) =
     map_option (rec_state_update f) (map_option routeless a)"
  by (cases a) (simp_all add: routeless_def)

lemma routeless_eqD:
  "routeless r = routeless r' \<Longrightarrow> rec_id r = rec_id r' \<and> rec_kind r = rec_kind r' \<and> rec_state r = rec_state r'
     \<and> rec_members r = rec_members r' \<and> rec_counters r = rec_counters r'"
  by (metis routeless_fields)

lemma arm_newest_routeless:
  "arm_newest_insert i route ms = Inr ms' \<Longrightarrow> map routeless_mutation ms' = map routeless_mutation ms"
  by (induction i route ms arbitrary: ms' rule: arm_newest_insert.induct)
     (auto elim!: try_resE split: concurrency_mutation.splits if_splits)

lemma routeless_apply:
  assumes "routeless_mutation m' = routeless_mutation m"
    "\<And>h. map_option routeless (ct_get t' h) = map_option routeless (ct_get t h)"
  shows "map_option routeless (ct_get (apply_concurrency_mutation m' t') h) =
     map_option routeless (ct_get (apply_concurrency_mutation m t) h)"
  using assms by (cases m; cases m') (auto simp: btree_simps routeless_retired dest: routeless_eqD)

lemma routeless_fold:
  assumes "map routeless_mutation ms' = map routeless_mutation ms"
    "\<And>h. map_option routeless (ct_get t' h) = map_option routeless (ct_get t h)"
  shows "map_option routeless (ct_get (fold_mutations ms' t') h) =
     map_option routeless (ct_get (fold_mutations ms t) h)"
  using assms
proof (induction ms arbitrary: ms' t t')
  case (Cons m ms)
  then obtain m' ns where ms': "ms' = m' # ns" "routeless_mutation m' = routeless_mutation m"
    "map routeless_mutation ns = map routeless_mutation ms" by (cases ms') auto
  show ?case
    unfolding ms'(1) fold_simps comp_def
    using routeless_apply [OF ms'(2) Cons.prems(2)] by (intro Cons.IH ms'(3))
qed simp

lemma routeless_armed:
  assumes same: "\<And>h. map_option routeless (ct_get t' h) = map_option routeless (ct_get t h)"
    and "armed_at t' h r'"
  shows "\<exists>r. armed_at t h r \<and> routeless r' = routeless r"
proof -
  have "Some (routeless r') = map_option routeless (ct_get t h)" "rec_state r' = Armed"
    using same [of h] assms(2) by (simp_all add: armed_at_def)
  then obtain r where "ct_get t h = Some r" "routeless r' = routeless r" by (cases "ct_get t h") auto
  then show ?thesis using \<open>rec_state r' = Armed\<close> routeless_eqD unfolding armed_at_def by metis
qed

lemma routeless_members:
  assumes same: "\<And>h. map_option routeless (ct_get t' h) = map_option routeless (ct_get t h)"
  shows "member_rel t' \<subseteq> member_rel t"
proof
  fix p assume "p \<in> member_rel t'"
  then obtain m h r' where p: "p = (m, h)" "armed_at t' h r'" "m \<in> bs_set (rec_members r')"
    unfolding member_rel_def by blast
  obtain r where r: "armed_at t h r" "routeless r' = routeless r"
    using routeless_armed [OF same p(2)] by blast
  then have "m \<in> bs_set (rec_members r)" using p(3) routeless_eqD [OF r(2)] by simp
  then show "p \<in> member_rel t" unfolding member_rel_def p(1) using r(1) by blast
qed

lemma routeless_same:
  assumes same: "\<And>h. map_option routeless (ct_get t' h) = map_option routeless (ct_get t h)"
  shows "member_rel t' = member_rel t" "K3 t \<Longrightarrow> K3 t'"
proof -
  show "member_rel t' = member_rel t"
    using same by (intro subset_antisym routeless_members) simp_all
  assume k3: "K3 t"
  show "K3 t'"
    unfolding K3_def
  proof (intro allI impI)
    fix i r' assume a: "armed_at t' i r' \<and> rec_kind r' = RK_Barrier"
    obtain r where r: "armed_at t i r" "routeless r' = routeless r"
      using routeless_armed [OF same] a by blast
    then show "0 < ct_count (rec_counters r') \<and> ct_count (rec_counters r') \<le> ct_arity (rec_counters r')"
      using k3 a routeless_eqD [OF r(2)] unfolding K3_def by auto
  qed
qed

lemma guard_arm_error_ok:
  assumes ok: "tick_ok s ts" and r: "exec_guard_arm_error code handler ts = Inr r"
  shows "step_ok s r"
proof -
  note parts = tick_ok_parts [OF ok]
  obtain h ms where ms: "arm_newest_insert h (code, handler) (rev (ch_concurrency_mutations (tk_changes ts))) = Inr ms"
    and adv: "advance (upd_changes (\<lambda>ch. ch\<lparr>ch_concurrency_mutations := rev ms\<rparr>) ts) = Inr r"
    using r unfolding exec_guard_arm_error_def by (auto elim!: try_resE)
  have "map routeless_mutation (rev ms) = map routeless_mutation (ch_concurrency_mutations (tk_changes ts))"
    using arm_newest_routeless [OF ms] by (simp add: rev_map [symmetric])
  then have same: "map_option routeless (ct_get (fold_mutations (rev ms) (sn_concurrency_table s)) h) =
      map_option routeless (ct_get (staged_table s (tk_changes ts)) h)" for h
    by (rule routeless_fold) simp
  show ?thesis
    using parts(3-7,10) routeless_same(1) [OF same] routeless_same(2) [OF same parts(8)]
    by (intro advance_ok [OF adv] tick_okI [OF ok]) (simp_all add: upd_changes_def)
qed

section \<open>Forking\<close>

definition fork_child :: "fiber \<Rightarrow> record_id \<Rightarrow> uuid \<times> addr \<Rightarrow> fiber" where
  "fork_child f record_id = (\<lambda>(i, target).
     (fiber_new i target)\<lparr>fb_control_stack := fb_control_stack f @ [record_id]\<rparr>)"

lemma fork_ids_length [simp]: "length (fork_ids x cx ordinal targets) = length targets"
  by (induction targets arbitrary: ordinal) simp_all

text \<open>The spawning loop in closed form.\<close>

lemma fork_fold:
  "\<exists>n ch'. fold (fork_spawn x cx f i) targets (ordinal, members, ch, ids) =
       (n, fold bs_insert (fork_ids x cx ordinal targets) members, ch', ids @ fork_ids x cx ordinal targets)
     \<and> ch_fibers_upsert ch' = ch_fibers_upsert ch
         @ map (fork_child f i) (zip (fork_ids x cx ordinal targets) targets)
     \<and> ch_fibers_delete ch' = ch_fibers_delete ch \<and> ch_cleanup ch' = ch_cleanup ch
     \<and> ch_concurrency_mutations ch' = ch_concurrency_mutations ch"
proof (induction targets arbitrary: ordinal members ch ids)
  case (Cons target targets)
  let ?c = "derived_id x cx ordinal"
  let ?ch = "push_upsert (fork_child f i (?c, target))
     (push_event (Ev_FiberSpawned ?c target (Some (fb_id f))) (push_delta (CS_Push ?c i) ch))"
  have "fold (fork_spawn x cx f i) (target # targets) (ordinal, members, ch, ids) =
      fold (fork_spawn x cx f i) targets (sat_add ordinal 1, bs_insert ?c members, ?ch, ids @ [?c])"
    by (simp add: fork_spawn_def fork_child_def Let_def)
  then show ?case
    using Cons.IH [of "sat_add ordinal 1" "bs_insert ?c members" ?ch "ids @ [?c]"]
    by (auto simp: push_defs)
qed simp

lemma fork_child_fields [simp]:
  "fb_id (fork_child f i (c, target)) = c"
  "effective_control_stack (fork_child f i (c, target)) = fb_control_stack f @ [i]"
  by (simp_all add: fork_child_def fiber_new_def effective_control_stack_def)

lemma fork_ops_mem:
  "(h, p) \<in> set (fork_ancestor_ops f ids) \<longleftrightarrow>
     h \<in> set (fb_control_stack f) \<and> (p = Remove (fb_id f) \<or> (\<exists>c \<in> set ids. p = Add c))"
  by (auto simp: fork_ancestor_ops_def)

text \<open>The fibers after a fork.\<close>

lemma find_SomeD: "find P xs = Some y \<Longrightarrow> y \<in> set xs \<and> P y"
  by (induction xs) (auto split: if_splits)

lemma find_child:
  assumes "length ids = length targets"
  shows "(c \<notin> set ids \<longrightarrow> find (\<lambda>g. fb_id g = c) (rev (map (fork_child f i) (zip ids targets))) = None) \<and>
    (c \<in> set ids \<longrightarrow> (\<exists>target. find (\<lambda>g. fb_id g = c) (rev (map (fork_child f i) (zip ids targets))) =
       Some (fork_child f i (c, target))))"
proof -
  let ?gs = "map (fork_child f i) (zip ids targets)"
  have all: "g \<in> set ?gs \<Longrightarrow> \<exists>target. g = fork_child f i (fb_id g, target) \<and> fb_id g \<in> set ids" for g
    by (auto dest: set_zip_leftD)
  have ex: "c \<in> set ids \<Longrightarrow> \<exists>g \<in> set ?gs. fb_id g = c"
    using assms by (force simp: in_set_conv_nth set_zip)
  show ?thesis
  proof (cases "find (\<lambda>g. fb_id g = c) (rev ?gs)")
    case None
    then show ?thesis using ex by (auto simp: find_None_iff)
  next
    case (Some g)
    then have "g \<in> set ?gs" "fb_id g = c" by (auto dest: find_SomeD)
    then show ?thesis using all Some by metis
  qed
qed

lemma fork_fibers:
  assumes "length ids = length targets" "set ids \<inter> set dels = {}"
  shows "holds_rel (apply_fiber_deltas (sn_fibers s) (map (fork_child f i) (zip ids targets)) dels False) =
     {(m, h). m \<notin> set ids \<and> m \<notin> set dels \<and>
        (\<exists>g. bt_get (sn_fibers s) m = Some g \<and> h \<in> set (effective_control_stack g))}
     \<union> set ids \<times> set (fb_control_stack f @ [i])"
proof -
  let ?F = "apply_fiber_deltas (sn_fibers s) (map (fork_child f i) (zip ids targets)) dels False"
  have child: "\<exists>target. bt_get ?F m = Some (fork_child f i (m, target))" if "m \<in> set ids" for m
    using that find_child [OF assms(1), of m f i] assms(2) unfolding get_fiber_deltas by auto
  have other: "bt_get ?F m = (if m \<in> set dels then None else bt_get (sn_fibers s) m)" if "m \<notin> set ids" for m
    using that find_child [OF assms(1), of m f i] unfolding get_fiber_deltas by simp
  have "(m, h) \<in> holds_rel ?F \<longleftrightarrow> (if m \<in> set ids then h \<in> set (fb_control_stack f @ [i])
      else m \<notin> set dels \<and> (\<exists>g. bt_get (sn_fibers s) m = Some g \<and> h \<in> set (effective_control_stack g)))" for m h
    using child [of m] other [of m] by (cases "m \<in> set ids") (auto simp: holds_rel_def)
  then show ?thesis by (simp only: set_eq_iff split_paired_All) auto
qed

lemma fork_coherent:
  assumes "length ids = length targets" "stack_ok s (fb_control_stack f @ [i])"
  shows "stacks_coherent (apply_fiber_deltas (sn_fibers s) (map (fork_child f i) (zip ids targets)) dels False)"
proof (rule stacks_coherent_new [OF assms(2)])
  fix m g
  assume g: "bt_get (apply_fiber_deltas (sn_fibers s) (map (fork_child f i) (zip ids targets)) dels False) m = Some g"
  show "(\<exists>n. bt_get (sn_fibers s) n = Some g) \<or> effective_control_stack g = fb_control_stack f @ [i]"
    using g find_child [OF assms(1), of m f i] unfolding get_fiber_deltas
    by (cases "m \<in> set ids") (auto split: if_splits)
qed

lemma fork_member:
  assumes M: "M = others s dels (fb_id f) \<union> {fb_id f} \<times> set (fb_control_stack f)"
    and fresh: "\<And>m. (m, i) \<notin> M" and new: "\<And>c. c \<in> set ids \<Longrightarrow> bt_get (sn_fibers s) c = None"
  shows "((M - UNIV \<times> {i}) \<union> set ids \<times> {i}) - {(m, h). h \<in> set (fb_control_stack f) \<and> m = fb_id f}
      \<union> {(m, h). h \<in> set (fb_control_stack f) \<and> m \<in> set ids} =
    {(m, h). m \<notin> set ids \<and> m \<notin> set (dels @ [fb_id f]) \<and>
        (\<exists>g. bt_get (sn_fibers s) m = Some g \<and> h \<in> set (effective_control_stack g))}
     \<union> set ids \<times> set (fb_control_stack f @ [i])" (is "?L = ?R")
proof -
  have i: "i \<notin> set (fb_control_stack f)" "(m, i) \<notin> others s dels (fb_id f)" for m
    using fresh unfolding M by auto
  have "(m, h) \<in> ?L \<longleftrightarrow> (m, h) \<in> ?R" for m h
  proof (cases "m \<in> set ids")
    case True
    then show ?thesis using i new [of m] unfolding M by (auto simp: others_def)
  next
    case False
    then show ?thesis using i(1) i(2) [of m] unfolding M by (auto simp: others_def)
  qed
  then show ?thesis by (intro subset_antisym subrelI) (simp_all only:)
qed

lemma fork_record_K3:
  assumes "K3 t" "targets \<noteq> []" "length targets < 2 ^ 32"
    "rec_counters r = \<lparr>ct_arity = of_nat (length targets), ct_count = of_nat (length targets)\<rparr>"
  shows "K3 (ct_insert r t)"
proof (rule K3_insert [OF assms(1)])
  have "unat (of_nat (length targets) :: 32 word) = length targets"
    using assms(3) by (simp add: unat_of_nat take_bit_nat_eq_self)
  then have "(0 :: 32 word) < of_nat (length targets)"
    using assms(2) by (simp add: word_less_nat_alt)
  then show "0 < ct_count (rec_counters r) \<and> ct_count (rec_counters r) \<le> ct_arity (rec_counters r)"
    using assms(4) by simp
qed

lemma fork_ok:
  assumes ok: "tick_ok s ts" and ready: "fork_ready x s cx targets ts"
    and r: "exec_fork x s cx targets ts = Inr r"
  shows "step_ok s r"
proof -
  note parts = tick_ok_parts [OF ok]
  let ?f = "tk_fiber ts"
  let ?i = "derived_id x cx (tk_ordinal ts)"
  let ?ids = "fork_ids x cx (sat_add (tk_ordinal ts) 1) targets"
  let ?dels = "ch_fibers_delete (tk_changes ts)"
  let ?r = "(record_new ?i RK_Barrier)
    \<lparr>rec_counters := \<lparr>ct_arity = of_nat (length targets), ct_count = of_nat (length targets)\<rparr>,
     rec_members := fold bs_insert ?ids (rec_members (record_new ?i RK_Barrier))\<rparr>"
  have size: "targets \<noteq> []" "length targets < 2 ^ 32"
    and none: "ct_get (staged_table s (tk_changes ts)) ?i = None" "unheld s ?i"
    and ids: "c \<in> set ?ids \<Longrightarrow> bt_get (sn_fibers s) c = None \<and> c \<noteq> fb_id ?f \<and> c \<notin> set ?dels" for c
    using ready unfolding fork_ready_def fresh_record_def Let_def list_all_iff
    by (auto simp: bt_contains_def)
  obtain n ch where loop: "fold (fork_spawn x cx ?f ?i) targets
      (sat_add (tk_ordinal ts) 1, rec_members (record_new ?i RK_Barrier), tk_changes ts, []) =
       (n, rec_members ?r, ch, ?ids)"
    and ch: "ch_fibers_upsert ch = map (fork_child ?f ?i) (zip ?ids targets)"
      "ch_fibers_delete ch = ?dels" "ch_cleanup ch = None"
      "ch_concurrency_mutations ch = ch_concurrency_mutations (tk_changes ts)"
    using fork_fold [of x cx ?f ?i targets "sat_add (tk_ordinal ts) 1"
        "rec_members (record_new ?i RK_Barrier)" "tk_changes ts" "[]"] parts(3,4) by auto
  define ch1 where "ch1 = push_mutation (CM_Insert ?r) (push_event (Ev_V2Forked ?i (fb_id ?f) ?ids targets) ch)"
  define ch2 where "ch2 = v2_reconcile_ancestor_membership s (fork_ancestor_ops ?f ?ids) (bs_of_list []) ch1"
  have r: "r = Done (finish (push_delete (fb_id ?f) ch2) (tk_instance ts))"
    using r by (simp add: exec_fork_def next_id_def Let_def loop ch1_def ch2_def)
  have T1: "staged_table s ch1 = ct_insert ?r (staged_table s (tk_changes ts))"
    by (simp add: ch1_def push_defs ch(4))
  have armed: "\<exists>q. armed_at (staged_table s ch1) h q" if held: "h \<in> set (fb_control_stack ?f)" for h
  proof -
    obtain q where q: "armed_at (staged_table s (tk_changes ts)) h q"
      by (rule held_armed [OF ok held])
    have "h \<noteq> ?i" using held fresh_not_held(2) [OF ok none(1)] by blast
    then have "armed_at (ct_insert ?r (staged_table s (tk_changes ts))) h q"
      unfolding armed_insert using q by (simp add: record_new_def)
    then show ?thesis unfolding T1 by blast
  qed
  have M1: "member_rel (staged_table s ch1) =
      (member_rel (staged_table s (tk_changes ts)) - UNIV \<times> {?i}) \<union> set ?ids \<times> {?i}"
    unfolding T1 by (subst member_insert) (simp_all add: record_new_def bs_set_fold_insert)
  have "member_rel (staged_table s ch2) =
      member_rel (staged_table s ch1) - {(m, h). h \<in> set (fb_control_stack ?f) \<and> m = fb_id ?f}
      \<union> {(m, h). h \<in> set (fb_control_stack ?f) \<and> m \<in> set ?ids}"
    unfolding ch2_def using ids armed
    by (subst reconcile_member [OF parts(2)]) (auto simp: fork_ops_mem)
  also have "\<dots> = {(m, h). m \<notin> set ?ids \<and> m \<notin> set (?dels @ [fb_id ?f]) \<and>
        (\<exists>g. bt_get (sn_fibers s) m = Some g \<and> h \<in> set (effective_control_stack g))}
     \<union> set ?ids \<times> set (fb_control_stack ?f @ [?i])"
    unfolding M1 using ids none(1)
    by (intro fork_member [OF parts(10)]) (auto simp: member_rel_def armed_at_def)
  finally have M2: "member_rel (staged_table s ch2) = holds_rel (apply_fiber_deltas (sn_fibers s)
      (map (fork_child ?f ?i) (zip ?ids targets)) (?dels @ [fb_id ?f]) False)"
    using ids by (subst fork_fibers) auto
  have "K3 (staged_table s ch2)"
    unfolding ch2_def T1 by (intro reconcile_K3 parts(2), unfold T1, rule fork_record_K3 [OF parts(8) size]) simp
  moreover have "stacks_coherent (apply_fiber_deltas (sn_fibers s)
      (map (fork_child ?f ?i) (zip ?ids targets)) (?dels @ [fb_id ?f]) False)"
    by (intro fork_coherent stack_ok_push parts(7) fresh_not_held(2) [OF ok none(1)] none(2)) simp
  ultimately show ?thesis
    unfolding r step_ok_simps post_ok_def derive_post_transition_frame_def frame_inv_def
    using M2 ch fibers_wf_deltas [OF parts(1)] ct_wf_fold [OF parts(2)]
    by (simp add: push_defs ch2_def ch1_def unwrap_or_def)
qed

end
