(* ===== verification/Cancellation.thy ===== *)
theory Cancellation
  imports ScopeWords
begin

text \<open>
  The recursive walk of \<open>v2_cancel_guard_scope\<close> on coherent stacks: it ends, it collects exactly
  the fibers that hold the cancelled handle, and it retires exactly the records at or above that
  handle, each once and the handle last. With it, scope cancellation and guard triggers keep the
  K-invariants.
\<close>

section \<open>One level of the walk\<close>

abbreviation live :: "snapshot \<Rightarrow> fiber set" where
  "live s \<equiv> set (bt_values (sn_fibers s))"

lemma position_distinct:
  assumes "distinct xs" "i < length xs"
  shows "position (\<lambda>y. y = xs ! i) xs = Some i"
proof -
  obtain j where j: "position (\<lambda>y. y = xs ! i) xs = Some j"
    using position_eq_ex [of "xs ! i" xs] assms(2) by auto
  then have "j < length xs" "xs ! j = xs ! i" using position_Some by fastforce+
  then have "j = i" using assms by (simp add: nth_eq_iff_index_eq)
  then show ?thesis using j by simp
qed

lemma scope_next_at:
  assumes "distinct (effective_control_stack f)" "i < length (effective_control_stack f)"
    "effective_control_stack f ! i = p"
  shows "scope_next p f = Some (vec_get (effective_control_stack f) (Suc i))"
  using position_distinct [OF assms(1,2)] assms(3) by (simp add: scope_next_def Let_def)

lemma scope_next_None: "scope_next p f = None \<longleftrightarrow> p \<notin> set (effective_control_stack f)"
  by (auto simp: scope_next_def Let_def position_None)

lemma scope_next_child:
  assumes "distinct (effective_control_stack f)"
  shows "scope_next p f = Some (Some c) \<longleftrightarrow>
    (\<exists>i. Suc i < length (effective_control_stack f) \<and> effective_control_stack f ! i = p
       \<and> effective_control_stack f ! Suc i = c)" (is "?L \<longleftrightarrow> ?R")
proof
  assume ?L
  then have "p \<in> set (effective_control_stack f)" using scope_next_None [of p f] by auto
  then obtain i where i: "i < length (effective_control_stack f)" "effective_control_stack f ! i = p"
    unfolding in_set_conv_nth by blast
  then show ?R using \<open>?L\<close> scope_next_at [OF assms i] by (auto simp: vec_get_Some)
next
  assume ?R
  then obtain i where i: "Suc i < length (effective_control_stack f)" "effective_control_stack f ! i = p"
    "effective_control_stack f ! Suc i = c" by blast
  then show ?L using scope_next_at [OF assms _ i(2)] by (simp add: vec_get_def)
qed

lemma scope_next_leaf:
  assumes "distinct (effective_control_stack f)"
  shows "scope_next p f = Some None \<longleftrightarrow>
    (\<exists>i. Suc i = length (effective_control_stack f) \<and> effective_control_stack f ! i = p)" (is "?L \<longleftrightarrow> ?R")
proof
  assume ?L
  then have "p \<in> set (effective_control_stack f)" using scope_next_None [of p f] by auto
  then obtain i where i: "i < length (effective_control_stack f)" "effective_control_stack f ! i = p"
    unfolding in_set_conv_nth by blast
  then have "Suc i = length (effective_control_stack f)"
    using \<open>?L\<close> scope_next_at [OF assms i] by (simp add: vec_get_def split: if_splits)
  then show ?R using i(2) by blast
next
  assume ?R
  then obtain i where i: "Suc i = length (effective_control_stack f)" "effective_control_stack f ! i = p"
    by blast
  then show ?L using scope_next_at [OF assms _ i(2)] by (simp add: vec_get_def)
qed

lemma live_distinct: "stacks_coherent (sn_fibers s) \<Longrightarrow> f \<in> live s \<Longrightarrow> distinct (effective_control_stack f)"
  unfolding stacks_coherent_def by (blast intro: coherent_distinct)

lemma live_coherentD:
  "stacks_coherent (sn_fibers s) \<Longrightarrow> f \<in> live s \<Longrightarrow> g \<in> live s \<Longrightarrow>
     i < length (effective_control_stack f) \<Longrightarrow> j < length (effective_control_stack g) \<Longrightarrow>
     effective_control_stack f ! i = effective_control_stack g ! j \<Longrightarrow>
     i = j \<and> take i (effective_control_stack f) = take i (effective_control_stack g)"
  unfolding stacks_coherent_def using coherentD by blast

lemma scope_children_iff:
  assumes "stacks_coherent (sn_fibers s)"
  shows "c \<in> set (scope_children s p) \<longleftrightarrow>
    (\<exists>f \<in> live s. \<exists>i. Suc i < length (effective_control_stack f) \<and> effective_control_stack f ! i = p
       \<and> effective_control_stack f ! Suc i = c)"
proof -
  have "c \<in> set (scope_children s p) \<longleftrightarrow> (\<exists>f \<in> live s. scope_next p f = Some (Some c))"
    unfolding scope_children_def bs_set_of_list
    by (auto simp: List.map_filter_def split: option.splits) force+
  then show ?thesis using scope_next_child live_distinct [OF assms] by blast
qed

lemma scope_leaves_iff:
  assumes "stacks_coherent (sn_fibers s)"
  shows "m \<in> set (scope_direct_leaves s p) \<longleftrightarrow>
    (\<exists>f \<in> live s. fb_id f = m \<and> (\<exists>i. Suc i = length (effective_control_stack f) \<and> effective_control_stack f ! i = p))"
proof -
  have "m \<in> set (scope_direct_leaves s p) \<longleftrightarrow> (\<exists>f \<in> live s. fb_id f = m \<and> scope_next p f = Some None)"
    by (auto simp: scope_direct_leaves_def)
  then show ?thesis using scope_next_leaf live_distinct [OF assms] by blast
qed

section \<open>The accumulators\<close>

definition extend_acc :: "'a list \<times> 'b list \<Rightarrow> 'a list \<times> 'b list \<Rightarrow> 'a list \<times> 'b list" where
  "extend_acc acc r = (fst acc @ fst r, snd acc @ snd r)"

lemma extend_acc_simps [simp]:
  "extend_acc ([], []) r = r" "extend_acc (a, b) (c, d) = (a @ c, b @ d)"
  by (simp_all add: extend_acc_def)

lemma fold_opt_acc:
  assumes "\<And>c acc. f c acc = map_option (extend_acc acc) (f c ([], []))"
  shows "fold_opt f cs acc = map_option (extend_acc acc) (fold_opt f cs ([], []))"
proof (induction cs arbitrary: acc)
  case (Cons c cs)
  show ?case
  proof (cases "f c ([], [])")
    case None
    then show ?thesis using assms [of c acc] by simp
  next
    case (Some r)
    have "fold_opt f (c # cs) acc = fold_opt f cs (extend_acc acc r)"
      using assms [of c acc] Some by simp
    also have "\<dots> = map_option (extend_acc (extend_acc acc r)) (fold_opt f cs ([], []))"
      by (rule Cons.IH)
    also have "\<dots> = map_option (extend_acc acc) (map_option (extend_acc r) (fold_opt f cs ([], [])))"
      by (cases "fold_opt f cs ([], [])") (simp_all add: extend_acc_def)
    also have "map_option (extend_acc r) (fold_opt f cs ([], [])) = fold_opt f cs r"
      by (rule Cons.IH [symmetric])
    finally show ?thesis using Some by simp
  qed
qed (simp add: extend_acc_def)

lemma walk_acc:
  "v2_cancel_guard_scope n s p acc = map_option (extend_acc acc) (v2_cancel_guard_scope n s p ([], []))"
proof (induction n arbitrary: p acc)
  case (Suc n)
  have eq: "fold_opt (v2_cancel_guard_scope n s) (scope_children s p) acc =
      map_option (extend_acc acc) (fold_opt (v2_cancel_guard_scope n s) (scope_children s p) ([], []))"
    by (rule fold_opt_acc) (rule Suc.IH)
  show ?case
    unfolding v2_cancel_guard_scope.simps eq
    by (cases "fold_opt (v2_cancel_guard_scope n s) (scope_children s p) ([], [])")
       (auto simp: extend_acc_def split: prod.splits)
qed simp

lemma fold_walk:
  assumes "\<And>c. c \<in> set cs \<Longrightarrow> v2_cancel_guard_scope n s c ([], []) = Some (R c, L c)"
  shows "fold_opt (v2_cancel_guard_scope n s) cs ([], []) = Some (concat (map R cs), concat (map L cs))"
  using assms
proof (induction cs)
  case (Cons c cs)
  have ih: "fold_opt (v2_cancel_guard_scope n s) cs ([], []) = Some (concat (map R cs), concat (map L cs))"
    using Cons by simp
  have "fold_opt (v2_cancel_guard_scope n s) (c # cs) ([], []) = fold_opt (v2_cancel_guard_scope n s) cs (R c, L c)"
    using Cons.prems by simp
  also have "\<dots> = map_option (extend_acc (R c, L c)) (fold_opt (v2_cancel_guard_scope n s) cs ([], []))"
    by (rule fold_opt_acc) (rule walk_acc)
  finally show ?case using ih by simp
qed simp

section \<open>The whole walk\<close>

text \<open>The records at or above a handle, and the fibers that hold it.\<close>

definition scope_records :: "snapshot \<Rightarrow> record_id \<Rightarrow> record_id set" where
  "scope_records s p = insert p {k. \<exists>f \<in> live s. \<exists>i j. i \<le> j \<and> j < length (effective_control_stack f)
     \<and> effective_control_stack f ! i = p \<and> effective_control_stack f ! j = k}"

definition scope_fibers :: "snapshot \<Rightarrow> record_id \<Rightarrow> uuid set" where
  "scope_fibers s p = {fb_id f |f. f \<in> live s \<and> p \<in> set (effective_control_stack f)}"

text \<open>On coherent stacks, a stack that holds a child holds its parent just below.\<close>

lemma child_above:
  assumes co: "stacks_coherent (sn_fibers s)" and c: "c \<in> set (scope_children s p)"
    and f: "f \<in> live s" "j < length (effective_control_stack f)" "effective_control_stack f ! j = c"
  obtains i where "j = Suc i" "effective_control_stack f ! i = p"
proof -
  obtain g i where g: "g \<in> live s" "Suc i < length (effective_control_stack g)"
    "effective_control_stack g ! i = p" "effective_control_stack g ! Suc i = c"
    using c unfolding scope_children_iff [OF co] by blast
  have eq: "j = Suc i" "take j (effective_control_stack f) = take j (effective_control_stack g)"
    using live_coherentD [OF co f(1) g(1) f(2) g(2)] f(3) g(4) by auto
  then have "effective_control_stack f ! i = effective_control_stack g ! i"
    by (metis lessI nth_take)
  then show thesis using that eq(1) g(3) by blast
qed

lemma scope_recordsI:
  "f \<in> live s \<Longrightarrow> i \<le> j \<Longrightarrow> j < length (effective_control_stack f) \<Longrightarrow> effective_control_stack f ! i = p
     \<Longrightarrow> effective_control_stack f ! j = k \<Longrightarrow> k \<in> scope_records s p"
  unfolding scope_records_def by blast

lemma scope_recordsE:
  assumes "k \<in> scope_records s p"
  obtains "k = p" | f i j where "f \<in> live s" "i < j" "j < length (effective_control_stack f)"
      "effective_control_stack f ! i = p" "effective_control_stack f ! j = k"
proof -
  consider "k = p" | f i j where "f \<in> live s" "i \<le> j" "j < length (effective_control_stack f)"
      "effective_control_stack f ! i = p" "effective_control_stack f ! j = k"
    using assms unfolding scope_records_def by blast
  then show thesis
  proof cases
    case (2 f i j)
    show thesis
    proof (cases "i = j")
      case True
      then show thesis using that(1) 2(4,5) by simp
    next
      case False
      then show thesis using that(2) [of f i j] 2 by simp
    qed
  qed (rule that(1))
qed

lemma scope_records_self: "p \<in> scope_records s p"
  by (simp add: scope_records_def)

lemma scope_childrenI:
  "stacks_coherent (sn_fibers s) \<Longrightarrow> f \<in> live s \<Longrightarrow> Suc i < length (effective_control_stack f) \<Longrightarrow>
     effective_control_stack f ! i = p \<Longrightarrow> effective_control_stack f ! Suc i \<in> set (scope_children s p)"
  using scope_children_iff by blast

text \<open>The records above a child are on stacks that hold the parent just below the child.\<close>

lemma scope_records_childE:
  assumes co: "stacks_coherent (sn_fibers s)" and c: "c \<in> set (scope_children s p)"
    and k: "k \<in> scope_records s c"
  obtains f i j where "f \<in> live s" "Suc i \<le> j" "j < length (effective_control_stack f)"
    "effective_control_stack f ! i = p" "effective_control_stack f ! Suc i = c" "effective_control_stack f ! j = k"
  using k
proof (cases rule: scope_recordsE)
  case 1
  obtain f i where "f \<in> live s" "Suc i < length (effective_control_stack f)"
    "effective_control_stack f ! i = p" "effective_control_stack f ! Suc i = c"
    using c unfolding scope_children_iff [OF co] by blast
  then show thesis using 1 that [of f i "Suc i"] by simp
next
  case (2 f j l)
  then obtain i where "j = Suc i" "effective_control_stack f ! i = p"
    using child_above [OF co c 2(1) _ 2(4)] by auto
  then show thesis using 2 that [of f i l] by simp
qed

lemma scope_records_children:
  assumes co: "stacks_coherent (sn_fibers s)"
  shows "scope_records s p = insert p (\<Union>c \<in> set (scope_children s p). scope_records s c)"
proof (intro subset_antisym subsetI)
  fix k assume "k \<in> scope_records s p"
  then show "k \<in> insert p (\<Union>c \<in> set (scope_children s p). scope_records s c)"
  proof (cases rule: scope_recordsE)
    case (2 f i j)
    have "effective_control_stack f ! Suc i \<in> set (scope_children s p)"
      using 2 by (intro scope_childrenI [OF co]) auto
    moreover have "k \<in> scope_records s (effective_control_stack f ! Suc i)"
      using 2 by (intro scope_recordsI [of f s "Suc i" j]) auto
    ultimately show ?thesis by blast
  qed simp
next
  fix k assume "k \<in> insert p (\<Union>c \<in> set (scope_children s p). scope_records s c)"
  then consider "k = p" | c where "c \<in> set (scope_children s p)" "k \<in> scope_records s c" by blast
  then show "k \<in> scope_records s p"
  proof cases
    case (2 c)
    then obtain f i j where f: "f \<in> live s" "Suc i \<le> j" "j < length (effective_control_stack f)"
      "effective_control_stack f ! i = p" "effective_control_stack f ! j = k"
      using scope_records_childE [OF co] by metis
    then show ?thesis by (intro scope_recordsI [of f s i j]) auto
  qed (simp add: scope_records_self)
qed

lemma scope_fibersI:
  "f \<in> live s \<Longrightarrow> i < length (effective_control_stack f) \<Longrightarrow> effective_control_stack f ! i = p
     \<Longrightarrow> fb_id f \<in> scope_fibers s p"
  unfolding scope_fibers_def in_set_conv_nth by blast

lemma scope_fibersE:
  assumes "m \<in> scope_fibers s p"
  obtains f i where "f \<in> live s" "fb_id f = m" "i < length (effective_control_stack f)"
    "effective_control_stack f ! i = p"
  using assms unfolding scope_fibers_def in_set_conv_nth by blast

lemma scope_fibers_children:
  assumes co: "stacks_coherent (sn_fibers s)"
  shows "scope_fibers s p = set (scope_direct_leaves s p) \<union> (\<Union>c \<in> set (scope_children s p). scope_fibers s c)"
proof (intro subset_antisym subsetI)
  fix m assume "m \<in> scope_fibers s p"
  then obtain f i where f: "f \<in> live s" "fb_id f = m" "i < length (effective_control_stack f)"
    "effective_control_stack f ! i = p" by (rule scope_fibersE)
  show "m \<in> set (scope_direct_leaves s p) \<union> (\<Union>c \<in> set (scope_children s p). scope_fibers s c)"
  proof (cases "Suc i = length (effective_control_stack f)")
    case True
    then have "m \<in> set (scope_direct_leaves s p)"
      unfolding scope_leaves_iff [OF co] using f by (intro bexI [of _ f]) auto
    then show ?thesis by simp
  next
    case False
    then have "Suc i < length (effective_control_stack f)" using f(3) by simp
    then have "effective_control_stack f ! Suc i \<in> set (scope_children s p)"
      "m \<in> scope_fibers s (effective_control_stack f ! Suc i)"
      using f scope_childrenI [OF co f(1)] scope_fibersI [OF f(1), of "Suc i"] by auto
    then show ?thesis by blast
  qed
next
  fix m assume "m \<in> set (scope_direct_leaves s p) \<union> (\<Union>c \<in> set (scope_children s p). scope_fibers s c)"
  then consider "m \<in> set (scope_direct_leaves s p)"
    | c where "c \<in> set (scope_children s p)" "m \<in> scope_fibers s c" by blast
  then show "m \<in> scope_fibers s p"
  proof cases
    case 1
    then obtain f i where f: "f \<in> live s" "fb_id f = m" "Suc i = length (effective_control_stack f)"
      "effective_control_stack f ! i = p" unfolding scope_leaves_iff [OF co] by blast
    then show ?thesis using scope_fibersI [OF f(1), of i] by simp
  next
    case (2 c)
    then obtain f j where f: "f \<in> live s" "fb_id f = m" "j < length (effective_control_stack f)"
      "effective_control_stack f ! j = c" by (elim scope_fibersE)
    then obtain i where "j = Suc i" "effective_control_stack f ! i = p"
      using child_above [OF co 2(1) f(1,3,4)] by metis
    then show ?thesis using f scope_fibersI [OF f(1), of i] by simp
  qed
qed

lemma scope_records_disjoint:
  assumes co: "stacks_coherent (sn_fibers s)"
    and c: "c \<in> set (scope_children s p)" "d \<in> set (scope_children s p)"
    and k: "k \<in> scope_records s c" "k \<in> scope_records s d"
  shows "c = d"
proof -
  obtain f i j where f: "f \<in> live s" "Suc i \<le> j" "j < length (effective_control_stack f)"
    "effective_control_stack f ! i = p" "effective_control_stack f ! Suc i = c" "effective_control_stack f ! j = k"
    using scope_records_childE [OF co c(1) k(1)] .
  obtain g i' j' where g: "g \<in> live s" "Suc i' \<le> j'" "j' < length (effective_control_stack g)"
    "effective_control_stack g ! i' = p" "effective_control_stack g ! Suc i' = d" "effective_control_stack g ! j' = k"
    using scope_records_childE [OF co c(2) k(2)] .
  have "i = i'" using live_coherentD [OF co f(1) g(1), of i i'] f g by simp
  moreover have "j = j' \<and> take j (effective_control_stack f) = take j (effective_control_stack g)"
    using f(6) g(6) by (intro live_coherentD [OF co f(1) g(1) f(3) g(3)]) simp
  ultimately show ?thesis using f(2,5,6) g(2,5,6) by (metis Suc_leI le_neq_implies_less nth_take)
qed

lemma parent_not_above:
  assumes co: "stacks_coherent (sn_fibers s)" and c: "c \<in> set (scope_children s p)"
  shows "p \<notin> scope_records s c"
proof
  assume "p \<in> scope_records s c"
  then obtain f i j where f: "f \<in> live s" "Suc i \<le> j" "j < length (effective_control_stack f)"
    "effective_control_stack f ! i = p" "effective_control_stack f ! j = p"
    using scope_records_childE [OF co c] by metis
  then show False
    using live_coherentD [OF co f(1) f(1), of i j] by simp
qed

text \<open>The fuel a handle needs is bounded by the rest of the stacks above it.\<close>

definition fuel_for :: "snapshot \<Rightarrow> record_id \<Rightarrow> nat \<Rightarrow> bool" where
  "fuel_for s p n \<longleftrightarrow> 0 < n \<and> (\<forall>f \<in> live s. \<forall>i < length (effective_control_stack f).
     effective_control_stack f ! i = p \<longrightarrow> length (effective_control_stack f) \<le> i + n)"

lemma fuel_for_child:
  assumes co: "stacks_coherent (sn_fibers s)" and n: "fuel_for s p (Suc n)" and c: "c \<in> set (scope_children s p)"
  shows "fuel_for s c n"
proof -
  obtain g i where g: "g \<in> live s" "Suc i < length (effective_control_stack g)"
    "effective_control_stack g ! i = p" using c unfolding scope_children_iff [OF co] by blast
  then have "length (effective_control_stack g) \<le> i + Suc n" using n unfolding fuel_for_def by auto
  then have "0 < n" using g(2) by simp
  moreover have "length (effective_control_stack f) \<le> j + n"
    if f: "f \<in> live s" "j < length (effective_control_stack f)" "effective_control_stack f ! j = c" for f j
  proof -
    obtain l where l: "j = Suc l" "effective_control_stack f ! l = p"
      using child_above [OF co c f] by blast
    then have "l < length (effective_control_stack f)" using f(2) by simp
    then show ?thesis using n f(1) l unfolding fuel_for_def by fastforce
  qed
  ultimately show ?thesis unfolding fuel_for_def by blast
qed

lemma walk_exact:
  assumes co: "stacks_coherent (sn_fibers s)"
  shows "fuel_for s p n \<Longrightarrow> \<exists>R L. v2_cancel_guard_scope n s p ([], []) = Some (R @ [p], L)
     \<and> set (R @ [p]) = scope_records s p \<and> distinct (R @ [p]) \<and> set L = scope_fibers s p"
proof (induction n arbitrary: p)
  case 0
  then show ?case by (simp add: fuel_for_def)
next
  case (Suc n)
  let ?cs = "scope_children s p"
  have "\<forall>c. \<exists>r. c \<in> set ?cs \<longrightarrow> v2_cancel_guard_scope n s c ([], []) = Some r
     \<and> set (fst r) = scope_records s c \<and> distinct (fst r) \<and> set (snd r) = scope_fibers s c"
    using Suc.IH fuel_for_child [OF co Suc.prems] by fastforce
  then obtain r where r: "v2_cancel_guard_scope n s c ([], []) = Some (fst (r c), snd (r c))"
      "set (fst (r c)) = scope_records s c" "distinct (fst (r c))" "set (snd (r c)) = scope_fibers s c"
    if "c \<in> set ?cs" for c
    by (metis prod.collapse)
  let ?R = "concat (map (fst \<circ> r) ?cs)"
  let ?L = "concat (map (snd \<circ> r) ?cs) @ scope_direct_leaves s p"
  have walk: "v2_cancel_guard_scope (Suc n) s p ([], []) = Some (?R @ [p], ?L)"
    using fold_walk [of ?cs n s "fst \<circ> r" "snd \<circ> r"] r(1) by simp
  have R: "set ?R = (\<Union>c \<in> set ?cs. scope_records s c)" using r(2) by simp
  have "distinct ?R"
    unfolding distinct_concat_iff
  proof (intro conjI ballI allI impI)
    show "distinct (removeAll [] (map (fst \<circ> r) ?cs))"
    proof -
      have "inj_on (fst \<circ> r) {c \<in> set ?cs. [] \<noteq> (fst \<circ> r) c}"
      proof (rule inj_onI)
        fix c d assume c: "c \<in> {c \<in> set ?cs. [] \<noteq> (fst \<circ> r) c}" "d \<in> {c \<in> set ?cs. [] \<noteq> (fst \<circ> r) c}"
          and eq: "(fst \<circ> r) c = (fst \<circ> r) d"
        then have "c \<in> set ?cs" "d \<in> set ?cs" "scope_records s c = scope_records s d"
          using r(2) [of c] r(2) [of d] by simp_all
        then show "c = d"
          using scope_records_disjoint [OF co, of c p d c] scope_records_self [of c s] by simp
      qed
      moreover have "distinct ?cs" by (simp add: scope_children_def)
      ultimately have "distinct (map (fst \<circ> r) (filter (\<lambda>c. [] \<noteq> (fst \<circ> r) c) ?cs))"
        by (simp add: distinct_map)
      then show ?thesis by (simp add: removeAll_filter_not_eq filter_map comp_def)
    qed
  next
    fix ys assume "ys \<in> set (map (fst \<circ> r) ?cs)"
    then show "distinct ys" using r(3) by auto
  next
    fix ys zs assume "ys \<in> set (map (fst \<circ> r) ?cs) \<and> zs \<in> set (map (fst \<circ> r) ?cs) \<and> ys \<noteq> zs"
    then show "set ys \<inter> set zs = {}"
      using r(2) scope_records_disjoint [OF co] by fastforce
  qed
  moreover have "p \<notin> set ?R" unfolding R using parent_not_above [OF co] by blast
  moreover have "set (?R @ [p]) = scope_records s p"
    unfolding set_append R scope_records_children [OF co, of p] by simp
  moreover have "set ?L = scope_fibers s p"
    unfolding scope_fibers_children [OF co, of p] using r(4) by auto
  ultimately show ?case using walk by (intro exI [of _ ?R] exI [of _ ?L]) simp
qed

lemma scope_fuel_enough: "fuel_for s p (scope_fuel s)"
proof -
  have "length (effective_control_stack f) \<le> scope_fuel s" if "f \<in> live s" for f
  proof -
    have "length (effective_control_stack f) \<in> set (map (\<lambda>f. length (effective_control_stack f)) (bt_values (sn_fibers s)))"
      using that by simp
    from member_le_sum_list [OF this] show ?thesis by (simp add: scope_fuel_def)
  qed
  then have "length (effective_control_stack f) \<le> i + scope_fuel s" if "f \<in> live s" for f i
    using that by (simp add: trans_le_add2)
  then show ?thesis unfolding fuel_for_def by (simp add: scope_fuel_def)
qed

lemma cancel_scope_exact:
  assumes "stacks_coherent (sn_fibers s)"
  obtains R L where "cancel_scope s p = Inr (R @ [p], L)" "set (R @ [p]) = scope_records s p"
    "distinct (R @ [p])" "set L = scope_fibers s p"
proof -
  obtain R L where "v2_cancel_guard_scope (scope_fuel s) s p ([], []) = Some (R @ [p], L)"
    "set (R @ [p]) = scope_records s p" "distinct (R @ [p])" "set L = scope_fibers s p"
    using walk_exact [OF assms scope_fuel_enough, of p] by blast
  then show thesis using that by (simp add: cancel_scope_def ok_or_def)
qed

section \<open>Retiring a list of records\<close>

lemma fold_retires: "fold_mutations (map CM_Retire hs) t = fold ct_retire hs t"
  by (induction hs arbitrary: t) simp_all

lemma staged_retires:
  "staged_table s (fold (\<lambda>i. push_mutation (CM_Retire i)) hs ch) = fold ct_retire hs (staged_table s ch)"
  by (simp add: fold_push_mutation fold_retires)

lemma member_retires: "member_rel (fold ct_retire hs t) = member_rel t - UNIV \<times> set hs"
  by (induction hs arbitrary: t) (auto simp: member_retire)

lemma K3_retires: "K3 t \<Longrightarrow> K3 (fold ct_retire hs t)"
  by (induction hs arbitrary: t) (auto intro: K3_retire)

lemma fold_retire_fields [simp]:
  "ch_fibers_upsert (fold (\<lambda>i. push_mutation (CM_Retire i)) hs ch) = ch_fibers_upsert ch"
  "ch_fibers_delete (fold (\<lambda>i. push_mutation (CM_Retire i)) hs ch) = ch_fibers_delete ch"
  "ch_cleanup (fold (\<lambda>i. push_mutation (CM_Retire i)) hs ch) = ch_cleanup ch"
  by (simp_all add: fold_push_mutation)

lemma live_get_iff: "fibers_wf (sn_fibers s) \<Longrightarrow> bt_get (sn_fibers s) m = Some f \<longleftrightarrow> f \<in> live s \<and> fb_id f = m"
  unfolding fibers_wf_iff bt_values_mem by metis

lemma new_not_in_scope: "fibers_wf (sn_fibers s) \<Longrightarrow> bt_get (sn_fibers s) i = None \<Longrightarrow> i \<notin> scope_fibers s h"
  using live_get_iff [of s i] by (fastforce simp: scope_fibers_def)

text \<open>The handle a fiber is parked on is above every handle of its stack.\<close>

lemma effective_above:
  assumes "i < length (effective_control_stack f)" "effective_control_stack f ! i = p"
    "a \<in> set (effective_control_stack f)" "a \<notin> set (fb_control_stack f)" "f \<in> live s"
  shows "a \<in> scope_records s p"
proof -
  have "effective_control_stack f = fb_control_stack f @ [a]"
    using assms(3,4) by (auto simp: effective_control_stack_def split: wait_state.splits)
  then show ?thesis
    using assms(1,2,5) by (intro scope_recordsI [of f s i "length (fb_control_stack f)"]) auto
qed

text \<open>What is left of the memberships after the scope of a handle has been retired, its fibers
  deleted and their remaining ancestors reconciled.\<close>

lemma cancelled_members:
  assumes co: "stacks_coherent (sn_fibers s)" and wf: "fibers_wf (sn_fibers s)"
    and R: "set R = scope_records s p" and D: "set dead = scope_fibers s p - {self}"
  shows "(others s dels self - UNIV \<times> set R) - {(m, a). a \<notin> set R \<and> m \<in> set dead \<and>
      (\<exists>f. bt_get (sn_fibers s) m = Some f \<and> a \<in> set (fb_control_stack f))}
    = others s (dels @ dead) self"
proof -
  have "(m, a) \<notin> UNIV \<times> set R \<and> \<not> (a \<notin> set R \<and> m \<in> set dead \<and>
      (\<exists>f. bt_get (sn_fibers s) m = Some f \<and> a \<in> set (fb_control_stack f))) \<longleftrightarrow> m \<notin> set dead"
    if held: "(m, a) \<in> others s dels self" for m a
  proof -
    obtain f where f: "bt_get (sn_fibers s) m = Some f" "a \<in> set (effective_control_stack f)" "m \<noteq> self"
      using held unfolding others_def by blast
    have lf: "f \<in> live s" "fb_id f = m" using f(1) live_get_iff [OF wf] by simp_all
    obtain j where j: "j < length (effective_control_stack f)" "effective_control_stack f ! j = a"
      using f(2) unfolding in_set_conv_nth by blast
    show ?thesis
    proof (cases "m \<in> scope_fibers s p")
      case True
      then obtain g i where g: "g \<in> live s" "fb_id g = m" "i < length (effective_control_stack g)"
        "effective_control_stack g ! i = p" by (rule scope_fibersE)
      have "g = f" using g(1,2) f(1) live_get_iff [OF wf, of m g] by simp
      then have "a \<in> set R \<or> a \<in> set (fb_control_stack f)"
        using effective_above [OF _ _ f(2) _ lf(1)] g(3,4) R by blast
      then show ?thesis using True D f(1,3) by auto
    next
      case False
      have "a \<notin> scope_records s p"
      proof
        assume "a \<in> scope_records s p"
        then show False
        proof (cases rule: scope_recordsE)
          case 1
          then show False using False scope_fibersI [OF lf(1) j(1)] j(2) lf(2) by simp
        next
          case (2 g i l)
          then have "j = l \<and> take j (effective_control_stack f) = take j (effective_control_stack g)"
            using j by (intro live_coherentD [OF co lf(1) 2(1) j(1) 2(3)]) simp
          then have "effective_control_stack f ! i = p" using 2(2,4) by (metis nth_take)
          then show False
            using False scope_fibersI [OF lf(1), of i p] lf(2) 2(2,3) j(1)
              \<open>j = l \<and> _\<close> by simp
        qed
      qed
      then show ?thesis using False D R by auto
    qed
  qed
  then show ?thesis unfolding others_delete by fastforce
qed

text \<open>A handle that is below the cancelled one on a coherent stack is not retired.\<close>

lemma below_kept:
  assumes ok: "stack_ok s (rest @ [p])" and a: "a \<in> set rest"
  shows "a \<notin> scope_records s p"
proof
  assume "a \<in> scope_records s p"
  then show False
  proof (cases rule: scope_recordsE)
    case 1
    then show False using a stack_ok_distinct [OF ok] by simp
  next
    case (2 f i j)
    obtain k where k: "k < length rest" "rest ! k = a" using a unfolding in_set_conv_nth by blast
    have co: "coherent (rest @ [p]) (effective_control_stack f)"
      using ok 2(1) unfolding stack_ok_def list_all_iff by blast
    have "k = j" using coherentD [OF co, of k j] k 2 by (simp add: nth_append)
    moreover have "length rest = i" using coherentD [OF co, of "length rest" i] 2 by (simp add: nth_append)
    ultimately show False using 2(2) k(1) by simp
  qed
qed

section \<open>V2CancelScope\<close>

lemma rollback_scope_changes:
  assumes co: "stacks_coherent (sn_fibers s)"
    and r: "v2_rollback_guard_scope x s h (Continues self) ch = Inr (restored, ch')"
  obtains R dead where "set R = scope_records s h" "set dead = scope_fibers s h - {self}"
    "ch' = push_event (Ev_V2ScopeCancelled h self R dead)
      (v2_reconcile_ancestor_membership s (dead_fiber_ops s dead) (bs_of_list R)
        (fold push_delete dead (fold (\<lambda>i. push_mutation (CM_Retire i)) R ch)))"
proof -
  obtain R L where "cancel_scope s h = Inr (R @ [h], L)" "set (R @ [h]) = scope_records s h"
    "set L = scope_fibers s h"
    by (rule cancel_scope_exact [OF co])
  then show thesis
    using r that [of "R @ [h]" "filter (\<lambda>c. c \<noteq> self) L"]
    by (auto simp: v2_rollback_guard_scope_def Let_def elim!: try_resE)
qed

lemma cancel_scope_ok:
  assumes ok: "tick_ok s ts" and r: "exec_cancel_scope x s ts = Inr r"
  shows "step_ok s r"
proof -
  note parts = tick_ok_parts [OF ok]
  let ?self = "fb_id (tk_fiber ts)"
  let ?dels = "ch_fibers_delete (tk_changes ts)"
  have co: "stacks_coherent (sn_fibers s)" using parts(7) unfolding stack_ok_def by blast
  obtain h rest restored ch where stack: "fb_control_stack (tk_fiber ts) = rest @ [h]"
    and roll: "v2_rollback_guard_scope x s h (Continues ?self) (push_delta (CS_Pop ?self h) (tk_changes ts))
       = Inr (restored, ch)"
    and adv: "advance (ts\<lparr>tk_fiber := (tk_fiber ts)\<lparr>fb_control_stack := rest\<rparr>, tk_changes := ch,
       tk_instance := restore_instance restored (tk_instance ts)\<rparr>) = Inr r"
    using r unfolding exec_cancel_scope_def
    by (auto elim!: try_resE simp: pop_handle_Inr upd_changes_def)
  obtain R dead where R: "set R = scope_records s h" and dead: "set dead = scope_fibers s h - {?self}"
    and ch: "ch = push_event (Ev_V2ScopeCancelled h ?self R dead)
      (v2_reconcile_ancestor_membership s (dead_fiber_ops s dead) (bs_of_list R)
        (fold push_delete dead (fold (\<lambda>i. push_mutation (CM_Retire i)) R
          (push_delta (CS_Pop ?self h) (tk_changes ts)))))"
    by (rule rollback_scope_changes [OF co roll])
  let ?ch1 = "fold push_delete dead (fold (\<lambda>i. push_mutation (CM_Retire i)) R
      (push_delta (CS_Pop ?self h) (tk_changes ts)))"
  have T1: "staged_table s ?ch1 = fold ct_retire R (staged_table s (tk_changes ts))"
    by (simp add: fold_push_delete fold_push_mutation fold_retires push_delta_def)
  have T2: "staged_table s ch = staged_table s
      (v2_reconcile_ancestor_membership s (dead_fiber_ops s dead) (bs_of_list R) ?ch1)"
    by (simp add: ch push_event_def)
  have rest: "(?self, a) \<notin> UNIV \<times> set R" if "a \<in> set rest" for a
    using below_kept [of s rest h a] parts(7) stack that R by simp
  have h: "h \<in> set R" "h \<notin> set rest" using R scope_records_self parts(9) stack by simp_all
  have "member_rel (staged_table s ch) = others s (?dels @ dead) ?self \<union> {?self} \<times> set rest"
    unfolding T2 reconcile_dead [OF parts(2)] T1 member_retires parts(10)
      cancelled_members [OF co parts(1) R dead, symmetric] stack
    using rest h dead by (auto simp: bs_set_of_list)
  moreover have "K3 (staged_table s ch)"
    unfolding T2 by (intro reconcile_K3 parts(2), unfold T1) (intro K3_retires parts(8))
  ultimately show ?thesis
    using parts(3-6) stack_ok_prefix [of s rest "[h]"] parts(7) stack dead
    by (intro advance_ok [OF adv] tick_okI [OF ok])
       (simp_all add: ch push_event_def fold_push_delete push_delta_def)
qed

section \<open>Guard triggers\<close>

lemma find_mapE:
  assumes "find_map f xs = Some y"
  obtains x where "x \<in> set xs" "f x = Some y"
  using assms by (induction xs) (auto split: option.splits)

lemma find_map_NoneD: "find_map f xs = None \<Longrightarrow> x \<in> set xs \<Longrightarrow> f x = None"
  by (induction xs) (auto split: option.splits)

text \<open>The handler's stack is a prefix of a live stack, up to the guard.\<close>

lemma handler_stack_cases:
  obtains "handler_stack_of s h interrupting = []"
  | f pos where "f \<in> live s" "pos < length (fb_control_stack f)" "fb_control_stack f ! pos = h"
    "handler_stack_of s h interrupting = take (if interrupting then pos else Suc pos) (fb_control_stack f)"
proof (cases "find_map (\<lambda>f. map_option (\<lambda>pos. take (if interrupting then pos else pos + 1) (fb_control_stack f))
              (position (\<lambda>i. i = h) (fb_control_stack f))) (bt_values (sn_fibers s))")
  case None
  then show thesis using that(1) by (simp add: handler_stack_of_def unwrap_or_def)
next
  case (Some hs)
  then obtain f pos where f: "f \<in> live s" "position (\<lambda>i. i = h) (fb_control_stack f) = Some pos"
    "hs = take (if interrupting then pos else pos + 1) (fb_control_stack f)"
    by (auto elim!: find_mapE)
  then show thesis
    using that(2) [of f pos] position_Some [OF f(2)] Some by (simp add: handler_stack_of_def unwrap_or_def)
qed

lemma stack_ok_live:
  assumes co: "stacks_coherent (sn_fibers s)" and f: "f \<in> live s"
  shows "stack_ok s (effective_control_stack f)"
  using assms unfolding stack_ok_def list_all_iff stacks_coherent_def by blast

lemma effective_prefix: "\<exists>zs. effective_control_stack f = fb_control_stack f @ zs"
  by (simp add: effective_control_stack_def split: wait_state.split)

lemma handler_stack_ok:
  assumes co: "stacks_coherent (sn_fibers s)"
  shows "stack_ok s (handler_stack_of s h interrupting)"
    and "a \<in> set (handler_stack_of s h interrupting) \<Longrightarrow> \<exists>f \<in> live s. a \<in> set (effective_control_stack f)"
    and "interrupting \<Longrightarrow> a \<in> set (handler_stack_of s h interrupting) \<Longrightarrow> a \<notin> scope_records s h"
proof -
  have nil: "stack_ok s []" using co by (simp add: stack_ok_def coherent_def list_all_iff)
  have parts: "\<exists>zs. effective_control_stack f = take n (fb_control_stack f) @ zs" for f n
    using effective_prefix [of f] by (metis append_assoc append_take_drop_id)
  show "stack_ok s (handler_stack_of s h interrupting)"
  proof (cases rule: handler_stack_cases [of s h interrupting])
    case (2 f pos)
    obtain zs where "effective_control_stack f = handler_stack_of s h interrupting @ zs"
      using parts [of f "if interrupting then pos else Suc pos"] 2(4) by auto
    then show ?thesis using stack_ok_live [OF co 2(1)] stack_ok_prefix by metis
  qed (simp add: nil)
  show "\<exists>f \<in> live s. a \<in> set (effective_control_stack f)" if "a \<in> set (handler_stack_of s h interrupting)"
    using that
  proof (cases rule: handler_stack_cases [of s h interrupting])
    case (2 f pos)
    then have "a \<in> set (fb_control_stack f)" using that by (metis in_set_takeD)
    then show ?thesis using effective_prefix [of f] 2(1) by (intro bexI [of _ f]) auto
  qed simp
  show "a \<notin> scope_records s h" if "interrupting" "a \<in> set (handler_stack_of s h interrupting)"
    using that(2)
  proof (cases rule: handler_stack_cases [of s h interrupting])
    case (2 f pos)
    have "take (Suc pos) (fb_control_stack f) = take pos (fb_control_stack f) @ [h]"
      using 2 by (simp add: take_Suc_conv_app_nth)
    then have "stack_ok s (take pos (fb_control_stack f) @ [h])"
      using parts [of f "Suc pos"] stack_ok_live [OF co 2(1)] stack_ok_prefix by metis
    then show ?thesis using below_kept that 2(4) by simp
  qed simp
qed

lemma fold_job_fields [simp]:
  "ch_concurrency_mutations (fold push_job_mutation ms ch) = ch_concurrency_mutations ch"
  "ch_fibers_upsert (fold push_job_mutation ms ch) = ch_fibers_upsert ch"
  "ch_fibers_delete (fold push_job_mutation ms ch) = ch_fibers_delete ch"
  "ch_cleanup (fold push_job_mutation ms ch) = ch_cleanup ch"
  by (simp_all add: fold_push_job_mutation)

text \<open>The memberships after the handler has joined the scopes around it.\<close>

lemma handler_members:
  assumes inv: "frame_inv (sn_fibers s) (sn_concurrency_table s)"
    and new: "bt_get (sn_fibers s) i = None"
    and held: "\<And>a. a \<in> set hs \<Longrightarrow> \<exists>f \<in> live s. a \<in> set (effective_control_stack f)"
    and ch: "ch_concurrency_mutations ch = []"
  shows "member_rel (staged_table s (v2_reconcile_ancestor_membership s
      (map (\<lambda>a. (a, Add i)) hs) (bs_of_list []) ch)) = others s [] i \<union> {i} \<times> set hs"
proof -
  have M: "member_rel (sn_concurrency_table s) = holds_rel (sn_fibers s)"
    and wf: "ct_wf (sn_concurrency_table s)" using inv by (simp_all add: frame_inv_def)
  have others: "others s [] i = holds_rel (sn_fibers s)"
    using new by (auto simp: others_def holds_rel_def)
  have "\<exists>r. armed_at (sn_concurrency_table s) a r" if a: "a \<in> set hs" for a
  proof -
    obtain f m where "a \<in> set (effective_control_stack f)" "bt_get (sn_fibers s) m = Some f"
      using held [OF a] unfolding Bex_def bt_values_mem by blast
    then have "(m, a) \<in> member_rel (sn_concurrency_table s)" unfolding M holds_rel_def by blast
    then show ?thesis unfolding member_rel_def by blast
  qed
  then show ?thesis
    unfolding others by (subst reconcile_member [OF wf]) (auto simp: ch M)
qed

lemma interrupted_ok:
  assumes inv: "frame_inv (sn_fibers s) (sn_concurrency_table s)"
    and new: "bt_get (sn_fibers s) i = None"
    and ch: "member_rel (staged_table s ch) = others s [] i \<union> {i} \<times> set hs" "K3 (staged_table s ch)"
    and hs: "\<And>a. a \<in> set hs \<Longrightarrow> a \<notin> set R"
    and R: "set R = scope_records s h" and L: "set L = scope_fibers s h"
    and ch': "ch_concurrency_mutations ch' = ch_concurrency_mutations
      (v2_reconcile_ancestor_membership s (dead_fiber_ops s L) (bs_of_list R)
        (fold push_job_mutation js (fold push_delete L (fold (\<lambda>i. push_mutation (CM_Retire i)) R ch))))"
  shows "member_rel (staged_table s ch') = others s L i \<union> {i} \<times> set hs" "K3 (staged_table s ch')"
proof -
  have wf: "fibers_wf (sn_fibers s)" "ct_wf (sn_concurrency_table s)" "stacks_coherent (sn_fibers s)"
    using inv by (simp_all add: frame_inv_def)
  let ?ch1 = "fold push_job_mutation js (fold push_delete L (fold (\<lambda>i. push_mutation (CM_Retire i)) R ch))"
  have T1: "staged_table s ?ch1 = fold ct_retire R (staged_table s ch)"
    by (simp add: fold_push_delete fold_push_mutation fold_retires)
  have own: "i \<notin> set L"
    using new_not_in_scope [OF wf(1) new] L by simp
  then have L': "set L = scope_fibers s h - {i}" using L by blast
  show "member_rel (staged_table s ch') = others s L i \<union> {i} \<times> set hs"
    unfolding ch' reconcile_dead [OF wf(2)] T1 member_retires ch(1)
    using cancelled_members [OF wf(3,1) R L', of "[]"] hs own by (auto simp: bs_set_of_list)
  show "K3 (staged_table s ch')"
    unfolding ch' by (intro reconcile_K3 wf(2), unfold T1) (intro K3_retires ch(2))
qed

lemma trigger_with_target_ok:
  assumes inv: "frame_inv (sn_fibers s) (sn_concurrency_table s)"
    and new: "bt_get (sn_fibers s) (derived_id x cx 0) = None"
    and ok: "v2_trigger_guard_changes_with_target x s h cx target = Inr ch"
    and t: "t = finish ch' inst" "ch_fibers_upsert ch' = ch_fibers_upsert ch"
      "ch_fibers_delete ch' = ch_fibers_delete ch" "ch_cleanup ch' = ch_cleanup ch"
      "ch_concurrency_mutations ch' = ch_concurrency_mutations ch"
  shows "post_ok s t"
proof -
  have wf: "fibers_wf (sn_fibers s)" "ct_wf (sn_concurrency_table s)" "stacks_coherent (sn_fibers s)"
      "K3 (sn_concurrency_table s)"
    using inv by (simp_all add: frame_inv_def)
  let ?i = "derived_id x cx 0"
  obtain b where ok: "(let handler_stack = handler_stack_of s h b;
            handler_fiber = (fiber_new ?i target)\<lparr>fb_control_stack := handler_stack\<rparr>;
            ch = push_event (Ev_FiberSpawned ?i target None) (push_upsert handler_fiber changes_default);
            ch = v2_reconcile_ancestor_membership s (map (\<lambda>ancestor. (ancestor, Add ?i)) handler_stack)
                   (bs_of_list []) ch
        in if b then
             try_res (cancel_scope s h) (\<lambda>(retire_order, cancelled_fibers).
               (let ch = fold (\<lambda>i. push_mutation (CM_Retire i)) retire_order ch;
                    ch = fold push_delete cancelled_fibers ch;
                    ch = fold push_job_mutation (void_jobs s cancelled_fibers) ch;
                    ch = v2_reconcile_ancestor_membership s (dead_fiber_ops s cancelled_fibers)
                           (bs_of_list retire_order) ch
                in Inr (push_event (Ev_V2GuardTriggered h ?i retire_order cancelled_fibers) ch)))
           else Inr (push_event (Ev_V2GuardNTriggered h ?i) ch)) = Inr ch"
    using ok unfolding v2_trigger_guard_changes_with_target_def Let_def
    by (auto elim!: try_resE split: if_splits)
  let ?hs = "handler_stack_of s h b"
  let ?f = "(fiber_new ?i target)\<lparr>fb_control_stack := ?hs\<rparr>"
  define ch0 where "ch0 = v2_reconcile_ancestor_membership s (map (\<lambda>a. (a, Add ?i)) ?hs) (bs_of_list [])
    (push_event (Ev_FiberSpawned ?i target None) (push_upsert ?f changes_default))"
  have f: "fb_id ?f = ?i" "effective_control_stack ?f = ?hs"
    by (simp_all add: fiber_new_def effective_control_stack_def)
  have ch0: "ch_fibers_upsert ch0 = [?f]" "ch_fibers_delete ch0 = []" "ch_cleanup ch0 = None"
    by (simp_all add: ch0_def push_defs changes_default_def)
  have M0: "member_rel (staged_table s ch0) = others s [] ?i \<union> {?i} \<times> set ?hs"
    unfolding ch0_def
    by (rule handler_members [OF inv new handler_stack_ok(2) [OF wf(3)]])
       (simp_all add: push_defs changes_default_def)
  have K0: "K3 (staged_table s ch0)"
    unfolding ch0_def by (rule reconcile_K3 [OF wf(2)]) (simp add: push_defs changes_default_def wf(4))
  have finished: "post_ok s t"
    if "ch_fibers_upsert ch = [?f]" "ch_cleanup ch = None" "?i \<notin> set (ch_fibers_delete ch)"
      "member_rel (staged_table s ch) = others s (ch_fibers_delete ch) ?i \<union> {?i} \<times> set ?hs"
      "K3 (staged_table s ch)"
    using that t f handler_stack_ok(1) [OF wf(3)]
    by (intro post_frameI [OF wf(1,2), of t ?f]) (simp_all add: unwrap_or_def)
  show ?thesis
  proof (cases b)
    case False
    then have "ch = push_event (Ev_V2GuardNTriggered h ?i) ch0" using ok by (simp add: Let_def ch0_def)
    then show ?thesis using finished M0 K0 ch0 by (simp add: push_event_def)
  next
    case True
    obtain R L where RL: "cancel_scope s h = Inr (R, L)" "set R = scope_records s h"
      "set L = scope_fibers s h"
      by (rule cancel_scope_exact [OF wf(3), of h])
    let ?ch2 = "v2_reconcile_ancestor_membership s (dead_fiber_ops s L) (bs_of_list R)
       (fold push_job_mutation (void_jobs s L) (fold push_delete L
         (fold (\<lambda>i. push_mutation (CM_Retire i)) R ch0)))"
    have ch: "ch = push_event (Ev_V2GuardTriggered h ?i R L) ?ch2"
      using ok True RL(1) by (simp add: Let_def ch0_def)
    have hs: "a \<notin> set R" if "a \<in> set ?hs" for a
      using handler_stack_ok(3) [OF wf(3) True that] RL(2) by simp
    have own: "?i \<notin> set L"
      using new_not_in_scope [OF wf(1) new] RL(3) by simp
    note post = interrupted_ok [OF inv new M0 K0 hs RL(2,3), where ch' = ch and js = "void_jobs s L"]
    show ?thesis
      using post ch0 own by (intro finished) (simp_all add: ch push_event_def fold_push_delete)
  qed
qed

lemma trigger_guard_ok:
  assumes inv: "frame_inv (sn_fibers s) (sn_concurrency_table s)"
    and new: "bt_get (sn_fibers s) (derived_id x cx 0) = None"
    and ok: "v2_trigger_guard_changes x s h cx = Inr ch"
    and t: "t = finish ch' inst" "ch_fibers_upsert ch' = ch_fibers_upsert ch"
      "ch_fibers_delete ch' = ch_fibers_delete ch" "ch_cleanup ch' = ch_cleanup ch"
      "ch_concurrency_mutations ch' = ch_concurrency_mutations ch"
  shows "post_ok s t"
proof -
  obtain target where "v2_trigger_guard_changes_with_target x s h cx target = Inr ch"
    using ok unfolding v2_trigger_guard_changes_def by (auto elim!: try_resE split: if_splits)
  then show ?thesis using trigger_with_target_ok [OF inv new _ t] by blast
qed

end
