(* ===== verification/Invariants.thy ===== *)
theory Invariants
  imports Cancellation
begin

text \<open>
  The K-invariants along a tick and across the other commands of the kernel.
  \<open>word_ok\<close> collects what a word of the interpreter relies on, \<open>words_ready\<close> says that it holds
  at every step of a run.
\<close>

declare ok_or_Inr [simp]

section \<open>A tick\<close>

fun word_ok ::
  "ext \<Rightarrow> snapshot \<Rightarrow> deterministic_context \<Rightarrow> instr \<Rightarrow> tick_state \<Rightarrow> bool" where
  "word_ok x s cx (I_V2Guard _) ts = fresh_record x s cx ts"
| "word_ok x s cx (I_V2GuardN _) ts = fresh_record x s cx ts"
| "word_ok x s cx I_V2GuardR ts = fresh_record x s cx ts"
| "word_ok x s cx (I_V2RaceOpen _) ts = fresh_record x s cx ts"
| "word_ok x s cx (I_V2Fork targets _) ts = fork_ready x s cx targets ts"
| "word_ok x s cx (I_V2Join _) ts = join_ready s ts"
| "word_ok x s cx I_V2GuardEnd ts = sole_member s ts"
| "word_ok x s cx I_V2GuardNEnd ts = sole_member s ts"
| "word_ok x s cx I_V2GuardREnd ts = sole_member s ts"
| "word_ok x s cx I_End ts = (fb_control_stack (tk_fiber ts) = [])"
| "word_ok x s cx _ ts = True"

lemma exec_instr_ok:
  assumes ok: "tick_ok s ts" and word: "word_ok x s cx i ts" and r: "exec_instr x w s cx i ts = Inr r"
  shows "step_ok s r"
  using r word
  by (cases i)
     (simp_all add: goto_ok [OF _ ok] advance_ok [OF _ ok] advance_ok [OF _ tick_ok_push_value [OF ok]]
        simple_words_ok [OF ok] data_words_ok [OF ok] job_words_ok [OF ok] wait_words_ok [OF ok]
        arm_words_ok [OF ok] open_words_ok [OF ok] exec_guard_end_def exec_guard_n_end_def
        exec_guard_r_end_def close_ok [OF ok] race_close_ok [OF ok] end_ok [OF ok]
        end_terminate_ok [OF ok] join_ok [OF ok] fork_ok [OF ok] guard_arm_error_ok [OF ok]
        cancel_scope_ok [OF ok])

primrec words_ready ::
  "nat \<Rightarrow> ext \<Rightarrow> executable_workflow \<Rightarrow> snapshot \<Rightarrow> deterministic_context \<Rightarrow> tick_state \<Rightarrow> bool" where
  "words_ready 0 x w s cx ts = True"
| "words_ready (Suc n) x w s cx ts =
     (case vec_get (wf_instructions w) (unat (fb_pc (tk_fiber ts))) of
        None \<Rightarrow> True
      | Some i \<Rightarrow> word_ok x s cx i ts \<and>
          (case exec_instr x w s cx i ts of
             Inr (Next ts') \<Rightarrow> words_ready n x w s cx ts'
           | _ \<Rightarrow> True))"

lemma tick_loop_ok:
  "tick_ok s ts \<Longrightarrow> words_ready n x w s cx ts \<Longrightarrow> tick_loop n x w s cx ts = Inr t \<Longrightarrow> post_ok s t"
proof (induction n arbitrary: ts)
  case (Suc n)
  obtain i where i: "vec_get (wf_instructions w) (unat (fb_pc (tk_fiber ts))) = Some i"
    using Suc.prems(3) by (cases "vec_get (wf_instructions w) (unat (fb_pc (tk_fiber ts)))")
      (simp_all add: tick_step_def)
  obtain r where r: "exec_instr x w s cx i ts = Inr r"
    using Suc.prems(3) i by (auto simp: tick_step_def elim: try_resE)
  have "step_ok s r" using exec_instr_ok [OF Suc.prems(1) _ r] Suc.prems(2) i by simp
  then show ?case
    using Suc i r by (cases r) (auto simp: tick_step_def)
qed simp

lemma tick_start_ok:
  assumes inv: "frame_inv (sn_fibers s) (sn_concurrency_table s)"
    and f: "bt_get (sn_fibers s) m = Some f" "fb_wait f = W_Running"
  shows "tick_ok s (tick_start s f)"
proof -
  have wf: "fibers_wf (sn_fibers s)" "stacks_coherent (sn_fibers s)" using inv by (simp_all add: frame_inv_def)
  have lf: "f \<in> live s" "fb_id f = m" using f(1) live_get_iff [OF wf(1)] by simp_all
  have "effective_control_stack f = fb_control_stack f" using f(2) by (simp add: effective_control_stack_def)
  then have stack: "stack_ok s (fb_control_stack f)" using stack_ok_live [OF wf(2) lf(1)] by simp
  have "bt_get (live_fibers s (tick_start s f)) k = bt_get (sn_fibers s) k" for k
    using f(1) lf(2) unfolding live_fibers_def get_fiber_deltas
    by (auto simp: tick_start_def changes_default_def)
  then have "live_fibers s (tick_start s f) = sn_fibers s" by (intro bt_eqI ext)
  then show ?thesis
    using inv f stack
    by (simp add: tick_ok_def tick_start_def changes_default_def frame_inv_def)
qed

lemma apply_tick_ok:
  assumes inv: "frame_inv (sn_fibers s) (sn_concurrency_table s)"
    and ready: "\<And>i f. select_fiber s m = Inr i \<Longrightarrow> bt_get (sn_fibers s) i = Some f \<Longrightarrow>
       words_ready (unat (max_steps (wf_limits w))) x w s cx (tick_start s f)"
    and t: "apply_tick x w s (Cmd_Tick m) cx = Inr t"
  shows "post_ok s t"
proof -
  obtain i f where f: "select_fiber s m = Inr i" "bt_get (sn_fibers s) i = Some f" "fb_wait f = W_Running"
    and loop: "tick_loop (unat (max_steps (wf_limits w))) x w s cx (tick_start s f) = Inr t"
    using t by (auto simp: apply_tick_def elim!: try_resE split: if_splits)
  show ?thesis
    using tick_loop_ok [OF tick_start_ok [OF inv f(2,3)] ready [OF f(1,2)] loop] .
qed

end
