(* ===== verification/CommandInvariants.thy ===== *)
theory CommandInvariants
  imports Invariants
begin

text \<open>
  The commands other than \<open>Tick\<close> keep the K-invariants too; with \<open>apply_tick_ok\<close> this covers the
  whole dispatch of \<open>apply\<close>.
\<close>

section \<open>What a command relies on\<close>

definition sole_holder :: "snapshot \<Rightarrow> record_id \<Rightarrow> uuid \<Rightarrow> bool" where
  "sole_holder s h m =
     list_all (\<lambda>g. h \<in> set (effective_control_stack g) \<longrightarrow> fb_id g = m) (bt_values (sn_fibers s))"

text \<open>A fiber parked on a race shares the race with no other fiber.\<close>

definition races_private :: "snapshot \<Rightarrow> bool" where
  "races_private s =
     list_all (\<lambda>f. case fb_wait f of W_V2Race h _ \<Rightarrow> sole_holder s h (fb_id f) | _ \<Rightarrow> True)
       (bt_values (sn_fibers s))"

text \<open>The guard is on the stacks of its fibers, not the handle one of them is parked on.\<close>

definition guard_stacked :: "snapshot \<Rightarrow> record_id \<Rightarrow> bool" where
  "guard_stacked s h =
     list_all (\<lambda>f. h \<in> set (effective_control_stack f) \<longrightarrow> h \<in> set (fb_control_stack f))
       (bt_values (sn_fibers s))"

definition fresh_fiber :: "ext \<Rightarrow> snapshot \<Rightarrow> deterministic_context \<Rightarrow> bool" where
  "fresh_fiber x s cx \<longleftrightarrow> \<not> bt_contains (sn_fibers s) (derived_id x cx 0)"

fun command_ready ::
  "ext \<Rightarrow> executable_workflow \<Rightarrow> snapshot \<Rightarrow> command \<Rightarrow> deterministic_context \<Rightarrow> bool" where
  "command_ready x w s (Cmd_Tick m) cx =
     (case select_fiber s m of
        Inl _ \<Rightarrow> True
      | Inr i \<Rightarrow>
          (case bt_get (sn_fibers s) i of
             None \<Rightarrow> True
           | Some f \<Rightarrow> words_ready (unat (max_steps (wf_limits w))) x w s cx (tick_start s f)))"
| "command_ready x w s (Cmd_TimerFired timer _) cx =
     (races_private s \<and> fresh_fiber x s cx \<and>
      (case tm_kind timer of TK_V2GuardTimer h \<Rightarrow> guard_stacked s h | _ \<Rightarrow> True))"
| "command_ready x w s (Cmd_EffectCompleted _ _) cx = races_private s"
| "command_ready x w s (Cmd_MessageDelivered _ _ _ _ _ _) cx = races_private s"
| "command_ready x w s (Cmd_EffectFailed _ _ _ _ _ _) cx = fresh_fiber x s cx"
| "command_ready x w s (Cmd_V2TriggerGuard _) cx = fresh_fiber x s cx"
| "command_ready x w s (Cmd_StartChildResult _ _ _) cx =
     (case bt_values (sn_fibers s) of
        [] \<Rightarrow> True
      | f # _ \<Rightarrow> effective_control_stack f = fb_control_stack f)"
| "command_ready x w s _ cx = True"

section \<open>Frames of the simple transitions\<close>

lemma frame_inv_parts:
  assumes "frame_inv (sn_fibers s) (sn_concurrency_table s)"
  shows "fibers_wf (sn_fibers s)" "ct_wf (sn_concurrency_table s)" "stacks_coherent (sn_fibers s)"
    "K3 (sn_concurrency_table s)" "member_rel (sn_concurrency_table s) = holds_rel (sn_fibers s)"
  using assms by (simp_all add: frame_inv_def)

lemma unchanged_ok:
  assumes "frame_inv (sn_fibers s) (sn_concurrency_table s)" "tr_fibers_upsert t = []" "tr_fibers_delete t = []"
    "\<not> tc_delete_all_fibers (tr_terminal_cleanup t)" "tr_concurrency_mutations t = []"
  shows "post_ok s t"
  using assms by (simp add: post_ok_def derive_post_transition_frame_def apply_fiber_deltas_def)

lemma holds_split:
  assumes "bt_get (sn_fibers s) m = Some f"
  shows "holds_rel (sn_fibers s) = others s [] m \<union> {m} \<times> set (effective_control_stack f)"
  using assms by (auto simp: holds_rel_def others_def)

lemma resumed_ok:
  assumes inv: "frame_inv (sn_fibers s) (sn_concurrency_table s)" and f: "bt_get (sn_fibers s) m = Some f"
    and f': "fb_id f' = m" "effective_control_stack f' = effective_control_stack f"
    and t: "tr_fibers_upsert t = [f']" "tr_fibers_delete t = []"
      "\<not> tc_delete_all_fibers (tr_terminal_cleanup t)" "tr_concurrency_mutations t = []"
  shows "post_ok s t"
proof -
  note parts = frame_inv_parts [OF inv]
  have "f \<in> live s" using f live_get_iff [OF parts(1)] by simp
  then have "stack_ok s (effective_control_stack f')" using stack_ok_live [OF parts(3)] f'(2) by simp
  then show ?thesis
    using parts(4,5) holds_split [OF f] f' t by (intro post_frameI [OF parts(1,2) t(1,3)]) simp_all
qed

lemma race_won_ok:
  assumes inv: "frame_inv (sn_fibers s) (sn_concurrency_table s)" and f: "bt_get (sn_fibers s) m = Some f"
    and wait: "fb_wait f = W_V2Race h arms" and sole: "sole_holder s h m"
    and f': "fb_id f' = m" "fb_wait f' = W_Running" "fb_control_stack f' = fb_control_stack f"
    and t: "tr_fibers_upsert t = [f']" "tr_fibers_delete t = []"
      "\<not> tc_delete_all_fibers (tr_terminal_cleanup t)" "tr_concurrency_mutations t = [CM_Retire h]"
  shows "post_ok s t"
proof -
  note parts = frame_inv_parts [OF inv]
  have eff: "effective_control_stack f = fb_control_stack f @ [h]"
      "effective_control_stack f' = fb_control_stack f"
    using wait f' by (simp_all add: effective_control_stack_def)
  have lf: "f \<in> live s" using f live_get_iff [OF parts(1)] by simp
  have ok: "stack_ok s (fb_control_stack f @ [h])" using stack_ok_live [OF parts(3) lf] eff by simp
  have "(g, h) \<notin> others s [] m" for g
    using sole live_get_iff [OF parts(1)] unfolding sole_holder_def list_all_iff others_def by auto
  moreover have "h \<notin> set (fb_control_stack f)" using stack_ok_distinct [OF ok] by simp
  ultimately have "member_rel (ct_retire h (sn_concurrency_table s)) =
      others s [] m \<union> {m} \<times> set (fb_control_stack f)"
    unfolding member_retire parts(5) holds_split [OF f] eff by fastforce
  then show ?thesis
    using stack_ok_prefix [OF ok] K3_retire [OF parts(4)] f' t eff
    by (intro post_frameI [OF parts(1,2) t(1,3)]) simp_all
qed

lemma parked_eff:
  "effective_control_stack (f\<lparr>fb_wait := W_Running\<rparr>) = fb_control_stack f"
  "effective_control_stack (f\<lparr>fb_wait := W_Incident i\<rparr>) = fb_control_stack f"
  by (simp_all add: effective_control_stack_def)

section \<open>Rollback of a scope whose trigger dies\<close>

lemma rollback_dies_changes:
  assumes co: "stacks_coherent (sn_fibers s)"
    and r: "v2_rollback_guard_scope x s h (Dies self) ch = Inr (restored, ch')"
  obtains R L where "set R = scope_records s h" "set L = scope_fibers s h"
    "ch' = push_event (Ev_V2ScopeCancelled h self R L)
      (v2_reconcile_ancestor_membership s (dead_fiber_ops s L) (bs_of_list R)
        (fold push_delete L (fold (\<lambda>i. push_mutation (CM_Retire i)) R ch)))"
proof -
  obtain R L where "cancel_scope s h = Inr (R, L)" "set R = scope_records s h" "set L = scope_fibers s h"
    by (rule cancel_scope_exact [OF co, of h])
  then show thesis
    using r that [of R L]
    by (auto simp: v2_rollback_guard_scope_def Let_def elim!: try_resE)
qed

lemma armed_retires: "armed_at (fold ct_retire hs t) a r \<longleftrightarrow> a \<notin> set hs \<and> armed_at t a r"
  by (induction hs arbitrary: t) (auto simp: armed_retire)

text \<open>A record outside the cancelled scope stays armed.\<close>

lemma still_armed:
  assumes wf: "ct_wf (sn_concurrency_table s)" and a: "armed_at (sn_concurrency_table s) a r" "a \<notin> set R"
    and ch: "ch_concurrency_mutations ch = ch_concurrency_mutations
      (v2_reconcile_ancestor_membership s (dead_fiber_ops s L) (bs_of_list R)
        (fold push_delete L (fold (\<lambda>i. push_mutation (CM_Retire i)) R changes_default)))"
  shows "\<exists>r. armed_at (staged_table s ch) a r"
proof -
  have "staged_table s (fold push_delete L (fold (\<lambda>i. push_mutation (CM_Retire i)) R changes_default)) =
      fold ct_retire R (sn_concurrency_table s)"
    by (simp add: fold_push_delete fold_push_mutation fold_retires changes_default_def)
  then show ?thesis unfolding ch reconcile_armed [OF wf] using a by (auto simp: armed_retires)
qed

lemma dies_members:
  assumes inv: "frame_inv (sn_fibers s) (sn_concurrency_table s)"
    and f: "bt_get (sn_fibers s) i = Some f" "h \<in> set (effective_control_stack f)"
    and R: "set R = scope_records s h" and L: "set L = scope_fibers s h"
    and ch: "ch_concurrency_mutations ch = ch_concurrency_mutations
      (v2_reconcile_ancestor_membership s (dead_fiber_ops s L) (bs_of_list R)
        (fold push_delete L (fold (\<lambda>i. push_mutation (CM_Retire i)) R changes_default)))"
  shows "member_rel (staged_table s ch) = others s (filter (\<lambda>c. c \<noteq> i) L) i" "K3 (staged_table s ch)"
proof -
  note parts = frame_inv_parts [OF inv]
  let ?ch1 = "fold push_delete L (fold (\<lambda>i. push_mutation (CM_Retire i)) R changes_default)"
  have T1: "staged_table s ?ch1 = fold ct_retire R (sn_concurrency_table s)"
    by (simp add: fold_push_delete fold_push_mutation fold_retires changes_default_def)
  have lf: "f \<in> live s" "fb_id f = i" using f(1) live_get_iff [OF parts(1)] by simp_all
  obtain k where k: "k < length (effective_control_stack f)" "effective_control_stack f ! k = h"
    using f(2) unfolding in_set_conv_nth by blast
  have own: "i \<in> set L" using scope_fibersI [OF lf(1) k] lf(2) L by simp
  have gone: "a \<in> set R \<or> a \<in> set (fb_control_stack f)" if "a \<in> set (effective_control_stack f)" for a
    using effective_above [OF k that _ lf(1)] R by blast
  have L': "set (filter (\<lambda>c. c \<noteq> i) L) = scope_fibers s h - {i}" using L by auto
  have mine: "(i, a) \<notin> others s [] i" for a by (rule others_self)
  have split: "(others s [] i \<union> {i} \<times> set (effective_control_stack f) - UNIV \<times> set R) -
      {(m, a). a \<notin> set R \<and> m \<in> set L \<and> (\<exists>f. bt_get (sn_fibers s) m = Some f \<and> a \<in> set (fb_control_stack f))}
    = (others s [] i - UNIV \<times> set R) - {(m, a). a \<notin> set R \<and> m \<in> set (filter (\<lambda>c. c \<noteq> i) L) \<and>
        (\<exists>f. bt_get (sn_fibers s) m = Some f \<and> a \<in> set (fb_control_stack f))}"
    using gone own f(1) mine by auto
  show "member_rel (staged_table s ch) = others s (filter (\<lambda>c. c \<noteq> i) L) i"
    unfolding ch reconcile_dead [OF parts(2)] T1 member_retires parts(5) holds_split [OF f(1)]
      bs_set_of_list split
    using cancelled_members [OF parts(3,1) R L', of "[]"] by simp
  show "K3 (staged_table s ch)"
    unfolding ch by (intro reconcile_K3 parts(2), unfold T1) (intro K3_retires parts(4))
qed

lemma dies_ok:
  assumes inv: "frame_inv (sn_fibers s) (sn_concurrency_table s)"
    and f: "bt_get (sn_fibers s) i = Some f" "h \<in> set (effective_control_stack f)"
    and roll: "v2_rollback_guard_scope x s h (Dies i) changes_default = Inr (restored, ch)"
    and t: "t = finish ch' inst" "ch_fibers_upsert ch' = ch_fibers_upsert ch"
      "ch_fibers_delete ch' = ch_fibers_delete ch" "ch_cleanup ch' = ch_cleanup ch"
      "ch_concurrency_mutations ch' = ch_concurrency_mutations ch"
  shows "post_ok s t"
proof -
  note parts = frame_inv_parts [OF inv]
  obtain R L where RL: "set R = scope_records s h" "set L = scope_fibers s h"
    and ch: "ch = push_event (Ev_V2ScopeCancelled h i R L)
      (v2_reconcile_ancestor_membership s (dead_fiber_ops s L) (bs_of_list R)
        (fold push_delete L (fold (\<lambda>i. push_mutation (CM_Retire i)) R changes_default)))"
    by (rule rollback_dies_changes [OF parts(3) roll])
  have M: "member_rel (staged_table s ch) = others s (filter (\<lambda>c. c \<noteq> i) L) i" "K3 (staged_table s ch)"
    by (rule dies_members [OF inv f RL], simp add: ch push_event_def)+
  have fields: "ch_fibers_upsert ch = []" "ch_fibers_delete ch = L" "ch_cleanup ch = None"
    by (simp_all add: ch push_event_def fold_push_delete changes_default_def)
  have lf: "f \<in> live s" "fb_id f = i" using f(1) live_get_iff [OF parts(1)] by simp_all
  have "i \<in> set L" using f(2) lf RL(2) by (auto simp: scope_fibers_def)
  then have "holds_rel (apply_fiber_deltas (sn_fibers s) [] L False) = others s (filter (\<lambda>c. c \<noteq> i) L) i"
    unfolding holds_rel_def others_def get_fiber_deltas by (auto split: if_splits)
  moreover have "stacks_coherent (apply_fiber_deltas (sn_fibers s) [] L False)"
    by (rule stacks_coherent_new [OF stack_ok_live [OF parts(3) lf(1)]])
       (auto simp: get_fiber_deltas split: if_splits)
  ultimately show ?thesis
    unfolding post_ok_def derive_post_transition_frame_def frame_inv_def
    using M fields t fibers_wf_deltas [OF parts(1)] ct_wf_fold [OF parts(2)] by (simp add: unwrap_or_def)
qed

lemma fold_push_delta_fields [simp]:
  "ch_concurrency_mutations (fold (\<lambda>h. push_delta (g h)) hs ch) = ch_concurrency_mutations ch"
  "ch_fibers_upsert (fold (\<lambda>h. push_delta (g h)) hs ch) = ch_fibers_upsert ch"
  "ch_fibers_delete (fold (\<lambda>h. push_delta (g h)) hs ch) = ch_fibers_delete ch"
  "ch_cleanup (fold (\<lambda>h. push_delta (g h)) hs ch) = ch_cleanup ch"
  by (induction hs arbitrary: ch; simp add: push_delta_def)+

lemma rescued_ok:
  assumes inv: "frame_inv (sn_fibers s) (sn_concurrency_table s)"
    and f: "bt_get (sn_fibers s) i = Some f" "h \<in> set (fb_control_stack f)"
    and roll: "v2_rollback_guard_scope x s h (Dies i) changes_default = Inr (restored, ch)"
    and ch': "ch_fibers_upsert ch' = ch_fibers_upsert ch" "ch_fibers_delete ch' = ch_fibers_delete ch"
      "ch_cleanup ch' = ch_cleanup ch" "ch_concurrency_mutations ch' = ch_concurrency_mutations ch"
    and rescue: "rescue_trigger x w s cx h opened_at f err message attempt job_key inst ch' = Inr (ch2, inst2)"
    and t: "t = finish ch3 inst3" "ch_fibers_upsert ch3 = ch_fibers_upsert ch2"
      "ch_fibers_delete ch3 = ch_fibers_delete ch2" "ch_cleanup ch3 = ch_cleanup ch2"
      "ch_concurrency_mutations ch3 = ch_concurrency_mutations ch2"
  shows "post_ok s t"
proof -
  note parts = frame_inv_parts [OF inv]
  have heff: "h \<in> set (effective_control_stack f)" using f(2) effective_prefix [of f] by auto
  obtain R L where RL: "set R = scope_records s h" "set L = scope_fibers s h"
    and ch: "ch = push_event (Ev_V2ScopeCancelled h i R L)
      (v2_reconcile_ancestor_membership s (dead_fiber_ops s L) (bs_of_list R)
        (fold push_delete L (fold (\<lambda>i. push_mutation (CM_Retire i)) R changes_default)))"
    by (rule rollback_dies_changes [OF parts(3) roll])
  have M: "member_rel (staged_table s ch) = others s (filter (\<lambda>c. c \<noteq> i) L) i" "K3 (staged_table s ch)"
    by (rule dies_members [OF inv f(1) heff RL], simp add: ch push_event_def)+
  have lf: "f \<in> live s" "fb_id f = i" using f(1) live_get_iff [OF parts(1)] by simp_all
  obtain pos where pos: "position (\<lambda>a. a = h) (fb_control_stack f) = Some pos"
    using f(2) position_eq_ex [of h] by blast
  let ?hs = "take pos (fb_control_stack f)"
  have pos': "pos < length (fb_control_stack f)" "fb_control_stack f ! pos = h"
    using position_Some [OF pos] by simp_all
  then have "take (Suc pos) (fb_control_stack f) = ?hs @ [h]" by (simp add: take_Suc_conv_app_nth)
  then obtain zs where "effective_control_stack f = (?hs @ [h]) @ zs"
    using effective_prefix [of f] by (metis append_assoc append_take_drop_id)
  then have ok: "stack_ok s (?hs @ [h])" using stack_ok_live [OF parts(3) lf(1)] stack_ok_prefix by metis
  let ?f = "f\<lparr>fb_control_stack := ?hs, fb_pc := opened_at, fb_wait := W_Incident (derived_id x cx 0)\<rparr>"
  let ?ch1 = "fold (\<lambda>h. push_delta (CS_Pop i h)) (rev (drop pos (fb_control_stack f)))
    (ch'\<lparr>ch_fibers_delete := filter (\<lambda>c. c \<noteq> i) (ch_fibers_delete ch')\<rparr>)"
  have ch2: "ch_concurrency_mutations ch2 = ch_concurrency_mutations (v2_reconcile_ancestor_membership s
         (map (\<lambda>a. (a, Add i)) ?hs) (bs_of_list []) ?ch1)"
      "ch_fibers_upsert ch2 = ch_fibers_upsert ch @ [?f]" "ch_cleanup ch2 = ch_cleanup ch"
      "ch_fibers_delete ch2 = filter (\<lambda>c. c \<noteq> i) (ch_fibers_delete ch)"
    using rescue lf(2) ch'
    by (auto simp: rescue_trigger_def truncate_scope_def pos Let_def push_defs elim!: try_resE)
  have fields: "ch_fibers_upsert ch = []" "ch_fibers_delete ch = L" "ch_cleanup ch = None"
    by (simp_all add: ch push_event_def fold_push_delete changes_default_def)
  have armed: "\<exists>r. armed_at (staged_table s ch) a r" if a: "a \<in> set ?hs" for a
  proof -
    have "a \<in> set (effective_control_stack f)"
      using a effective_prefix [of f] by (auto dest: in_set_takeD)
    then have "(i, a) \<in> member_rel (sn_concurrency_table s)" unfolding parts(5) holds_split [OF f(1)] by simp
    then obtain r where "armed_at (sn_concurrency_table s) a r" unfolding member_rel_def by blast
    then show ?thesis
      using still_armed [OF parts(2)] below_kept [OF ok a] RL(1) by (simp add: ch push_event_def)
  qed
  have "member_rel (staged_table s ch2) = others s (filter (\<lambda>c. c \<noteq> i) L) i \<union> {i} \<times> set ?hs"
    unfolding ch2(1) using armed
    by (subst reconcile_member [OF parts(2)]) (auto simp: ch'(4) M(1) bs_set_of_list)
  moreover have "K3 (staged_table s ch2)"
    unfolding ch2(1) by (intro reconcile_K3 parts(2)) (simp add: ch'(4) M(2))
  ultimately show ?thesis
    using t ch2(2-4) fields lf(2) stack_ok_prefix [OF ok]
    by (intro post_frameI [OF parts(1,2), of t ?f])
       (simp_all add: unwrap_or_def effective_control_stack_def)
qed

section \<open>The commands\<close>

lemma find_live:
  fixes s :: snapshot
  assumes "find P (bt_values (sn_fibers s)) = Some f" "fibers_wf (sn_fibers s)"
  shows "bt_get (sn_fibers s) (fb_id f) = Some f" "P f"
  using find_SomeD [OF assms(1)] live_get_iff [OF assms(2), of "fb_id f" f] by simp_all

lemma retire_all_eq:
  "retire_all_armed_records s t = t\<lparr>tr_concurrency_mutations := tr_concurrency_mutations t
     @ map CM_Retire (armed_record_ids_in_transition s changes_default)\<rparr>"
proof -
  have "fold (\<lambda>i. tb_concurrency_mutation (CM_Retire i)) ids t =
      t\<lparr>tr_concurrency_mutations := tr_concurrency_mutations t @ map CM_Retire ids\<rparr>" for ids t
    by (induction ids arbitrary: t) (simp_all add: tb_concurrency_mutation_def)
  then show ?thesis by (simp add: retire_all_armed_records_def)
qed

lemma retire_all_ok:
  assumes inv: "frame_inv (sn_fibers s) (sn_concurrency_table s)"
    and t: "tc_delete_all_fibers (tr_terminal_cleanup t)" "tr_concurrency_mutations t = []"
  shows "post_ok s (retire_all_armed_records s t)"
proof -
  let ?ids = "armed_record_ids_in_transition s changes_default"
  have none: "\<not> armed_at (fold_mutations (map CM_Retire ?ids) (sn_concurrency_table s)) h r" for h r
    by (rule retire_all_none) (use armed_ids [of _ s changes_default] in \<open>auto simp: changes_default_def\<close>)
  show ?thesis
    using none t frame_inv_parts(2) [OF inv]
    by (intro post_ok_cleanup) (auto simp: retire_all_eq member_rel_def K3_def)
qed

text \<open>The events of a cancellation.\<close>

definition wait_cancelled :: "ext \<Rightarrow> string \<Rightarrow> fiber \<Rightarrow> runtime_event list" where
  "wait_cancelled x reason f =
     (let d = describe_wait x (fb_wait f) in
      if d \<noteq> [] then [Ev_WaitCancelled (fb_id f) d reason] else [])"

lemma apply_cancel_eq:
  "apply_cancel x s reason cx = retire_all_armed_records s
     ((transition_new ((sn_instance s)\<lparr>pi_state := PS_Cancelled reason (cx_logical_time cx)\<rparr>))
        \<lparr>tr_events := concat (map (wait_cancelled x reason) (bt_values (sn_fibers s))) @ [Ev_Cancelled reason],
         tr_terminal_cleanup := full_cleanup\<rparr>)"
proof -
  have "fold (\<lambda>f t. let d = describe_wait x (fb_wait f) in
      if d \<noteq> [] then tb_event (Ev_WaitCancelled (fb_id f) d reason) t else t) fs t =
    t\<lparr>tr_events := tr_events t @ concat (map (wait_cancelled x reason) fs)\<rparr>" for fs t
    by (induction fs arbitrary: t) (simp_all add: Let_def tb_event_def wait_cancelled_def)
  then show ?thesis
    by (simp add: apply_cancel_def Let_def tb_event_def tb_terminal_cleanup_def transition_new_def)
qed

lemma cancel_ok:
  assumes inv: "frame_inv (sn_fibers s) (sn_concurrency_table s)"
  shows "post_ok s (apply_cancel x s reason cx)"
    "apply_terminate s cx = Inr t \<Longrightarrow> post_ok s t"
proof -
  show "post_ok s (apply_cancel x s reason cx)"
    unfolding apply_cancel_eq
    by (rule retire_all_ok [OF inv]) (simp_all add: full_cleanup_def transition_new_def)
  show "apply_terminate s cx = Inr t \<Longrightarrow> post_ok s t"
    unfolding apply_terminate_def Let_def
    by (auto elim!: try_resE intro!: retire_all_ok [OF inv] simp: builder_defs full_cleanup_def transition_new_def)
qed

text \<open>A transition that resumes at most one parked fiber and touches no record.\<close>

lemma quiet_ok:
  assumes inv: "frame_inv (sn_fibers s) (sn_concurrency_table s)"
    and up: "tr_fibers_upsert t = [] \<or> (\<exists>f f'. bt_get (sn_fibers s) (fb_id f') = Some f \<and>
       effective_control_stack f' = effective_control_stack f \<and> tr_fibers_upsert t = [f'])"
    and t: "tr_fibers_delete t = []" "\<not> tc_delete_all_fibers (tr_terminal_cleanup t)"
      "tr_concurrency_mutations t = []"
  shows "post_ok s t"
  using up unchanged_ok [OF inv _ t] resumed_ok [OF inv _ _ _ _ t] by blast

lemma resolve_incident_ok:
  assumes inv: "frame_inv (sn_fibers s) (sn_concurrency_table s)"
    and t: "apply_resolve_incident s i resolution cx = Inr t"
  shows "post_ok s t"
proof (rule quiet_ok [OF inv])
  have f: "bt_get (sn_fibers s) (fb_id f) = Some f \<and>
      effective_control_stack (f\<lparr>fb_wait := W_Running\<rparr>) = effective_control_stack f"
    if "find (parked_on_incident i) (bt_values (sn_fibers s)) = Some f" for f
    using find_live [OF that frame_inv_parts(1) [OF inv]]
    by (auto simp: parked_on_incident_def effective_control_stack_def split: wait_state.splits)
  show "tr_fibers_upsert t = [] \<or> (\<exists>f f'. bt_get (sn_fibers s) (fb_id f') = Some f \<and>
       effective_control_stack f' = effective_control_stack f \<and> tr_fibers_upsert t = [f'])"
    using t f unfolding apply_resolve_incident_def Let_def
    by (fastforce elim!: try_resE split: if_splits option.splits simp: builder_defs transition_new_def)
qed (use t in \<open>auto simp: apply_resolve_incident_def Let_def builder_defs transition_new_def
      elim!: try_resE split: if_splits option.splits\<close>)

lemma job_completion_ok:
  assumes inv: "frame_inv (sn_fibers s) (sn_concurrency_table s)"
    and t: "apply_job_completion x s completion = Inr t"
  shows "post_ok s t"
proof (rule quiet_ok [OF inv])
  have f: "bt_get (sn_fibers s) (fb_id f) = Some f \<and>
      effective_control_stack ((bump_pc f)\<lparr>fb_wait := W_Running\<rparr>) = effective_control_stack f"
    if "find (parked_on_job k) (bt_values (sn_fibers s)) = Some f" for k f
    using find_live [OF that frame_inv_parts(1) [OF inv]]
    by (auto simp: parked_on_job_def effective_control_stack_def bump_pc_def split: wait_state.splits)
  show "tr_fibers_upsert t = [] \<or> (\<exists>f f'. bt_get (sn_fibers s) (fb_id f') = Some f \<and>
       effective_control_stack f' = effective_control_stack f \<and> tr_fibers_upsert t = [f'])"
    using t f unfolding apply_job_completion_def Let_def
    by (fastforce elim!: try_resE split: if_splits option.splits
        simp: builder_defs transition_new_def push_defs changes_default_def bump_pc_def)
qed (use t in \<open>auto simp: apply_job_completion_def Let_def builder_defs transition_new_def push_defs
      changes_default_def unwrap_or_def elim!: try_resE split: if_splits option.splits\<close>)

lemma races_privateD:
  "races_private s \<Longrightarrow> f \<in> live s \<Longrightarrow> fb_wait f = W_V2Race h arms \<Longrightarrow> sole_holder s h (fb_id f)"
  unfolding races_private_def list_all_iff by fastforce

lemma ffi_completion_ok:
  assumes inv: "frame_inv (sn_fibers s) (sn_concurrency_table s)" and alone: "races_private s"
    and t: "apply_ffi_completion x w s (Cmd_EffectCompleted e (EO_Ffi i a p d n)) = Inr t"
  shows "post_ok s t"
proof -
  note wf = frame_inv_parts(1) [OF inv]
  obtain f m where f: "bt_get (sn_fibers s) i = Some f" and m: "match_ffi x w s e i a f = Inr m"
    using t by (auto simp: apply_ffi_completion_def elim!: try_resE)
  have lf: "f \<in> live s" "fb_id f = i" using f live_get_iff [OF wf] by simp_all
  have quiet: "tr_fibers_delete t = [] \<and> \<not> tc_delete_all_fibers (tr_terminal_cleanup t)"
    using t f m
    by (auto simp: apply_ffi_completion_def builder_defs transition_new_def elim!: try_resE
        split: if_splits ffi_match.splits)
  show ?thesis
  proof (cases m)
    case FM_Parked
    then have "effective_control_stack f = fb_control_stack f"
      using m by (auto simp: match_ffi_def Let_def effective_control_stack_def
          split: wait_state.splits if_splits option.splits)
    moreover have "tr_fibers_upsert t = [(bump_pc f)\<lparr>fb_wait := W_Running\<rparr>] \<and> tr_concurrency_mutations t = []"
      using t f m FM_Parked
      by (auto simp: apply_ffi_completion_def builder_defs transition_new_def elim!: try_resE)
    ultimately show ?thesis
      using quiet lf(2) resumed_ok [OF inv f, of "(bump_pc f)\<lparr>fb_wait := W_Running\<rparr>" t]
      by (simp add: parked_eff bump_pc_def)
  next
    case FM_Late
    then have "tr_fibers_upsert t = [] \<and> tr_concurrency_mutations t = []"
      using t f m by (auto simp: apply_ffi_completion_def builder_defs transition_new_def)
    then show ?thesis using quiet unchanged_ok [OF inv] by blast
  next
    case (FM_RaceWin h target)
    then obtain arms where wait: "fb_wait f = W_V2Race h arms"
      using m by (auto simp: match_ffi_def Let_def split: wait_state.splits if_splits option.splits)
    have "tr_fibers_upsert t = [f\<lparr>fb_pc := target, fb_wait := W_Running\<rparr>] \<and> tr_concurrency_mutations t = [CM_Retire h]"
      using t f m FM_RaceWin
      by (auto simp: apply_ffi_completion_def builder_defs transition_new_def elim!: try_resE)
    then show ?thesis
      using quiet lf races_privateD [OF alone lf(1) wait]
        race_won_ok [OF inv f wait, of "f\<lparr>fb_pc := target, fb_wait := W_Running\<rparr>" t] by simp
  qed
qed

lemma message_ok:
  assumes inv: "frame_inv (sn_fibers s) (sn_concurrency_table s)" and alone: "races_private s"
    and t: "apply_message x w s (Cmd_MessageDelivered i n k p h e) cx = Inr t"
  shows "post_ok s t"
proof -
  note wf = frame_inv_parts(1) [OF inv]
  let ?match = "find_map (match_msg_fiber (md_message_name_map (wf_metadata w)) n k) (bt_values (sn_fibers s))"
  have quiet: "tr_fibers_delete t = [] \<and> \<not> tc_delete_all_fibers (tr_terminal_cleanup t)"
    using t by (auto simp: apply_message_def Let_def push_defs push_race_won_def changes_default_def unwrap_or_def
        elim!: try_resE split: if_splits option.splits)
  consider "tr_fibers_upsert t = []" "tr_concurrency_mutations t = []"
    | f where "?match = Some (f, None)" "tr_fibers_upsert t = [f]" "tr_concurrency_mutations t = []"
    | f r where "?match = Some (f, Some r)" "tr_fibers_upsert t = [f]" "tr_concurrency_mutations t = [CM_Retire r]"
    using t by (auto simp: apply_message_def Let_def push_defs push_race_won_def changes_default_def
        elim!: try_resE split: if_splits option.splits)
  then show ?thesis
  proof cases
    case 1
    then show ?thesis using quiet unchanged_ok [OF inv] by blast
  next
    case (2 f)
    then obtain g where g: "g \<in> live s" "f = g\<lparr>fb_wait := W_Running\<rparr>" "effective_control_stack g = fb_control_stack g"
      by (auto simp: match_msg_fiber_def effective_control_stack_def elim!: find_mapE
          split: wait_state.splits if_splits)
    then show ?thesis
      using 2 quiet live_get_iff [OF wf, of "fb_id g" g] resumed_ok [OF inv, of "fb_id g" g f t]
      by (simp add: parked_eff)
  next
    case (3 f r)
    then obtain g arms target where g: "g \<in> live s" "fb_wait g = W_V2Race r arms"
      "f = g\<lparr>fb_pc := target, fb_wait := W_Running\<rparr>"
      by (auto simp: match_msg_fiber_def elim!: find_mapE split: wait_state.splits if_splits)
    then show ?thesis
      using 3 quiet live_get_iff [OF wf, of "fb_id g" g] races_privateD [OF alone g(1,2)]
        race_won_ok [OF inv _ g(2), of "fb_id g" f t] by simp
  qed
qed

lemma start_child_ok:
  assumes inv: "frame_inv (sn_fibers s) (sn_concurrency_table s)"
    and ready: "command_ready x w s (Cmd_StartChildResult k c b) cx"
    and t: "apply_start_child_result x s k c b cx = Inr t"
  shows "post_ok s t"
proof (rule quiet_ok [OF inv])
  have f: "bt_get (sn_fibers s) (fb_id f) = Some f \<and>
      effective_control_stack (f\<lparr>fb_wait := W_Incident i\<rparr>) = effective_control_stack f"
    if "vec_get (bt_values (sn_fibers s)) 0 = Some f" for f i
    using that ready live_get_iff [OF frame_inv_parts(1) [OF inv], of "fb_id f" f]
    by (cases "bt_values (sn_fibers s)") (auto simp: vec_get_def parked_eff)
  show "tr_fibers_upsert t = [] \<or> (\<exists>f f'. bt_get (sn_fibers s) (fb_id f') = Some f \<and>
       effective_control_stack f' = effective_control_stack f \<and> tr_fibers_upsert t = [f'])"
    using t f unfolding apply_start_child_result_def Let_def
    by (fastforce elim!: try_resE split: if_splits process_state.splits simp: builder_defs transition_new_def)
qed (use t in \<open>auto simp: apply_start_child_result_def Let_def builder_defs transition_new_def
      elim!: try_resE split: if_splits process_state.splits\<close>)

lemma guard_rollback_ok:
  assumes inv: "frame_inv (sn_fibers s) (sn_concurrency_table s)"
    and g: "ct_get (sn_concurrency_table s) h = Some r" "rec_state r = Armed" and stacked: "guard_stacked s h"
    and roll: "apply_v2_guard_timer_rollback x w s h r cx = Inr (ch, inst)"
    and t: "t = finish ch' inst'" "ch_fibers_upsert ch' = ch_fibers_upsert ch"
      "ch_fibers_delete ch' = ch_fibers_delete ch" "ch_cleanup ch' = ch_cleanup ch"
      "ch_concurrency_mutations ch' = ch_concurrency_mutations ch"
  shows "post_ok s t"
proof (cases "vec_get (bs_list (rec_members r)) 0")
  case None
  then have "ch = changes_default" using roll by (simp add: apply_v2_guard_timer_rollback_def)
  then show ?thesis using t by (intro unchanged_ok [OF inv]) (simp_all add: changes_default_def unwrap_or_def)
next
  case (Some i)
  note parts = frame_inv_parts [OF inv]
  have "(i, h) \<in> member_rel (sn_concurrency_table s)"
    using Some g nth_mem [of 0 "bs_list (rec_members r)"]
    by (auto simp: member_rel_def armed_at_def vec_get_def split: if_splits)
  then obtain f where f: "bt_get (sn_fibers s) i = Some f" "h \<in> set (effective_control_stack f)"
    unfolding parts(5) holds_rel_def by blast
  have lf: "f \<in> live s" using f(1) live_get_iff [OF parts(1)] by simp
  then have hf: "h \<in> set (fb_control_stack f)"
    using stacked f(2) unfolding guard_stacked_def list_all_iff by blast
  obtain restored ch0 where roll0: "v2_rollback_guard_scope x s h (Dies i) changes_default = Inr (restored, ch0)"
    using roll Some by (auto simp: apply_v2_guard_timer_rollback_def elim!: try_resE)
  let ?ch1 = "fold push_job_mutation (void_jobs s (ch_fibers_delete ch0)) ch0"
  consider "ch = ?ch1"
    | opened_at inst0 where "rescue_trigger x w s cx h opened_at f ContractViolation
        ''guard-arming timer deadline elapsed'' 0 None inst0 ?ch1 = Inr (ch, inst)"
    using roll Some roll0 f(1)
    by (auto simp: apply_v2_guard_timer_rollback_def Let_def elim!: try_resE split: if_splits)
  then show ?thesis
  proof cases
    case 1
    then show ?thesis using t by (intro dies_ok [OF inv f roll0 t(1)]) simp_all
  next
    case 2
    then show ?thesis by (intro rescued_ok [OF inv f(1) hf roll0 _ _ _ _ 2 t]) simp_all
  qed
qed

lemma guard_timer_ok:
  assumes inv: "frame_inv (sn_fibers s) (sn_concurrency_table s)"
    and fresh: "fresh_fiber x s cx" and stacked: "guard_stacked s h"
    and t: "fire_guard_timer x w s timer fired_at cx h = Inr t"
  shows "post_ok s t"
proof -
  have new: "bt_get (sn_fibers s) (derived_id x cx 0) = None"
    using fresh by (simp add: fresh_fiber_def bt_contains_def)
  let ?stale = "tb_timer_mutation (TM_Consume (tm_timer_id timer) (tm_claim_token timer)) (transition_new (sn_instance s))"
  consider "t = ?stale"
    | r ch inst e m where "ct_get (sn_concurrency_table s) h = Some r" "rec_state r = Armed"
        "apply_v2_guard_timer_rollback x w s h r cx = Inr (ch, inst)"
        "t = finish (push_timer_mutation m (push_event e ch)) inst"
    | ch inst e m where "v2_trigger_guard_changes x s h cx = Inr ch"
        "t = finish (push_timer_mutation m (push_event e ch)) inst"
    using t unfolding fire_guard_timer_def Let_def
    by (auto elim!: try_resE split: option.splits if_splits)
  then show ?thesis
  proof cases
    case 1
    then show ?thesis by (intro unchanged_ok [OF inv]) (simp_all add: builder_defs transition_new_def)
  next
    case 2
    then show ?thesis
      by (intro guard_rollback_ok [OF inv 2(1,2) stacked 2(3) 2(4)]) (simp_all add: push_defs)
  next
    case 3
    then show ?thesis by (intro trigger_guard_ok [OF inv new 3(1) 3(2)]) (simp_all add: push_defs)
  qed
qed

lemma timer_ok:
  assumes inv: "frame_inv (sn_fibers s) (sn_concurrency_table s)"
    and ready: "command_ready x w s (Cmd_TimerFired timer fired_at) cx"
    and t: "apply_timer x w s timer fired_at cx = Inr t"
  shows "post_ok s t"
proof -
  note wf = frame_inv_parts(1) [OF inv]
  have alone: "races_private s" and fresh: "fresh_fiber x s cx"
    and stacked: "tm_kind timer = TK_V2GuardTimer h \<Longrightarrow> guard_stacked s h" for h
    using ready by auto
  consider (guard) h where "tm_kind timer = TK_V2GuardTimer h" "fire_guard_timer x w s timer fired_at cx h = Inr t"
    | (stale) "t = tb_timer_mutation (TM_Consume (tm_timer_id timer) (tm_claim_token timer)) (transition_new (sn_instance s))"
    | (wait) f d e where "bt_get (sn_fibers s) (tm_fiber_id timer) = Some f" "fb_wait f = W_Timer d"
        "t = tb_timer_mutation (TM_Consume (tm_timer_id timer) (tm_claim_token timer)) (tb_event e
            (tb_upsert_fiber (f\<lparr>fb_wait := W_Running\<rparr>) (transition_new (sn_instance s))))"
    | (race) f h arms a e e' m where "bt_get (sn_fibers s) (tm_fiber_id timer) = Some f" "fb_wait f = W_V2Race h arms"
        "t = tb_timer_mutation (TM_Consume (tm_timer_id timer) (tm_claim_token timer)) (tb_timer_mutation m
           (tb_concurrency_mutation (CM_Retire h) (tb_event e (tb_event e'
            (tb_upsert_fiber (f\<lparr>fb_pc := a, fb_wait := W_Running\<rparr>) (transition_new (sn_instance s)))))))"
    using t unfolding apply_timer_def Let_def
    by (auto split: if_splits timer_kind.splits option.splits wait_state.splits)
  then show ?thesis
  proof cases
    case (guard h)
    then show ?thesis using guard_timer_ok [OF inv fresh stacked] by blast
  next
    case stale
    then show ?thesis by (intro unchanged_ok [OF inv]) (simp_all add: builder_defs transition_new_def)
  next
    case (wait f d e)
    then show ?thesis
      using live_get_iff [OF wf, of "tm_fiber_id timer" f]
      by (intro resumed_ok [OF inv wait(1), of "f\<lparr>fb_wait := W_Running\<rparr>"])
         (simp_all add: parked_eff builder_defs transition_new_def effective_control_stack_def)
  next
    case (race f h arms a e e' m)
    then have lf: "f \<in> live s" "fb_id f = tm_fiber_id timer"
      using live_get_iff [OF wf, of "tm_fiber_id timer" f] by simp_all
    then show ?thesis
      using race races_privateD [OF alone lf(1) race(2)]
      by (intro race_won_ok [OF inv race(1,2), of "f\<lparr>fb_pc := a, fb_wait := W_Running\<rparr>"])
         (simp_all add: builder_defs transition_new_def)
  qed
qed

section \<open>Job failure\<close>

lemma innermost_guardD:
  assumes "innermost_guard s f = Some (h, r)"
  shows "h \<in> set (fb_control_stack f)" "ct_get (sn_concurrency_table s) h = Some r" "rec_state r = Armed"
    "is_guard r"
  using assms unfolding innermost_guard_def
  by (auto elim!: find_mapE split: option.splits if_splits)

lemma ack_job_key_fields [simp]:
  "ch_fibers_upsert (ack_job_key k ch) = ch_fibers_upsert ch"
  "ch_fibers_delete (ack_job_key k ch) = ch_fibers_delete ch"
  "ch_cleanup (ack_job_key k ch) = ch_cleanup ch"
  "ch_concurrency_mutations (ack_job_key k ch) = ch_concurrency_mutations ch"
  by (simp_all add: ack_job_key_def push_ack_def)

lemma job_rollback_ok:
  assumes inv: "frame_inv (sn_fibers s) (sn_concurrency_table s)" and f: "f \<in> live s"
    and g: "rollback_guard_of s f err = Some (h, r)"
    and t: "fail_job_rollback x w s cx f k err message attempt (h, r) = Inr t"
  shows "post_ok s t"
proof -
  have fget: "bt_get (sn_fibers s) (fb_id f) = Some f"
    using f live_get_iff [OF frame_inv_parts(1) [OF inv]] by simp
  have hf: "h \<in> set (fb_control_stack f)"
    using g innermost_guardD(1) by (auto simp: rollback_guard_of_def split: if_splits option.splits)
  then have heff: "h \<in> set (effective_control_stack f)" using effective_prefix [of f] by auto
  obtain restored ch0 where roll: "v2_rollback_guard_scope x s h (Dies (fb_id f)) changes_default = Inr (restored, ch0)"
    using t by (auto simp: fail_job_rollback_def elim!: try_resE)
  consider inst where "t = finish (ack_job_key k ch0) inst"
    | opened_at jk inst0 ch inst where "rescue_trigger x w s cx h opened_at f err message attempt jk inst0
        (ack_job_key k ch0) = Inr (ch, inst)" "t = finish ch inst"
    using t roll by (auto simp: fail_job_rollback_def Let_def elim!: try_resE split: if_splits)
  then show ?thesis
  proof cases
    case 1
    then show ?thesis by (intro dies_ok [OF inv fget heff roll 1]) simp_all
  next
    case 2
    then show ?thesis by (intro rescued_ok [OF inv fget hf roll _ _ _ _ 2]) simp_all
  qed
qed

lemma job_failure_ok:
  assumes inv: "frame_inv (sn_fibers s) (sn_concurrency_table s)" and fresh: "fresh_fiber x s cx"
    and t: "apply_job_failure x w s (Cmd_EffectFailed e k err m retry n) cx = Inr t"
  shows "post_ok s t"
proof -
  note wf = frame_inv_parts(1) [OF inv]
  have new: "bt_get (sn_fibers s) (derived_id x cx 0) = None"
    using fresh by (simp add: fresh_fiber_def bt_contains_def)
  consider (ignored) d where "t = fail_job_ignored s k d"
    | (retry) rt where "t = fail_job_retry s k m rt"
    | (routed) route where "fail_job_routed x s cx k route = Inr t"
    | (rolled) f g where "failed_fiber s e k = Some f" "rollback_guard_of s f err = Some g"
        "fail_job_rollback x w s cx f k err m n g = Inr t"
    | (parked) f where "failed_fiber s e k = Some f" "fail_job_incident x w s cx f e k err m retry n = Inr t"
    using t unfolding apply_job_failure_def
    by (auto split: if_splits option.splits error_class.splits)
  then show ?thesis
  proof cases
    case ignored
    then show ?thesis
      by (intro unchanged_ok [OF inv])
         (simp_all add: fail_job_ignored_def push_defs changes_default_def unwrap_or_def)
  next
    case retry
    then show ?thesis
      by (intro unchanged_ok [OF inv])
         (simp_all add: fail_job_retry_def push_defs changes_default_def unwrap_or_def)
  next
    case (routed route)
    obtain c a h where route: "route = (c, a, h)" by (cases route)
    obtain ch where ch: "v2_trigger_guard_changes_with_target x s h cx a = Inr ch"
      and t: "t = finish (push_event (Ev_ErrorRouted k c (''guard:'' @ x_uuid_string x h) a) (ack_job_key k ch)) (sn_instance s)"
      using routed unfolding fail_job_routed_def route by (auto elim!: try_resE)
    show ?thesis by (intro trigger_with_target_ok [OF inv new ch t]) (simp_all add: push_defs)
  next
    case (rolled f g)
    have "f \<in> live s" using rolled(1) unfolding failed_fiber_def by (auto dest: find_SomeD)
    then show ?thesis using job_rollback_ok [OF inv] rolled(2,3) by (cases g) auto
  next
    case (parked f)
    then have f: "bt_get (sn_fibers s) (fb_id f) = Some f" "effective_control_stack f = fb_control_stack f"
      using find_live [OF _ wf] unfolding failed_fiber_def
      by (auto simp: effective_control_stack_def dest!: find_live(2) [OF _ wf] split: wait_state.splits)
    have "tr_fibers_upsert t = [f\<lparr>fb_wait := W_Incident (derived_id x cx 0)\<rparr>]" "tr_fibers_delete t = []"
      "\<not> tc_delete_all_fibers (tr_terminal_cleanup t)" "tr_concurrency_mutations t = []"
      using parked(2)
      by (cases retry; cases "k = []"; auto simp: fail_job_incident_def Let_def push_defs
          changes_default_def ack_job_key_def elim!: try_resE)+
    then show ?thesis
      using f by (intro resumed_ok [OF inv f(1), of "f\<lparr>fb_wait := W_Incident (derived_id x cx 0)\<rparr>"])
        (simp_all add: parked_eff)
  qed
qed

section \<open>Every command\<close>

lemma dispatch_ok:
  assumes inv: "frame_inv (sn_fibers s) (sn_concurrency_table s)" and ready: "command_ready x w s cmd cx"
    and t: "dispatch x w s cmd cx = Inr t"
  shows "post_ok s t"
proof (cases cmd)
  case (Cmd_Tick m)
  show ?thesis
    using t ready unfolding Cmd_Tick by (intro apply_tick_ok [OF inv]) auto
next
  case (Cmd_EffectCompleted e out)
  then show ?thesis
    using t ready job_completion_ok [OF inv] ffi_completion_ok [OF inv] by (cases out) auto
next
  case (Cmd_TimerFired timer at)
  then show ?thesis using t ready timer_ok [OF inv, of x w timer at cx t] by simp
next
  case (Cmd_StartChildResult k c b)
  then show ?thesis using t ready start_child_ok [OF inv, of x w k c b cx t] by simp
next
  case (Cmd_V2TriggerGuard h)
  have new: "bt_get (sn_fibers s) (derived_id x cx 0) = None"
    using ready Cmd_V2TriggerGuard by (simp add: fresh_fiber_def bt_contains_def)
  then show ?thesis
    using t Cmd_V2TriggerGuard trigger_guard_ok [OF inv new]
    by (auto simp: apply_v2_trigger_guard_def elim!: try_resE)
next
  case (Cmd_JobClaimed k wk at)
  then show ?thesis
    using t by (intro unchanged_ok [OF inv]) (auto simp: builder_defs transition_new_def)
qed (use t ready cancel_ok [OF inv] job_failure_ok [OF inv] message_ok [OF inv] resolve_incident_ok [OF inv] in auto)

end
