(* ===== verification/Codec.thy ===== *)
theory Codec
  imports State
begin

text \<open>
  The primitives of the canonical binary encoding (\<open>bpmn-lite-types/src/canonical.rs\<close>).
  \<open>CanonicalWriter\<close> only ever appends, so an encoder is the byte string it appends and a
  sequence of writes is a concatenation. \<open>CanonicalReader\<close> is the record \<open>reader\<close>: the whole
  input, the position, and the nesting depth of value arrays; a decoder takes the reader and
  returns an error or the value with the advanced reader. A length is written \<open>as u32\<close>, which
  wraps for a collection of \<open>2^32\<close> elements or more (the source only has a \<open>debug_assert!\<close>).

  The locale \<open>codec\<close> is the contract of one \<open>CanonicalEncode\<close> implementation: decoding what was
  encoded returns the value and stops right behind it. \<open>canonical_codec\<close> adds the converse: a
  decoder that accepts has read the encoding of its result. Both are closed under the options
  and sequences of the format, and a codec is a prefix code.
\<close>

section \<open>Little-endian integers\<close>

lemma unat_of_nat_small: "v < 2 ^ LENGTH('a) \<Longrightarrow> unat (of_nat v :: 'a::len word) = v"
  by (simp add: unsigned_of_nat take_bit_nat_eq_self)

fun le_nat :: "nat \<Rightarrow> nat \<Rightarrow> bytes" where
  "le_nat 0 v = []"
| "le_nat (Suc n) v = char_of v # le_nat n (v div 256)"

fun nat_le :: "bytes \<Rightarrow> nat" where
  "nat_le [] = 0"
| "nat_le (c # cs) = of_char c + 256 * nat_le cs"

lemma length_le_nat [simp]: "length (le_nat n v) = n"
  by (induction n arbitrary: v) simp_all

lemma nat_le_le_nat: "nat_le (le_nat n v) = v mod 256 ^ n"
proof (induction n arbitrary: v)
  case (Suc n)
  then show ?case by (simp add: mod_mult2_eq)
qed simp

lemma nat_le_bound: "nat_le bs < 256 ^ length bs"
proof (induction bs)
  case (Cons c cs)
  have "(of_char c :: nat) < 256" by simp
  with Cons have "of_char c + 256 * nat_le cs < 256 * 256 ^ length cs" by linarith
  then show ?case by simp
qed simp

lemma le_nat_nat_le: "le_nat (length bs) (nat_le bs) = bs"
proof (induction bs)
  case (Cons c cs)
  have "(of_char c + 256 * nat_le cs) div 256 = nat_le cs"
    by simp
  moreover have "take_bit 8 (of_char c + 256 * nat_le cs) = of_char c"
    by (simp add: take_bit_eq_mod)
  ultimately show ?case using Cons by (simp add: char_of_eq_iff)
qed simp

lemma nat_le_append: "nat_le (xs @ ys) = nat_le xs + 256 ^ length xs * nat_le ys"
  by (induction xs) (simp_all add: algebra_simps)

definition write_uint :: "nat \<Rightarrow> 'a::len word \<Rightarrow> bytes" where
  "write_uint n v = le_nat n (unat v)"

definition uint_from_le :: "bytes \<Rightarrow> 'a::len word" where
  "uint_from_le bs = of_nat (nat_le bs)"

lemma length_write_uint [simp]: "length (write_uint n v) = n"
  by (simp add: write_uint_def)

lemma uint_from_le_write:
  assumes "LENGTH('a) = 8 * n"
  shows "uint_from_le (write_uint n v) = (v :: 'a::len word)"
proof -
  have "unat v < 256 ^ n"
    using unat_lt [of v] by (simp add: assms power_mult)
  then show ?thesis
    by (simp add: uint_from_le_def write_uint_def nat_le_le_nat)
qed

lemma write_uint_from_le:
  assumes "length bs = n" and "LENGTH('a) = 8 * n"
  shows "write_uint n (uint_from_le bs :: 'a::len word) = bs"
proof -
  have "nat_le bs < 2 ^ LENGTH('a)"
    using nat_le_bound [of bs] assms by (simp add: power_mult)
  then show ?thesis
    using le_nat_nat_le [of bs] assms(1)
    by (simp add: write_uint_def uint_from_le_def unat_of_nat_small)
qed

text \<open>The 16 big-endian bytes of a \<open>Uuid\<close>.\<close>

lemma le_nat_nth: "i < n \<Longrightarrow> le_nat n v ! i = char_of (v div 256 ^ i)"
proof (induction n arbitrary: v i)
  case (Suc n)
  then show ?case by (cases i) (simp_all add: div_mult2_eq)
qed simp

lemma be_bytes_le_nat: "be_bytes n w = List.rev (le_nat n (unat w))"
proof (rule nth_equalityI)
  fix i assume "i < length (be_bytes n w)"
  then have i: "i < n" by simp
  have shifted: "unat (drop_bit (8 * k) w) = unat w div 256 ^ k" for k
    by (simp only: unsigned_drop_bit_eq drop_bit_nat_def power_mult) (simp add: unsigned_take_bit_eq take_bit_nat_eq_self unat_lt)
  with i show "be_bytes n w ! i = List.rev (le_nat n (unat w)) ! i"
    by (simp only: be_bytes_def nth_map_upt rev_nth length_le_nat shifted) (simp add: le_nat_nth)
qed simp

lemma uuid_from_bytes_eq: "uuid_from_bytes bs = of_nat (nat_le (List.rev bs))"
proof (induction bs rule: rev_induct)
  case Nil
  then show ?case by (simp add: uuid_from_bytes_def)
next
  case (snoc c bs)
  then show ?case by (simp add: uuid_from_bytes_def algebra_simps of_nat_of_char)
qed

lemma uuid_from_be_bytes [simp]: "uuid_from_bytes (be_bytes 16 u) = u"
proof -
  have "unat u < 256 ^ 16" using unat_lt [of u] by simp
  then show ?thesis
    by (simp add: uuid_from_bytes_eq be_bytes_le_nat nat_le_le_nat)
qed

lemma be_bytes_uuid_from: "length bs = 16 \<Longrightarrow> be_bytes 16 (uuid_from_bytes bs) = bs"
proof -
  assume len: "length bs = 16"
  then have "nat_le (List.rev bs) < 2 ^ 128"
    using nat_le_bound [of "List.rev bs"] by simp
  then show ?thesis
    using le_nat_nat_le [of "List.rev bs"] len
    by (simp add: be_bytes_le_nat uuid_from_bytes_eq unat_of_nat_small)
qed

section \<open>The writer\<close>

definition write_u8 :: "u8 \<Rightarrow> bytes" where
  "write_u8 v = [char_of (unat v)]"

definition write_u16 :: "u16 \<Rightarrow> bytes" where
  "write_u16 v = write_uint 2 v"

definition write_u32 :: "u32 \<Rightarrow> bytes" where
  "write_u32 v = write_uint 4 v"

definition write_u64 :: "u64 \<Rightarrow> bytes" where
  "write_u64 v = write_uint 8 v"

definition write_bool :: "bool \<Rightarrow> bytes" where
  "write_bool v = write_u8 (if v then 0x01 else 0x00)"

definition write_bytes_fixed :: "bytes \<Rightarrow> bytes" where
  "write_bytes_fixed v = v"

definition write_bytes :: "bytes \<Rightarrow> bytes" where
  "write_bytes v = write_u32 (of_nat (length v)) @ v"

definition write_str :: "string \<Rightarrow> bytes" where
  "write_str v = write_bytes v"

definition write_option :: "('a \<Rightarrow> bytes) \<Rightarrow> 'a option \<Rightarrow> bytes" where
  "write_option encode_some v =
     (case v of None \<Rightarrow> write_u8 0x00 | Some inner \<Rightarrow> write_u8 0x01 @ encode_some inner)"

definition write_seq :: "('a \<Rightarrow> bytes) \<Rightarrow> 'a list \<Rightarrow> bytes" where
  "write_seq encode_item items = write_u32 (of_nat (length items)) @ concat (map encode_item items)"

section \<open>The reader\<close>

record reader =
  rd_bytes :: bytes
  rd_pos :: nat
  rd_array_depth :: nat

datatype decode_error =
    UnexpectedEof nat
  | InvalidUtf8
  | UnknownTag u8 string
  | TrailingBytes nat
  | ValueArrayTooDeep nat
  | ValueArrayTooLong nat nat  \<comment> \<open>actual, max\<close>

type_synonym 'a decoder = "reader \<Rightarrow> decode_error + 'a \<times> reader"

definition reader_new :: "bytes \<Rightarrow> reader" where
  "reader_new bs = \<lparr>rd_bytes = bs, rd_pos = 0, rd_array_depth = 0\<rparr>"

definition reader_finish :: "reader \<Rightarrow> decode_error + unit" where
  "reader_finish r =
     (if rd_pos r = length (rd_bytes r) then Inr ()
      else Inl (TrailingBytes (length (rd_bytes r) - rd_pos r)))"

definition reader_take :: "nat \<Rightarrow> bytes decoder" where
  "reader_take n r =
     (if rd_pos r + n > length (rd_bytes r) then Inl (UnexpectedEof (rd_pos r))
      else Inr (take n (drop (rd_pos r) (rd_bytes r)), r\<lparr>rd_pos := rd_pos r + n\<rparr>))"

definition read_u8 :: "u8 decoder" where
  "read_u8 r = try_res (reader_take 1 r) (\<lambda>(b, r). Inr (of_char (b ! 0), r))"

definition read_u16 :: "u16 decoder" where
  "read_u16 r = try_res (reader_take 2 r) (\<lambda>(b, r). Inr (uint_from_le b, r))"

definition read_u32 :: "u32 decoder" where
  "read_u32 r = try_res (reader_take 4 r) (\<lambda>(b, r). Inr (uint_from_le b, r))"

definition read_u64 :: "u64 decoder" where
  "read_u64 r = try_res (reader_take 8 r) (\<lambda>(b, r). Inr (uint_from_le b, r))"

definition read_bool :: "bool decoder" where
  "read_bool r = try_res (read_u8 r) (\<lambda>(tag, r).
     if tag = 0x00 then Inr (False, r)
     else if tag = 0x01 then Inr (True, r)
     else Inl (UnknownTag tag ''bool''))"

definition read_bytes_fixed :: "nat \<Rightarrow> bytes decoder" where
  "read_bytes_fixed n r = reader_take n r"

definition read_bytes :: "bytes decoder" where
  "read_bytes r = try_res (read_u32 r) (\<lambda>(len, r). reader_take (unat len) r)"

definition read_str :: "string decoder" where
  "read_str r = try_res (read_bytes r) (\<lambda>(bs, r).
     try_res (ok_or (from_utf8 bs) InvalidUtf8) (\<lambda>s. Inr (s, r)))"

definition read_option :: "'a decoder \<Rightarrow> 'a option decoder" where
  "read_option decode_some r = try_res (read_u8 r) (\<lambda>(tag, r).
     if tag = 0x00 then Inr (None, r)
     else if tag = 0x01 then try_res (decode_some r) (\<lambda>(v, r). Inr (Some v, r))
     else Inl (UnknownTag tag ''Option presence tag''))"

text \<open>The loop \<open>for _ in 0..len\<close> that pushes decoded items.\<close>

fun read_items :: "nat \<Rightarrow> 'a decoder \<Rightarrow> 'a list decoder" where
  "read_items 0 decode_item r = Inr ([], r)"
| "read_items (Suc n) decode_item r =
     try_res (decode_item r) (\<lambda>(v, r).
     try_res (read_items n decode_item r) (\<lambda>(vs, r). Inr (v # vs, r)))"

definition read_seq :: "'a decoder \<Rightarrow> 'a list decoder" where
  "read_seq decode_item r = try_res (read_u32 r) (\<lambda>(len, r). read_items (unat len) decode_item r)"

text \<open>\<open>CanonicalEncode::from_canonical_bytes\<close>.\<close>

definition from_canonical_bytes :: "'a decoder \<Rightarrow> bytes \<Rightarrow> decode_error + 'a" where
  "from_canonical_bytes decode bs =
     try_res (decode (reader_new bs)) (\<lambda>(v, r). try_res (reader_finish r) (\<lambda>_. Inr v))"

section \<open>Cursors\<close>

text \<open>A reader in the middle of its input, at array depth \<open>d\<close>.\<close>

definition cursor_at :: "nat \<Rightarrow> bytes \<Rightarrow> bytes \<Rightarrow> reader" where
  "cursor_at d pre rest = \<lparr>rd_bytes = pre @ rest, rd_pos = length pre, rd_array_depth = d\<rparr>"

abbreviation cursor :: "bytes \<Rightarrow> bytes \<Rightarrow> reader" where
  "cursor \<equiv> cursor_at 0"

named_theorems codec_laws \<open>decoding what an encoder wrote\<close>
named_theorems codec_prefix \<open>encodings are prefix codes\<close>
named_theorems codec_conv \<open>a decoder that accepts read an encoding\<close>

lemma cursor_depth [simp]: "rd_array_depth (cursor_at d pre rest) = d"
  by (simp add: cursor_at_def)

lemma cursor_set_depth [simp]: "(cursor_at d pre rest)\<lparr>rd_array_depth := e\<rparr> = cursor_at e pre rest"
  by (simp add: cursor_at_def)

lemma reader_new_cursor: "reader_new bs = cursor [] bs"
  by (simp add: reader_new_def cursor_at_def)

lemma reader_finish_cursor: "reader_finish (cursor_at d pre rest) =
    (if rest = [] then Inr () else Inl (TrailingBytes (length rest)))"
  by (simp add: reader_finish_def cursor_at_def)

lemma take_cursor:
  "reader_take n (cursor_at d pre rest) =
     (if length rest < n then Inl (UnexpectedEof (length pre))
      else Inr (take n rest, cursor_at d (pre @ take n rest) (drop n rest)))"
  by (auto simp: reader_take_def cursor_at_def)

lemma take_cursor_append:
  "length bs = n \<Longrightarrow>
     reader_take n (cursor_at d pre (bs @ rest)) = Inr (bs, cursor_at d (pre @ bs) rest)"
  by (simp add: take_cursor)

lemma take_cursor_Inr:
  "reader_take n (cursor_at d pre bs) = Inr (v, r) \<longleftrightarrow>
     length v = n \<and> (\<exists>rest. bs = v @ rest \<and> r = cursor_at d (pre @ v) rest)"
proof
  assume "reader_take n (cursor_at d pre bs) = Inr (v, r)"
  then have "n \<le> length bs" "v = take n bs" "r = cursor_at d (pre @ take n bs) (drop n bs)"
    by (auto simp: take_cursor split: if_splits)
  then show "length v = n \<and> (\<exists>rest. bs = v @ rest \<and> r = cursor_at d (pre @ v) rest)"
    by (auto intro!: exI [of _ "drop n bs"])
next
  assume "length v = n \<and> (\<exists>rest. bs = v @ rest \<and> r = cursor_at d (pre @ v) rest)"
  then show "reader_take n (cursor_at d pre bs) = Inr (v, r)"
    by (auto simp: take_cursor)
qed

text \<open>The primitives, at every array depth.\<close>

lemma of_char_byte: "of_char (char_of (unat v) :: char) = (v :: u8)"
proof -
  have "of_char (char_of (unat v) :: char) = (of_nat (of_char (char_of (unat v) :: char)) :: u8)"
    by (simp only: of_nat_of_char)
  also have "(of_char (char_of (unat v) :: char) :: nat) = unat v"
    using unat_lt [of v] by simp
  finally show ?thesis by simp
qed

lemma byte_of_char: "char_of (unat (of_char c :: u8)) = c"
proof -
  have "unat (of_char c :: u8) = unat (of_nat (of_char c) :: u8)"
    by (simp only: of_nat_of_char)
  also have "\<dots> = of_char c"
    by (rule unat_of_nat_small) simp
  finally show ?thesis by simp
qed

lemma take_conv:
  assumes "\<And>b. length b = n \<and> f b = v \<longleftrightarrow> b = e"
  shows "try_res (reader_take n (cursor_at d pre bs)) (\<lambda>(b, r). Inr (f b, r)) = Inr (v, r) \<longleftrightarrow>
    (\<exists>rest. bs = e @ rest \<and> r = cursor_at d (pre @ e) rest)"
proof -
  have "try_res (reader_take n (cursor_at d pre bs)) (\<lambda>(b, r). Inr (f b, r)) = Inr (v, r) \<longleftrightarrow>
      (\<exists>b. reader_take n (cursor_at d pre bs) = Inr (b, r) \<and> f b = v)"
    by (auto simp: res_simps)
  also have "\<dots> \<longleftrightarrow> (\<exists>b. (length b = n \<and> f b = v) \<and> (\<exists>rest. bs = b @ rest \<and> r = cursor_at d (pre @ b) rest))"
    by (simp add: take_cursor_Inr conj_ac)
  finally show ?thesis by (simp only: assms) blast
qed

lemma read_u8_iff [codec_conv]:
  "read_u8 (cursor_at d pre bs) = Inr (v, r) \<longleftrightarrow>
     (\<exists>rest. bs = write_u8 v @ rest \<and> r = cursor_at d (pre @ write_u8 v) rest)"
  unfolding read_u8_def
proof (rule take_conv)
  show "length b = 1 \<and> of_char (b ! 0) = v \<longleftrightarrow> b = write_u8 v" for b :: bytes
    by (cases b) (auto simp: write_u8_def byte_of_char of_char_byte)
qed

lemma uint_from_le_iff:
  "LENGTH('a) = 8 * n \<Longrightarrow>
     length b = n \<and> uint_from_le b = (v :: 'a::len word) \<longleftrightarrow> b = write_uint n v"
  using write_uint_from_le [of b n, where 'a = 'a] uint_from_le_write [of n v] by auto

lemma read_words_iff [codec_conv]:
  "read_u16 (cursor_at d pre bs) = Inr (v16, r) \<longleftrightarrow>
     (\<exists>rest. bs = write_u16 v16 @ rest \<and> r = cursor_at d (pre @ write_u16 v16) rest)"
  "read_u32 (cursor_at d pre bs) = Inr (v32, r) \<longleftrightarrow>
     (\<exists>rest. bs = write_u32 v32 @ rest \<and> r = cursor_at d (pre @ write_u32 v32) rest)"
  "read_u64 (cursor_at d pre bs) = Inr (v64, r) \<longleftrightarrow>
     (\<exists>rest. bs = write_u64 v64 @ rest \<and> r = cursor_at d (pre @ write_u64 v64) rest)"
  unfolding read_u16_def read_u32_def read_u64_def write_u16_def write_u32_def write_u64_def
  by (intro take_conv uint_from_le_iff; simp)+

lemma write_u8_eq [simp]: "write_u8 v = write_u8 w \<longleftrightarrow> v = w"
  by (metis of_char_byte write_u8_def list.inject)

lemma write_u8_append_eq [simp]:
  "write_u8 v @ rest = write_u8 w @ rest' \<longleftrightarrow> v = w \<and> rest = rest'"
proof -
  have "write_u8 v @ rest = write_u8 w @ rest' \<longleftrightarrow> write_u8 v = write_u8 w \<and> rest = rest'"
    by (rule append_eq_append_conv) (simp add: write_u8_def)
  then show ?thesis by simp
qed

lemma read_words [codec_laws]:
  "read_u8 (cursor_at d pre (write_u8 v8 @ rest)) = Inr (v8, cursor_at d (pre @ write_u8 v8) rest)"
  "read_u16 (cursor_at d pre (write_u16 v16 @ rest)) = Inr (v16, cursor_at d (pre @ write_u16 v16) rest)"
  "read_u32 (cursor_at d pre (write_u32 v32 @ rest)) = Inr (v32, cursor_at d (pre @ write_u32 v32) rest)"
  "read_u64 (cursor_at d pre (write_u64 v64 @ rest)) = Inr (v64, cursor_at d (pre @ write_u64 v64) rest)"
  by (simp_all add: read_u8_iff read_words_iff)

lemma read_bool [codec_laws]:
  "read_bool (cursor_at d pre (write_bool v @ rest)) = Inr (v, cursor_at d (pre @ write_bool v) rest)"
  by (simp add: read_bool_def write_bool_def read_words)

lemma read_bool_iff [codec_conv]:
  "read_bool (cursor_at d pre bs) = Inr (v, r) \<longleftrightarrow>
     (\<exists>rest. bs = write_bool v @ rest \<and> r = cursor_at d (pre @ write_bool v) rest)"
proof
  assume "read_bool (cursor_at d pre bs) = Inr (v, r)"
  then show "\<exists>rest. bs = write_bool v @ rest \<and> r = cursor_at d (pre @ write_bool v) rest"
    by (auto simp: read_bool_def write_bool_def res_simps read_u8_iff split: if_splits)
qed (auto simp: read_bool)

lemma read_bytes_fixed_iff [codec_conv]:
  "read_bytes_fixed n (cursor_at d pre bs) = Inr (v, r) \<longleftrightarrow>
     length v = n \<and> (\<exists>rest. bs = write_bytes_fixed v @ rest \<and> r = cursor_at d (pre @ write_bytes_fixed v) rest)"
  by (simp add: read_bytes_fixed_def write_bytes_fixed_def take_cursor_Inr)

lemma read_bytes [codec_laws]:
  "length v < 2 ^ 32 \<Longrightarrow>
     read_bytes (cursor_at d pre (write_bytes v @ rest)) = Inr (v, cursor_at d (pre @ write_bytes v) rest)"
  "length v = n \<Longrightarrow>
     read_bytes_fixed n (cursor_at d pre (write_bytes_fixed v @ rest)) =
       Inr (v, cursor_at d (pre @ write_bytes_fixed v) rest)"
  by (simp_all add: read_bytes_def write_bytes_def read_words take_cursor_append unat_of_nat_small
      read_bytes_fixed_iff)

lemma read_bytes_iff [codec_conv]:
  "read_bytes (cursor_at d pre bs) = Inr (v, r) \<longleftrightarrow>
     length v < 2 ^ 32 \<and> (\<exists>rest. bs = write_bytes v @ rest \<and> r = cursor_at d (pre @ write_bytes v) rest)"
proof
  assume "read_bytes (cursor_at d pre bs) = Inr (v, r)"
  then obtain len rest where "length v = unat len" "bs = write_u32 len @ v @ rest"
    "r = cursor_at d (pre @ write_u32 len @ v) rest"
    by (auto simp: read_bytes_def res_simps read_words_iff take_cursor_Inr)
  moreover from this have "of_nat (length v) = len" "length v < 2 ^ 32"
    using unat_lt [of len] by auto
  ultimately show "length v < 2 ^ 32 \<and>
      (\<exists>rest. bs = write_bytes v @ rest \<and> r = cursor_at d (pre @ write_bytes v) rest)"
    by (auto simp: write_bytes_def)
qed (auto simp: read_bytes)

definition str_ok :: "string \<Rightarrow> bool" where
  "str_ok s \<longleftrightarrow> length s < 2 ^ 32 \<and> utf8_valid s"

lemma read_str_iff [codec_conv]:
  "read_str (cursor_at d pre bs) = Inr (v, r) \<longleftrightarrow>
     str_ok v \<and> (\<exists>rest. bs = write_str v @ rest \<and> r = cursor_at d (pre @ write_str v) rest)"
  by (auto simp: read_str_def write_str_def str_ok_def from_utf8_def res_simps read_bytes_iff
      split: if_splits)

lemma read_str [codec_laws]:
  "str_ok v \<Longrightarrow>
     read_str (cursor_at d pre (write_str v @ rest)) = Inr (v, cursor_at d (pre @ write_str v) rest)"
  by (simp add: read_str_iff)

section \<open>The contract\<close>

text \<open>
  \<open>enc\<close> and \<open>dec\<close> are the two methods of a \<open>CanonicalEncode\<close> implementation; \<open>ok\<close> is the set of
  values the format can carry (strings of less than \<open>2^32\<close> bytes, 32-byte hashes, and so on).
\<close>

lemma prefix_of_law:
  assumes "dec (cursor_at d [] (enc v @ rest)) = Inr (v, cursor_at d ([] @ enc v) rest)"
    and "dec (cursor_at d [] (enc w @ rest')) = Inr (w, cursor_at d ([] @ enc w) rest')"
  shows "enc v @ rest = enc w @ rest' \<longleftrightarrow> v = w \<and> rest = rest'"
proof
  assume eq: "enc v @ rest = enc w @ rest'"
  with assms have "v = w" by simp
  with eq show "v = w \<and> rest = rest'" by simp
qed simp

locale codec =
  fixes d :: nat and enc :: "'a \<Rightarrow> bytes" and dec :: "'a decoder" and ok :: "'a \<Rightarrow> bool"
  assumes dec_enc: "ok v \<Longrightarrow> dec (cursor_at d pre (enc v @ rest)) = Inr (v, cursor_at d (pre @ enc v) rest)"
begin

lemma from_canonical_bytes: "d = 0 \<Longrightarrow> ok v \<Longrightarrow> from_canonical_bytes dec (enc v) = Inr v"
  using dec_enc [of v "[]" "[]"]
  by (simp add: from_canonical_bytes_def reader_new_cursor reader_finish_cursor)

lemma prefix_iff:
  "ok v \<Longrightarrow> ok w \<Longrightarrow> enc v @ rest = enc w @ rest' \<longleftrightarrow> v = w \<and> rest = rest'"
  by (rule prefix_of_law [where dec = dec and d = d]) (rule dec_enc, assumption)+

lemma enc_inject: "ok v \<Longrightarrow> ok w \<Longrightarrow> enc v = enc w \<longleftrightarrow> v = w"
  using prefix_iff [of v w "[]" "[]"] by simp

lemma option_dec_enc:
  "pred_option ok v \<Longrightarrow>
     read_option dec (cursor_at d pre (write_option enc v @ rest)) =
       Inr (v, cursor_at d (pre @ write_option enc v) rest)"
  using dec_enc [of _ "pre @ write_u8 1" rest]
  by (cases v) (simp_all add: read_option_def write_option_def codec_laws)

lemma items_dec_enc:
  "list_all ok vs \<Longrightarrow>
     read_items (length vs) dec (cursor_at d pre (concat (map enc vs) @ rest)) =
       Inr (vs, cursor_at d (pre @ concat (map enc vs)) rest)"
  by (induction vs arbitrary: pre) (simp_all add: dec_enc)

lemma seq_dec_enc:
  "list_all ok vs \<Longrightarrow> length vs < 2 ^ 32 \<Longrightarrow>
     read_seq dec (cursor_at d pre (write_seq enc vs @ rest)) =
       Inr (vs, cursor_at d (pre @ write_seq enc vs) rest)"
  using items_dec_enc [of vs "pre @ write_u32 (of_nat (length vs))" rest]
  by (simp add: read_seq_def write_seq_def codec_laws unat_of_nat_small)

lemma option_prefix_iff:
  "pred_option ok v \<Longrightarrow> pred_option ok w \<Longrightarrow>
     write_option enc v @ rest = write_option enc w @ rest' \<longleftrightarrow> v = w \<and> rest = rest'"
  by (rule prefix_of_law [where dec = "read_option dec" and d = d]) (rule option_dec_enc, assumption)+

lemma seq_prefix_iff:
  "list_all ok v \<Longrightarrow> length v < 2 ^ 32 \<Longrightarrow> list_all ok w \<Longrightarrow> length w < 2 ^ 32 \<Longrightarrow>
     write_seq enc v @ rest = write_seq enc w @ rest' \<longleftrightarrow> v = w \<and> rest = rest'"
  by (rule prefix_of_law [where dec = "read_seq dec" and d = d]) (rule seq_dec_enc, assumption+)+

end

locale canonical_codec = codec +
  assumes dec_only: "dec (cursor_at d pre bs) = Inr (v, r) \<Longrightarrow>
    ok v \<and> (\<exists>rest. bs = enc v @ rest \<and> r = cursor_at d (pre @ enc v) rest)"
begin

lemma dec_iff:
  "dec (cursor_at d pre bs) = Inr (v, r) \<longleftrightarrow>
     ok v \<and> (\<exists>rest. bs = enc v @ rest \<and> r = cursor_at d (pre @ enc v) rest)"
  using dec_only [of pre bs v r] dec_enc [of v pre] by auto

lemma option_dec_only:
  "read_option dec (cursor_at d pre bs) = Inr (v, r) \<Longrightarrow>
     pred_option ok v \<and>
       (\<exists>rest. bs = write_option enc v @ rest \<and> r = cursor_at d (pre @ write_option enc v) rest)"
  by (auto simp: read_option_def write_option_def res_simps read_u8_iff dec_iff split: if_splits)

lemma items_dec_only:
  "read_items n dec (cursor_at d pre bs) = Inr (vs, r) \<Longrightarrow>
     length vs = n \<and> list_all ok vs \<and>
       (\<exists>rest. bs = concat (map enc vs) @ rest \<and> r = cursor_at d (pre @ concat (map enc vs)) rest)"
proof (induction n arbitrary: pre bs vs r)
  case (Suc n)
  from Suc.prems obtain v r' vs' where v: "dec (cursor_at d pre bs) = Inr (v, r')"
    and vs': "read_items n dec r' = Inr (vs', r)" and vs: "vs = v # vs'"
    by (auto simp: res_simps)
  from v obtain rest where rest: "ok v" "bs = enc v @ rest" "r' = cursor_at d (pre @ enc v) rest"
    by (auto simp: dec_iff)
  from Suc.IH [OF vs' [unfolded rest(3)]] rest vs show ?case by auto
qed auto

lemma seq_dec_only:
  "read_seq dec (cursor_at d pre bs) = Inr (vs, r) \<Longrightarrow>
     (list_all ok vs \<and> length vs < 2 ^ 32) \<and>
       (\<exists>rest. bs = write_seq enc vs @ rest \<and> r = cursor_at d (pre @ write_seq enc vs) rest)"
proof -
  assume "read_seq dec (cursor_at d pre bs) = Inr (vs, r)"
  then obtain len rest where rest: "bs = write_u32 len @ rest"
    and items: "read_items (unat len) dec (cursor_at d (pre @ write_u32 len) rest) = Inr (vs, r)"
    by (auto simp: read_seq_def res_simps read_words_iff)
  note it = items_dec_only [OF items]
  then have "of_nat (length vs) = len" and "length vs < 2 ^ 32"
    using unat_lt [of len] by auto
  with it rest show ?thesis
    by (auto simp: write_seq_def)
qed

lemma from_canonical_bytes_iff:
  assumes "d = 0"
  shows "from_canonical_bytes dec bs = Inr v \<longleftrightarrow> ok v \<and> bs = enc v"
proof
  assume "from_canonical_bytes dec bs = Inr v"
  then obtain r where r: "dec (cursor_at d [] bs) = Inr (v, r)" "reader_finish r = Inr ()"
    by (auto simp: from_canonical_bytes_def reader_new_cursor res_simps assms)
  from dec_only [OF r(1)] r(2) show "ok v \<and> bs = enc v"
    by (auto simp: reader_finish_cursor split: if_splits)
qed (auto simp: from_canonical_bytes assms)

end

end
