(* ===== verification/Canonical.thy ===== *)
theory Canonical
  imports Codec Concurrency
begin

text \<open>
  The \<open>CanonicalEncode\<close> implementations of \<open>bpmn-lite-types/src/canonical.rs\<close>, one encoder and
  one decoder per type, each with the interpretation of its contract. Types whose fields are
  read back verbatim are \<open>canonical_codec\<close>s; a type that is rebuilt through a \<open>BTreeSet\<close> or
  \<open>BTreeMap\<close> is only a \<open>codec\<close>, because the decoder sorts and deduplicates what it reads.
\<close>

section \<open>Identifiers and records' small types\<close>

definition encode_uuid :: "uuid \<Rightarrow> bytes" where
  "encode_uuid u = write_bytes_fixed (be_bytes 16 u)"

definition decode_uuid :: "uuid decoder" where
  "decode_uuid r = try_res (read_bytes_fixed 16 r) (\<lambda>(b, r). Inr (uuid_from_bytes b, r))"

definition encode_addr :: "addr \<Rightarrow> bytes" where
  "encode_addr a = write_u32 a"

definition decode_addr :: "addr decoder" where
  "decode_addr r = read_u32 r"

definition encode_record_id :: "record_id \<Rightarrow> bytes" where
  "encode_record_id i = encode_uuid i"

definition decode_record_id :: "record_id decoder" where
  "decode_record_id r = decode_uuid r"

definition encode_effect_id :: "effect_id \<Rightarrow> bytes" where
  "encode_effect_id i = encode_uuid i"

definition decode_effect_id :: "effect_id decoder" where
  "decode_effect_id r = decode_uuid r"

fun encode_record_kind :: "record_kind \<Rightarrow> bytes" where
  "encode_record_kind (RK_Guard interrupting) = write_u8 0x00 @ write_bool interrupting"
| "encode_record_kind RK_Race = write_u8 0x01"
| "encode_record_kind RK_Barrier = write_u8 0x02"
| "encode_record_kind RK_Compensation = write_u8 0x03"

definition decode_record_kind :: "record_kind decoder" where
  "decode_record_kind r = try_res (read_u8 r) (\<lambda>(tag, r).
     if tag = 0x00 then try_res (read_bool r) (\<lambda>(interrupting, r). Inr (RK_Guard interrupting, r))
     else if tag = 0x01 then Inr (RK_Race, r)
     else if tag = 0x02 then Inr (RK_Barrier, r)
     else if tag = 0x03 then Inr (RK_Compensation, r)
     else Inl (UnknownTag tag ''RecordKind''))"

definition encode_record_state :: "record_state \<Rightarrow> bytes" where
  "encode_record_state st = write_u8 (case st of Armed \<Rightarrow> 0x00 | Retired \<Rightarrow> 0x01)"

definition decode_record_state :: "record_state decoder" where
  "decode_record_state r = try_res (read_u8 r) (\<lambda>(tag, r).
     if tag = 0x00 then Inr (Armed, r)
     else if tag = 0x01 then Inr (Retired, r)
     else Inl (UnknownTag tag ''RecordState''))"

definition encode_counters :: "record_counters \<Rightarrow> bytes" where
  "encode_counters c = write_u32 (ct_arity c) @ write_u32 (ct_count c)"

definition decode_counters :: "record_counters decoder" where
  "decode_counters r =
     try_res (read_u32 r) (\<lambda>(arity, r).
     try_res (read_u32 r) (\<lambda>(count, r). Inr (\<lparr>ct_arity = arity, ct_count = count\<rparr>, r)))"

lemma uuid_from_bytes_iff: "length b = 16 \<and> uuid_from_bytes b = u \<longleftrightarrow> b = be_bytes 16 u"
  using be_bytes_uuid_from by auto

lemma decode_uuid_iff:
  "decode_uuid (cursor_at d pre bs) = Inr (u, r) \<longleftrightarrow>
     (\<exists>rest. bs = encode_uuid u @ rest \<and> r = cursor_at d (pre @ encode_uuid u) rest)"
  unfolding decode_uuid_def read_bytes_fixed_def encode_uuid_def write_bytes_fixed_def
  by (rule take_conv) (rule uuid_from_bytes_iff)

interpretation uuid_c: canonical_codec 0 encode_uuid decode_uuid "\<lambda>_. True"
  by unfold_locales (simp_all add: decode_uuid_iff)

interpretation addr_c: canonical_codec 0 encode_addr decode_addr "\<lambda>_. True"
  by unfold_locales (simp_all add: encode_addr_def decode_addr_def codec_conv)

interpretation record_id_c: canonical_codec 0 encode_record_id decode_record_id "\<lambda>_. True"
  by unfold_locales (simp_all add: encode_record_id_def decode_record_id_def decode_uuid_iff)

interpretation effect_id_c: canonical_codec 0 encode_effect_id decode_effect_id "\<lambda>_. True"
  by unfold_locales (simp_all add: encode_effect_id_def decode_effect_id_def decode_uuid_iff)

lemmas id_laws [codec_laws] = uuid_c.dec_enc [OF TrueI] addr_c.dec_enc [OF TrueI]
  record_id_c.dec_enc [OF TrueI] effect_id_c.dec_enc [OF TrueI]

lemmas id_conv [codec_conv] = uuid_c.dec_iff addr_c.dec_iff record_id_c.dec_iff effect_id_c.dec_iff

interpretation kind_c: canonical_codec 0 encode_record_kind decode_record_kind "\<lambda>_. True"
proof (unfold_locales, goal_cases)
  case (1 v pre rest)
  show ?case by (cases v) (simp_all add: decode_record_kind_def codec_laws)
next
  case (2 pre bs v r)
  then show ?case
    by (auto simp: decode_record_kind_def res_simps codec_conv split: if_splits)
qed

interpretation rstate_c: canonical_codec 0 encode_record_state decode_record_state "\<lambda>_. True"
proof (unfold_locales, goal_cases)
  case (1 v pre rest)
  show ?case by (cases v) (simp_all add: encode_record_state_def decode_record_state_def codec_laws)
next
  case (2 pre bs v r)
  then show ?case
    by (auto simp: encode_record_state_def decode_record_state_def res_simps codec_conv split: if_splits)
qed

interpretation counters_c: canonical_codec 0 encode_counters decode_counters "\<lambda>_. True"
proof (unfold_locales, goal_cases)
  case (1 v pre rest)
  show ?case by (simp add: encode_counters_def decode_counters_def codec_laws)
next
  case (2 pre bs v r)
  then show ?case
    by (auto simp: encode_counters_def decode_counters_def res_simps codec_conv)
qed

section \<open>Values\<close>

lemma write_seq_cong [fundef_cong]:
  "items = items' \<Longrightarrow> (\<And>v. v \<in> set items' \<Longrightarrow> f v = g v) \<Longrightarrow> write_seq f items = write_seq g items'"
  by (simp add: write_seq_def cong: map_cong)

fun encode_value :: "val \<Rightarrow> bytes" where
  "encode_value (V_Bool b) = write_u8 0x00 @ write_bool b"
| "encode_value (V_I64 v) = write_u8 0x01 @ write_u64 v"
| "encode_value (V_Str i) = write_u8 0x02 @ write_u32 i"
| "encode_value (V_Ref i) = write_u8 0x03 @ write_u32 i"
| "encode_value (V_Array items) = write_u8 0x04 @ write_seq encode_value items"

text \<open>
  The decoder recurses once per array it opens, and refuses to open more than
  \<open>MAX_VALUE_ARRAY_DEPTH\<close>; the first argument bounds the recursion and is never used up (lemma
  \<open>decode_value_fuel_enough\<close>).
\<close>

definition decode_value_with :: "val decoder \<Rightarrow> val decoder" where
  "decode_value_with decode_item r = try_res (read_u8 r) (\<lambda>(tag, r).
     if tag = 0x00 then try_res (read_bool r) (\<lambda>(b, r). Inr (V_Bool b, r))
     else if tag = 0x01 then try_res (read_u64 r) (\<lambda>(v, r). Inr (V_I64 v, r))
     else if tag = 0x02 then try_res (read_u32 r) (\<lambda>(i, r). Inr (V_Str i, r))
     else if tag = 0x03 then try_res (read_u32 r) (\<lambda>(i, r). Inr (V_Ref i, r))
     else if tag = 0x04 then
       (let r = r\<lparr>rd_array_depth := rd_array_depth r + 1\<rparr> in
        if rd_array_depth r > MAX_VALUE_ARRAY_DEPTH
          then Inl (ValueArrayTooDeep MAX_VALUE_ARRAY_DEPTH)
        else try_res (read_u32 r) (\<lambda>(len, r).
          if unat len > MAX_VALUE_ARRAY_LEN
            then Inl (ValueArrayTooLong (unat len) MAX_VALUE_ARRAY_LEN)
          else try_res (read_items (unat len) decode_item r) (\<lambda>(items, r).
            Inr (V_Array items, r\<lparr>rd_array_depth := rd_array_depth r - 1\<rparr>))))
     else Inl (UnknownTag tag ''Value''))"

fun decode_value_fuel :: "nat \<Rightarrow> val decoder" where
  "decode_value_fuel 0 r = Inl (ValueArrayTooDeep MAX_VALUE_ARRAY_DEPTH)"
| "decode_value_fuel (Suc fuel) r = decode_value_with (decode_value_fuel fuel) r"

definition decode_value :: "val decoder" where
  "decode_value r = decode_value_fuel (Suc MAX_VALUE_ARRAY_DEPTH) r"

text \<open>The values that fit below \<open>d\<close> open arrays.\<close>

definition value_fits :: "nat \<Rightarrow> val \<Rightarrow> bool" where
  "value_fits d v \<longleftrightarrow>
     array_depth v + d \<le> MAX_VALUE_ARRAY_DEPTH \<and> max_array_len v \<le> MAX_VALUE_ARRAY_LEN"

lemma value_fits_simps [simp]:
  "value_fits d (V_Bool b) \<longleftrightarrow> d \<le> MAX_VALUE_ARRAY_DEPTH"
  "value_fits d (V_I64 i) \<longleftrightarrow> d \<le> MAX_VALUE_ARRAY_DEPTH"
  "value_fits d (V_Str n) \<longleftrightarrow> d \<le> MAX_VALUE_ARRAY_DEPTH"
  "value_fits d (V_Ref n) \<longleftrightarrow> d \<le> MAX_VALUE_ARRAY_DEPTH"
  by (simp_all add: value_fits_def)

lemma value_fits_array:
  "value_fits d (V_Array items) \<longleftrightarrow>
     Suc d \<le> MAX_VALUE_ARRAY_DEPTH \<and> length items \<le> MAX_VALUE_ARRAY_LEN \<and> list_all (value_fits (Suc d)) items"
proof -
  have "fold (\<lambda>v m. max (array_depth v) m) items 0 + Suc d \<le> MAX_VALUE_ARRAY_DEPTH \<longleftrightarrow>
      Suc d \<le> MAX_VALUE_ARRAY_DEPTH \<and>
      fold (\<lambda>v m. max (array_depth v) m) items 0 \<le> MAX_VALUE_ARRAY_DEPTH - Suc d"
    by arith
  also have "\<dots> \<longleftrightarrow> Suc d \<le> MAX_VALUE_ARRAY_DEPTH \<and>
      (\<forall>v\<in>set items. array_depth v + Suc d \<le> MAX_VALUE_ARRAY_DEPTH)"
    by (auto simp: fold_max_le le_diff_conv2)
  finally show ?thesis
    by (auto simp: value_fits_def fold_max_le list_all_iff)
qed

lemma read_u32_len:
  "length items \<le> MAX_VALUE_ARRAY_LEN \<Longrightarrow> unat (of_nat (length items) :: u32) = length items"
  by (rule unat_of_nat_small) (simp add: MAX_VALUE_ARRAY_LEN_def)

lemma value_step:
  assumes inner: "Suc d \<le> MAX_VALUE_ARRAY_DEPTH \<Longrightarrow>
      canonical_codec (Suc d) encode_value (decode_value_fuel fuel) (value_fits (Suc d))"
    and d: "d \<le> MAX_VALUE_ARRAY_DEPTH"
  shows "canonical_codec d encode_value (decode_value_fuel (Suc fuel)) (value_fits d)"
proof (unfold_locales, goal_cases)
  case (1 v pre rest)
  show ?case
  proof (cases v)
    case (V_Array items)
    with 1 have items: "Suc d \<le> MAX_VALUE_ARRAY_DEPTH" "length items \<le> MAX_VALUE_ARRAY_LEN"
      "list_all (value_fits (Suc d)) items"
      by (simp_all add: value_fits_array)
    note inner_items =
      codec.items_dec_enc [OF canonical_codec.axioms(1) [OF inner [OF items(1)]] items(3)]
    show ?thesis
      using items(1,2) by (simp add: V_Array decode_value_with_def write_seq_def codec_laws Let_def read_u32_len inner_items)
  qed (use d in \<open>simp_all add: decode_value_with_def codec_laws\<close>)
next
  case (2 pre bs v r)
  then obtain tag r0 where "read_u8 (cursor_at d pre bs) = Inr (tag, r0)"
    by (auto simp: decode_value_with_def try_res_Inr)
  then obtain rest where bs: "bs = write_u8 tag @ rest" by (auto simp: read_u8_iff)
  note body = 2 [unfolded bs]
  show ?case
  proof (cases "tag = 0x04")
    case True
    with body obtain len rest' items r' where deep: "Suc d \<le> MAX_VALUE_ARRAY_DEPTH"
      and rest: "rest = write_u32 len @ rest'" and len: "unat len \<le> MAX_VALUE_ARRAY_LEN"
      and items: "read_items (unat len) (decode_value_fuel fuel)
            (cursor_at (Suc d) (pre @ write_u8 4 @ write_u32 len) rest') = Inr (items, r')"
      and v: "v = V_Array items" and r: "r = r'\<lparr>rd_array_depth := rd_array_depth r' - 1\<rparr>"
      by (auto simp: decode_value_with_def codec_laws res_simps codec_conv Let_def split: if_splits)
    note it = canonical_codec.items_dec_only [OF inner [OF deep] items]
    then have "of_nat (length items) = len" by auto
    with it bs rest len v r True deep show ?thesis
      by (auto simp: value_fits_array write_seq_def)
  next
    case False
    with body bs d show ?thesis
      by (auto simp: decode_value_with_def codec_laws res_simps codec_conv split: if_splits)
  qed
qed

lemma value_codec:
  "d \<le> MAX_VALUE_ARRAY_DEPTH \<Longrightarrow> MAX_VALUE_ARRAY_DEPTH \<le> d + fuel \<Longrightarrow>
     canonical_codec d encode_value (decode_value_fuel (Suc fuel)) (value_fits d)"
proof (induction fuel arbitrary: d)
  case 0
  then show ?case by (intro value_step) auto
next
  case (Suc fuel)
  show ?case
    by (rule value_step) (use Suc in \<open>auto simp del: decode_value_fuel.simps\<close>)
qed

lemma value_ok_iff: "value_fits 0 v \<longleftrightarrow> check_array_limits v = Inr ()"
  by (simp add: value_fits_def check_array_limits_def check_limits_char)

interpretation value_c: canonical_codec 0 encode_value decode_value "value_fits 0"
proof -
  have "decode_value = decode_value_fuel (Suc MAX_VALUE_ARRAY_DEPTH)"
    by (rule ext) (simp add: decode_value_def)
  then show "canonical_codec 0 encode_value decode_value (value_fits 0)"
    using value_codec [of 0 MAX_VALUE_ARRAY_DEPTH] by simp
qed

lemma try_pair_cong:
  "(\<And>a b. r = Inr (a, b) \<Longrightarrow> f a b = g a b) \<Longrightarrow>
     try_res r (\<lambda>(a, b). f a b) = try_res r (\<lambda>(a, b). g a b)"
  by (cases r) auto

lemma read_items_cong:
  assumes "canonical_codec d enc f ok"
    and "\<And>pre bs. f (cursor_at d pre bs) = g (cursor_at d pre bs)"
  shows "read_items n f (cursor_at d pre bs) = read_items n g (cursor_at d pre bs)"
proof (induction n arbitrary: pre bs)
  case (Suc n)
  show ?case
  proof (cases "f (cursor_at d pre bs)")
    case (Inl e)
    then show ?thesis by (simp add: assms(2) [symmetric])
  next
    case (Inr vr)
    obtain v r where vr: "vr = (v, r)" by (cases vr)
    with canonical_codec.dec_only [OF assms(1)] Inr
    obtain pre' rest where "r = cursor_at d pre' rest" by blast
    with Suc.IH Inr vr show ?thesis by (simp add: assms(2) [symmetric])
  qed
qed simp

lemma decode_value_with_cong:
  assumes "\<And>n pre bs. Suc d \<le> MAX_VALUE_ARRAY_DEPTH \<Longrightarrow>
      read_items n f (cursor_at (Suc d) pre bs) = read_items n g (cursor_at (Suc d) pre bs)"
  shows "decode_value_with f (cursor_at d pre bs) = decode_value_with g (cursor_at d pre bs)"
  unfolding decode_value_with_def
  by (rule try_pair_cong)
    (auto simp: codec_conv Let_def Suc_le_eq not_less assms intro!: try_pair_cong)

lemma decode_value_fuel_enough:
  "d \<le> MAX_VALUE_ARRAY_DEPTH \<Longrightarrow> MAX_VALUE_ARRAY_DEPTH \<le> d + fuel \<Longrightarrow>
     decode_value_fuel (Suc fuel) (cursor_at d pre bs) =
       decode_value_fuel (Suc (Suc fuel)) (cursor_at d pre bs)"
proof (induction fuel arbitrary: d pre bs)
  case 0
  then show ?case by (auto intro!: decode_value_with_cong)
next
  case (Suc fuel)
  show ?case
    unfolding decode_value_fuel.simps(2) [of "Suc fuel"] decode_value_fuel.simps(2) [of "Suc (Suc fuel)"]
    by (intro decode_value_with_cong read_items_cong [OF value_codec])
      (use Suc in simp_all)
qed

section \<open>Wait states and process states\<close>

lemmas value_laws [codec_laws] = value_c.dec_enc value_c.seq_dec_enc

fun encode_race_arm :: "v2_race_arm \<Rightarrow> bytes" where
  "encode_race_arm (Arm_Timer target) = write_u8 0x00 @ encode_addr target"
| "encode_race_arm (Arm_Msg target name corr_key) =
     write_u8 0x01 @ encode_addr target @ write_u32 name @ write_str corr_key"
| "encode_race_arm (Arm_Effect target effect_id template_id) =
     write_u8 0x02 @ encode_addr target @ encode_effect_id effect_id @ write_bytes_fixed template_id"

definition decode_race_arm :: "v2_race_arm decoder" where
  "decode_race_arm r = try_res (read_u8 r) (\<lambda>(tag, r).
     if tag = 0x00 then try_res (decode_addr r) (\<lambda>(target, r). Inr (Arm_Timer target, r))
     else if tag = 0x01 then
       try_res (decode_addr r) (\<lambda>(target, r).
       try_res (read_u32 r) (\<lambda>(name, r).
       try_res (read_str r) (\<lambda>(corr_key, r). Inr (Arm_Msg target name corr_key, r))))
     else if tag = 0x02 then
       try_res (decode_addr r) (\<lambda>(target, r).
       try_res (decode_effect_id r) (\<lambda>(effect_id, r).
       try_res (read_bytes_fixed 32 r) (\<lambda>(template_id, r). Inr (Arm_Effect target effect_id template_id, r))))
     else Inl (UnknownTag tag ''V2RaceArm''))"

fun arm_ok :: "v2_race_arm \<Rightarrow> bool" where
  "arm_ok (Arm_Timer target) = True"
| "arm_ok (Arm_Msg target name corr_key) = str_ok corr_key"
| "arm_ok (Arm_Effect target effect_id template_id) = (length template_id = 32)"

interpretation arm_c: canonical_codec 0 encode_race_arm decode_race_arm arm_ok
proof (unfold_locales, goal_cases)
  case (1 v pre rest)
  then show ?case by (cases v) (simp_all add: decode_race_arm_def codec_laws)
next
  case (2 pre bs v r)
  then show ?case
    by (auto simp: decode_race_arm_def res_simps codec_conv split: if_splits)
qed

fun encode_wait :: "wait_state \<Rightarrow> bytes" where
  "encode_wait W_Running = write_u8 0x00"
| "encode_wait (W_Timer deadline_ms) = write_u8 0x01 @ write_u64 deadline_ms"
| "encode_wait (W_Msg wait_id name corr_key) =
     write_u8 0x02 @ write_u32 wait_id @ write_u32 name @ write_str corr_key"
| "encode_wait (W_Job job_key) = write_u8 0x03 @ write_str job_key"
| "encode_wait (W_Effect effect_id) = write_u8 0x04 @ encode_effect_id effect_id"
| "encode_wait (W_Join join_id) = write_u8 0x05 @ write_u32 join_id"
| "encode_wait (W_Incident incident_id) = write_u8 0x07 @ encode_uuid incident_id"
| "encode_wait (W_V2Barrier record_id) = write_u8 0x08 @ encode_record_id record_id"
| "encode_wait (W_V2Race record_id arms) =
     write_u8 0x09 @ encode_record_id record_id @ write_seq encode_race_arm arms"

definition decode_wait :: "wait_state decoder" where
  "decode_wait r = try_res (read_u8 r) (\<lambda>(tag, r).
     if tag = 0x00 then Inr (W_Running, r)
     else if tag = 0x01 then try_res (read_u64 r) (\<lambda>(deadline_ms, r). Inr (W_Timer deadline_ms, r))
     else if tag = 0x02 then
       try_res (read_u32 r) (\<lambda>(wait_id, r).
       try_res (read_u32 r) (\<lambda>(name, r).
       try_res (read_str r) (\<lambda>(corr_key, r). Inr (W_Msg wait_id name corr_key, r))))
     else if tag = 0x03 then try_res (read_str r) (\<lambda>(job_key, r). Inr (W_Job job_key, r))
     else if tag = 0x04 then try_res (decode_effect_id r) (\<lambda>(effect_id, r). Inr (W_Effect effect_id, r))
     else if tag = 0x05 then try_res (read_u32 r) (\<lambda>(join_id, r). Inr (W_Join join_id, r))
     else if tag = 0x07 then try_res (decode_uuid r) (\<lambda>(incident_id, r). Inr (W_Incident incident_id, r))
     else if tag = 0x08 then try_res (decode_record_id r) (\<lambda>(record_id, r). Inr (W_V2Barrier record_id, r))
     else if tag = 0x09 then
       try_res (decode_record_id r) (\<lambda>(record_id, r).
       try_res (read_seq decode_race_arm r) (\<lambda>(arms, r). Inr (W_V2Race record_id arms, r)))
     else Inl (UnknownTag tag ''WaitState''))"

fun wait_ok :: "wait_state \<Rightarrow> bool" where
  "wait_ok (W_Msg wait_id name corr_key) = str_ok corr_key"
| "wait_ok (W_Job job_key) = str_ok job_key"
| "wait_ok (W_V2Race record_id arms) = (list_all arm_ok arms \<and> length arms < 2 ^ 32)"
| "wait_ok _ = True"

interpretation wait_c: canonical_codec 0 encode_wait decode_wait wait_ok
proof (unfold_locales, goal_cases)
  case (1 v pre rest)
  then show ?case by (cases v) (simp_all add: decode_wait_def codec_laws arm_c.seq_dec_enc)
next
  case (2 pre bs v r)
  then show ?case
    by (auto simp: decode_wait_def res_simps codec_conv dest!: arm_c.seq_dec_only split: if_splits)
qed

fun encode_process_state :: "process_state \<Rightarrow> bytes" where
  "encode_process_state PS_Running = write_u8 0x00"
| "encode_process_state (PS_Completed at) = write_u8 0x01 @ write_u64 at"
| "encode_process_state (PS_Cancelled reason at) = write_u8 0x02 @ write_str reason @ write_u64 at"
| "encode_process_state (PS_Terminated at) = write_u8 0x03 @ write_u64 at"
| "encode_process_state (PS_Failed incident_id) = write_u8 0x04 @ encode_uuid incident_id"
| "encode_process_state (PS_Incidented incident_id) = write_u8 0x07 @ encode_uuid incident_id"
| "encode_process_state (PS_WaitingOnSubmission callout_id node_id) =
     write_u8 0x05 @ encode_uuid callout_id @ write_str node_id"
| "encode_process_state (PS_WaitingOnInvocation execution_id node_id) =
     write_u8 0x06 @ encode_uuid execution_id @ write_str node_id"

definition decode_process_state :: "process_state decoder" where
  "decode_process_state r = try_res (read_u8 r) (\<lambda>(tag, r).
     if tag = 0x00 then Inr (PS_Running, r)
     else if tag = 0x01 then try_res (read_u64 r) (\<lambda>(at, r). Inr (PS_Completed at, r))
     else if tag = 0x02 then
       try_res (read_str r) (\<lambda>(reason, r).
       try_res (read_u64 r) (\<lambda>(at, r). Inr (PS_Cancelled reason at, r)))
     else if tag = 0x03 then try_res (read_u64 r) (\<lambda>(at, r). Inr (PS_Terminated at, r))
     else if tag = 0x04 then try_res (decode_uuid r) (\<lambda>(incident_id, r). Inr (PS_Failed incident_id, r))
     else if tag = 0x07 then try_res (decode_uuid r) (\<lambda>(incident_id, r). Inr (PS_Incidented incident_id, r))
     else if tag = 0x05 then
       try_res (decode_uuid r) (\<lambda>(callout_id, r).
       try_res (read_str r) (\<lambda>(node_id, r). Inr (PS_WaitingOnSubmission callout_id node_id, r)))
     else if tag = 0x06 then
       try_res (decode_uuid r) (\<lambda>(execution_id, r).
       try_res (read_str r) (\<lambda>(node_id, r). Inr (PS_WaitingOnInvocation execution_id node_id, r)))
     else Inl (UnknownTag tag ''ProcessState''))"

fun process_state_ok :: "process_state \<Rightarrow> bool" where
  "process_state_ok (PS_Cancelled reason at) = str_ok reason"
| "process_state_ok (PS_WaitingOnSubmission callout_id node_id) = str_ok node_id"
| "process_state_ok (PS_WaitingOnInvocation execution_id node_id) = str_ok node_id"
| "process_state_ok _ = True"

interpretation pstate_c: canonical_codec 0 encode_process_state decode_process_state process_state_ok
proof (unfold_locales, goal_cases)
  case (1 v pre rest)
  then show ?case by (cases v) (simp_all add: decode_process_state_def codec_laws)
next
  case (2 pre bs v r)
  then show ?case
    by (auto simp: decode_process_state_def res_simps codec_conv split: if_splits)
qed

fun encode_error_class :: "error_class \<Rightarrow> bytes" where
  "encode_error_class Transient = write_u8 0x00"
| "encode_error_class ContractViolation = write_u8 0x01"
| "encode_error_class (BusinessRejection rejection_code) = write_u8 0x02 @ write_str rejection_code"

definition decode_error_class :: "error_class decoder" where
  "decode_error_class r = try_res (read_u8 r) (\<lambda>(tag, r).
     if tag = 0x00 then Inr (Transient, r)
     else if tag = 0x01 then Inr (ContractViolation, r)
     else if tag = 0x02 then try_res (read_str r) (\<lambda>(rejection_code, r). Inr (BusinessRejection rejection_code, r))
     else Inl (UnknownTag tag ''ErrorClass''))"

fun error_class_ok :: "error_class \<Rightarrow> bool" where
  "error_class_ok (BusinessRejection rejection_code) = str_ok rejection_code"
| "error_class_ok _ = True"

interpretation class_c: canonical_codec 0 encode_error_class decode_error_class error_class_ok
proof (unfold_locales, goal_cases)
  case (1 v pre rest)
  then show ?case by (cases v) (simp_all add: decode_error_class_def codec_laws)
next
  case (2 pre bs v r)
  then show ?case
    by (auto simp: decode_error_class_def res_simps codec_conv split: if_splits)
qed

text \<open>Strings and 64-bit integers as option payloads.\<close>

interpretation str_c: canonical_codec 0 write_str read_str str_ok
  by unfold_locales (simp_all add: codec_laws codec_conv)

interpretation u64_c: canonical_codec 0 write_u64 read_u64 "\<lambda>_. True"
  by unfold_locales (simp_all add: codec_laws codec_conv)

interpretation hash_c: canonical_codec 0 write_bytes_fixed "read_bytes_fixed 32" "\<lambda>h. length h = 32"
  by unfold_locales (simp_all add: codec_laws codec_conv)

definition encode_incident :: "incident \<Rightarrow> bytes" where
  "encode_incident i =
     encode_uuid (inc_incident_id i) @ encode_uuid (inc_process_instance_id i)
     @ encode_uuid (inc_fiber_id i) @ write_str (inc_service_task_id i)
     @ encode_addr (inc_bytecode_addr i) @ encode_error_class (inc_error_class i)
     @ write_str (inc_message i) @ write_u32 (inc_retry_count i) @ write_u64 (inc_created_at i)
     @ write_option write_u64 (inc_resolved_at i) @ write_option write_str (inc_resolution i)"

definition decode_incident :: "incident decoder" where
  "decode_incident r =
     try_res (decode_uuid r) (\<lambda>(incident_id, r).
     try_res (decode_uuid r) (\<lambda>(process_instance_id, r).
     try_res (decode_uuid r) (\<lambda>(fiber_id, r).
     try_res (read_str r) (\<lambda>(service_task_id, r).
     try_res (decode_addr r) (\<lambda>(bytecode_addr, r).
     try_res (decode_error_class r) (\<lambda>(err, r).
     try_res (read_str r) (\<lambda>(message, r).
     try_res (read_u32 r) (\<lambda>(retry_count, r).
     try_res (read_u64 r) (\<lambda>(created_at, r).
     try_res (read_option read_u64 r) (\<lambda>(resolved_at, r).
     try_res (read_option read_str r) (\<lambda>(resolution, r).
     Inr (\<lparr>inc_incident_id = incident_id, inc_process_instance_id = process_instance_id,
           inc_fiber_id = fiber_id, inc_service_task_id = service_task_id,
           inc_bytecode_addr = bytecode_addr, inc_error_class = err, inc_message = message,
           inc_retry_count = retry_count, inc_created_at = created_at,
           inc_resolved_at = resolved_at, inc_resolution = resolution\<rparr>, r))))))))))))"

definition incident_ok :: "incident \<Rightarrow> bool" where
  "incident_ok i \<longleftrightarrow> str_ok (inc_service_task_id i) \<and> error_class_ok (inc_error_class i)
     \<and> str_ok (inc_message i) \<and> pred_option str_ok (inc_resolution i)"

lemma pred_option_True [simp]: "pred_option (\<lambda>_. True) v"
  by (cases v) simp_all

interpretation incident_c: canonical_codec 0 encode_incident decode_incident incident_ok
proof (unfold_locales, goal_cases)
  case (1 v pre rest)
  then show ?case
    by (simp add: encode_incident_def decode_incident_def incident_ok_def codec_laws
        class_c.dec_enc u64_c.option_dec_enc str_c.option_dec_enc)
next
  case (2 pre bs v r)
  then show ?case
    by (auto simp: encode_incident_def decode_incident_def incident_ok_def res_simps codec_conv
        class_c.dec_iff dest!: u64_c.option_dec_only str_c.option_dec_only)
qed

definition encode_fiber :: "fiber \<Rightarrow> bytes" where
  "encode_fiber f =
     encode_uuid (fb_id f) @ encode_addr (fb_pc f) @ write_seq encode_value (fb_stack f)
     @ encode_wait (fb_wait f) @ write_u32 (fb_loop_epoch f)
     @ write_seq encode_record_id (fb_control_stack f)"

definition decode_fiber :: "fiber decoder" where
  "decode_fiber r =
     try_res (decode_uuid r) (\<lambda>(fiber_id, r).
     try_res (decode_addr r) (\<lambda>(pc, r).
     try_res (read_seq decode_value r) (\<lambda>(stack, r).
     try_res (decode_wait r) (\<lambda>(wait, r).
     try_res (read_u32 r) (\<lambda>(loop_epoch, r).
     try_res (read_seq decode_record_id r) (\<lambda>(control_stack, r).
     Inr (\<lparr>fb_id = fiber_id, fb_pc = pc, fb_stack = stack, fb_wait = wait,
           fb_loop_epoch = loop_epoch, fb_control_stack = control_stack\<rparr>, r)))))))"

text \<open>The fibers that the format can hold: stack values within the array limits, a wait state that
  it can hold, and lengths that fit their prefixes.\<close>

definition fiber_ok :: "fiber \<Rightarrow> bool" where
  "fiber_ok f \<longleftrightarrow> list_all (value_fits 0) (fb_stack f) \<and> length (fb_stack f) < 2 ^ 32
     \<and> wait_ok (fb_wait f) \<and> length (fb_control_stack f) < 2 ^ 32"

lemma list_all_True [simp]: "list_all (\<lambda>_. True) vs"
  by (induction vs) simp_all

interpretation fiber_c: canonical_codec 0 encode_fiber decode_fiber fiber_ok
proof (unfold_locales, goal_cases)
  case (1 v pre rest)
  then show ?case
    by (simp add: encode_fiber_def decode_fiber_def fiber_ok_def codec_laws
        wait_c.dec_enc record_id_c.seq_dec_enc)
next
  case (2 pre bs v r)
  then show ?case
    by (auto simp: encode_fiber_def decode_fiber_def fiber_ok_def res_simps codec_conv
        wait_c.dec_iff dest!: value_c.seq_dec_only record_id_c.seq_dec_only)
qed

section \<open>Session stack\<close>

fun encode_workspace_kind :: "session_workspace_kind \<Rightarrow> bytes" where
  "encode_workspace_kind ProductMaintenance = write_u8 0x00"
| "encode_workspace_kind Catalogue = write_u8 0x01"
| "encode_workspace_kind Deal = write_u8 0x02"
| "encode_workspace_kind Cbu = write_u8 0x03"
| "encode_workspace_kind Kyc = write_u8 0x04"
| "encode_workspace_kind InstrumentMatrix = write_u8 0x05"
| "encode_workspace_kind OnBoarding = write_u8 0x06"
| "encode_workspace_kind SemOsMaintenance = write_u8 0x07"
| "encode_workspace_kind LifecycleResources = write_u8 0x08"
| "encode_workspace_kind BookingPrincipal = write_u8 0x09"
| "encode_workspace_kind Bpmn = write_u8 0x0A"

definition decode_workspace_kind :: "session_workspace_kind decoder" where
  "decode_workspace_kind r = try_res (read_u8 r) (\<lambda>(tag, r).
     if tag = 0x00 then Inr (ProductMaintenance, r)
     else if tag = 0x01 then Inr (Catalogue, r)
     else if tag = 0x02 then Inr (Deal, r)
     else if tag = 0x03 then Inr (Cbu, r)
     else if tag = 0x04 then Inr (Kyc, r)
     else if tag = 0x05 then Inr (InstrumentMatrix, r)
     else if tag = 0x06 then Inr (OnBoarding, r)
     else if tag = 0x07 then Inr (SemOsMaintenance, r)
     else if tag = 0x08 then Inr (LifecycleResources, r)
     else if tag = 0x09 then Inr (BookingPrincipal, r)
     else if tag = 0x0A then Inr (Bpmn, r)
     else Inl (UnknownTag tag ''SessionWorkspaceKind''))"

interpretation kind_of_workspace_c: canonical_codec 0 encode_workspace_kind decode_workspace_kind "\<lambda>_. True"
proof (unfold_locales, goal_cases)
  case (1 v pre rest)
  then show ?case by (cases v) (simp_all add: decode_workspace_kind_def codec_laws)
next
  case (2 pre bs v r)
  then show ?case
    by (auto simp: decode_workspace_kind_def res_simps codec_conv split: if_splits)
qed

definition encode_scope :: "session_scope_state \<Rightarrow> bytes" where
  "encode_scope st = encode_uuid (sc_client_group_id st) @ write_option write_str (sc_client_group_name st)"

definition decode_scope :: "session_scope_state decoder" where
  "decode_scope r =
     try_res (decode_uuid r) (\<lambda>(client_group_id, r).
     try_res (read_option read_str r) (\<lambda>(client_group_name, r).
     Inr (\<lparr>sc_client_group_id = client_group_id, sc_client_group_name = client_group_name\<rparr>, r)))"

definition scope_ok :: "session_scope_state \<Rightarrow> bool" where
  "scope_ok st \<longleftrightarrow> pred_option str_ok (sc_client_group_name st)"

interpretation scope_c: canonical_codec 0 encode_scope decode_scope scope_ok
proof (unfold_locales, goal_cases)
  case (1 v pre rest)
  then show ?case
    by (simp add: encode_scope_def decode_scope_def scope_ok_def codec_laws str_c.option_dec_enc)
next
  case (2 pre bs v r)
  then show ?case
    by (auto simp: encode_scope_def decode_scope_def scope_ok_def res_simps codec_conv
        dest!: str_c.option_dec_only)
qed

section \<open>Concurrency records and the table\<close>

definition encode_flag_entry :: "flag_key \<times> val \<Rightarrow> bytes" where
  "encode_flag_entry = (\<lambda>(k, v). write_u32 k @ encode_value v)"

definition decode_flag_entry :: "(flag_key \<times> val) decoder" where
  "decode_flag_entry r =
     try_res (read_u32 r) (\<lambda>(k, r). try_res (decode_value r) (\<lambda>(v, r). Inr ((k, v), r)))"

definition encode_join_entry :: "join_id \<times> u16 \<Rightarrow> bytes" where
  "encode_join_entry = (\<lambda>(k, v). write_u32 k @ write_u16 v)"

definition decode_join_entry :: "(join_id \<times> u16) decoder" where
  "decode_join_entry r =
     try_res (read_u32 r) (\<lambda>(k, r). try_res (read_u16 r) (\<lambda>(v, r). Inr ((k, v), r)))"

definition encode_error_route :: "string option \<times> addr \<Rightarrow> bytes" where
  "encode_error_route = (\<lambda>(code, target). write_option write_str code @ encode_addr target)"

definition decode_error_route :: "(string option \<times> addr) decoder" where
  "decode_error_route r =
     try_res (read_option read_str r) (\<lambda>(code, r).
     try_res (decode_addr r) (\<lambda>(target, r). Inr ((code, target), r)))"

interpretation flag_c: canonical_codec 0 encode_flag_entry decode_flag_entry "\<lambda>(k, v). value_fits 0 v"
proof (unfold_locales, goal_cases)
  case (1 v pre rest)
  then show ?case
    by (auto simp: encode_flag_entry_def decode_flag_entry_def codec_laws split: prod.splits)
next
  case (2 pre bs v r)
  then show ?case
    by (auto simp: encode_flag_entry_def decode_flag_entry_def res_simps codec_conv value_c.dec_iff)
qed

interpretation join_c: canonical_codec 0 encode_join_entry decode_join_entry "\<lambda>_. True"
proof (unfold_locales, goal_cases)
  case (1 v pre rest)
  then show ?case
    by (auto simp: encode_join_entry_def decode_join_entry_def codec_laws split: prod.splits)
next
  case (2 pre bs v r)
  then show ?case
    by (auto simp: encode_join_entry_def decode_join_entry_def res_simps codec_conv)
qed

interpretation route_c: canonical_codec 0 encode_error_route decode_error_route
    "\<lambda>(code, target). pred_option str_ok code"
proof (unfold_locales, goal_cases)
  case (1 v pre rest)
  then show ?case
    by (auto simp: encode_error_route_def decode_error_route_def codec_laws str_c.option_dec_enc
        split: prod.splits)
next
  case (2 pre bs v r)
  then show ?case
    by (auto simp: encode_error_route_def decode_error_route_def res_simps codec_conv
        dest!: str_c.option_dec_only)
qed

text \<open>A map written in key order and collected again.\<close>

definition encode_flags :: "(flag_key, val) btree \<Rightarrow> bytes" where
  "encode_flags flags = write_seq encode_flag_entry (bt_entries flags)"

definition decode_flags :: "(flag_key, val) btree decoder" where
  "decode_flags r = try_res (read_seq decode_flag_entry r) (\<lambda>(entries, r). Inr (bt_of_list entries, r))"

definition encode_joins :: "(join_id, u16) btree \<Rightarrow> bytes" where
  "encode_joins joins = write_seq encode_join_entry (bt_entries joins)"

definition decode_joins :: "(join_id, u16) btree decoder" where
  "decode_joins r = try_res (read_seq decode_join_entry r) (\<lambda>(entries, r). Inr (bt_of_list entries, r))"

definition encode_members :: "uuid bset \<Rightarrow> bytes" where
  "encode_members members = write_seq encode_uuid (bs_list members)"

definition decode_members :: "uuid bset decoder" where
  "decode_members r = try_res (read_seq decode_uuid r) (\<lambda>(ids, r). Inr (bs_of_list ids, r))"

definition flags_ok :: "(flag_key, val) btree \<Rightarrow> bool" where
  "flags_ok flags \<longleftrightarrow> list_all (value_fits 0) (bt_values flags) \<and> bt_len flags < 2 ^ 32"

lemma bt_of_entries [simp]: "bt_of_list (bt_entries m) = m"
proof (rule bt_eqI)
  have get: "bt_get (fold (\<lambda>(k, v) m. bt_insert k v m) xs m') k =
      (case map_of xs k of None \<Rightarrow> bt_get m' k | Some v \<Rightarrow> Some v)" if "distinct (map fst xs)"
    for xs m' k
    using that
  proof (induction xs arbitrary: m')
    case (Cons p xs)
    have "map_of xs k = None" if "k = fst p"
      using Cons.prems that by (simp add: map_of_eq_None_iff)
    with Cons show ?case
      by (cases p) (auto simp: bt_get_insert split: option.splits)
  qed simp
  show "bt_get (bt_of_list (bt_entries m)) = bt_get m"
  proof
    fix k
    show "bt_get (bt_of_list (bt_entries m)) k = bt_get m k"
      using get [of "bt_entries m" bt_empty k] bt_get_def [of m k]
      by (cases "bt_get m k") (simp_all add: bt_of_list_def al_wf_distinct)
  qed
qed

lemma bs_of_bs_list [simp]: "bs_of_list (bs_list s) = s"
  by (rule bs_eqI) simp

interpretation flags_c: codec 0 encode_flags decode_flags flags_ok
proof (unfold_locales, goal_cases)
  case (1 v pre rest)
  then have "list_all (\<lambda>(k, v). value_fits 0 v) (bt_entries v)" "length (bt_entries v) < 2 ^ 32"
    by (auto simp: flags_ok_def list_all_iff bt_values_def bt_len_def)
  then show ?case
    by (simp add: encode_flags_def decode_flags_def flag_c.seq_dec_enc)
qed

interpretation joins_c: codec 0 encode_joins decode_joins "\<lambda>m. bt_len m < 2 ^ 32"
  by unfold_locales (simp add: encode_joins_def decode_joins_def join_c.seq_dec_enc bt_len_def)

interpretation members_c: codec 0 encode_members decode_members "\<lambda>s. length (bs_list s) < 2 ^ 32"
  by unfold_locales (simp add: encode_members_def decode_members_def uuid_c.seq_dec_enc)

definition encode_record :: "concurrency_record \<Rightarrow> bytes" where
  "encode_record c =
     encode_record_id (rec_id c) @ encode_record_kind (rec_kind c) @ encode_members (rec_members c)
     @ write_option encode_addr (rec_handler c) @ encode_record_state (rec_state c)
     @ encode_counters (rec_counters c) @ write_option write_str (rec_rollback_domain_payload c)
     @ write_option write_bytes_fixed (rec_rollback_domain_payload_hash c)
     @ write_option encode_flags (rec_rollback_flags c)
     @ write_option encode_joins (rec_rollback_join_expected c)
     @ write_option write_str (rec_rollback_session_stack c)
     @ write_option encode_addr (rec_opened_at c)
     @ write_seq encode_error_route (rec_error_routes c)"

definition decode_record :: "concurrency_record decoder" where
  "decode_record r =
     try_res (decode_record_id r) (\<lambda>(i, r).
     try_res (decode_record_kind r) (\<lambda>(kind, r).
     try_res (decode_members r) (\<lambda>(members, r).
     try_res (read_option decode_addr r) (\<lambda>(handler, r).
     try_res (decode_record_state r) (\<lambda>(state, r).
     try_res (decode_counters r) (\<lambda>(counters, r).
     try_res (read_option read_str r) (\<lambda>(payload, r).
     try_res (read_option (read_bytes_fixed 32) r) (\<lambda>(payload_hash, r).
     try_res (read_option decode_flags r) (\<lambda>(flags, r).
     try_res (read_option decode_joins r) (\<lambda>(joins, r).
     try_res (read_option read_str r) (\<lambda>(session_stack, r).
     try_res (read_option decode_addr r) (\<lambda>(opened_at, r).
     try_res (read_seq decode_error_route r) (\<lambda>(error_routes, r).
     Inr (\<lparr>rec_id = i, rec_kind = kind, rec_members = members, rec_handler = handler,
           rec_state = state, rec_counters = counters, rec_rollback_domain_payload = payload,
           rec_rollback_domain_payload_hash = payload_hash, rec_rollback_flags = flags,
           rec_rollback_join_expected = joins, rec_rollback_session_stack = session_stack,
           rec_opened_at = opened_at, rec_error_routes = error_routes\<rparr>, r))))))))))))))"

definition record_ok :: "concurrency_record \<Rightarrow> bool" where
  "record_ok c \<longleftrightarrow>
     length (bs_list (rec_members c)) < 2 ^ 32
     \<and> pred_option str_ok (rec_rollback_domain_payload c)
     \<and> pred_option (\<lambda>h. length h = 32) (rec_rollback_domain_payload_hash c)
     \<and> pred_option flags_ok (rec_rollback_flags c)
     \<and> pred_option (\<lambda>m. bt_len m < 2 ^ 32) (rec_rollback_join_expected c)
     \<and> pred_option str_ok (rec_rollback_session_stack c)
     \<and> list_all (\<lambda>(code, target). pred_option str_ok code) (rec_error_routes c)
     \<and> length (rec_error_routes c) < 2 ^ 32"

interpretation record_c: codec 0 encode_record decode_record record_ok
proof (unfold_locales, goal_cases)
  case (1 v pre rest)
  note ok = 1 [unfolded record_ok_def]
  show ?case
    using ok
    by (simp add: encode_record_def decode_record_def codec_laws kind_c.dec_enc members_c.dec_enc
        addr_c.option_dec_enc rstate_c.dec_enc counters_c.dec_enc str_c.option_dec_enc
        hash_c.option_dec_enc flags_c.option_dec_enc joins_c.option_dec_enc route_c.seq_dec_enc)
qed

definition encode_table :: "concurrency_table \<Rightarrow> bytes" where
  "encode_table table = write_seq encode_record (bt_values table)"

definition decode_table :: "concurrency_table decoder" where
  "decode_table r =
     try_res (read_seq decode_record r) (\<lambda>(records, r). Inr (fold ct_insert records bt_empty, r))"

text \<open>The tables that the format can hold: every record is stored under its own id and has UTF-8
  strings, 32-byte hashes, lengths that fit their prefixes, and saved flag values within the array
  limits (\<open>flags_ok\<close>).\<close>

definition table_ok :: "concurrency_table \<Rightarrow> bool" where
  "table_ok table \<longleftrightarrow> ct_wf table \<and> list_all record_ok (bt_values table) \<and> bt_len table < 2 ^ 32"

lemma length_bt_values: "length (bt_values m) = bt_len m"
  by (simp add: bt_values_def bt_len_def)

lemma table_of_values: "ct_wf table \<Longrightarrow> fold ct_insert (bt_values table) bt_empty = table"
proof -
  assume wf: "ct_wf table"
  have "fold ct_insert (map snd xs) m = fold (\<lambda>(k, v) m. bt_insert k v m) xs m"
    if "\<forall>(i, r) \<in> set xs. rec_id r = i" for xs m
    using that by (induction xs arbitrary: m) (auto simp: ct_insert_def)
  from this [of "bt_entries table" bt_empty] wf
  have "fold ct_insert (bt_values table) bt_empty = bt_of_list (bt_entries table)"
    by (simp add: ct_wf_def bt_values_def bt_of_list_def)
  then show ?thesis by simp
qed

interpretation table_c: codec 0 encode_table decode_table table_ok
  by unfold_locales
    (simp add: encode_table_def decode_table_def table_ok_def record_c.seq_dec_enc table_of_values
      length_bt_values)

definition encode_effects :: "effect_id bset \<Rightarrow> bytes" where
  "encode_effects effects = write_seq encode_effect_id (bs_list effects)"

definition decode_effects :: "effect_id bset decoder" where
  "decode_effects r = try_res (read_seq decode_effect_id r) (\<lambda>(ids, r). Inr (bs_of_list ids, r))"

interpretation effects_c: codec 0 encode_effects decode_effects "\<lambda>s. length (bs_list s) < 2 ^ 32"
  by unfold_locales (simp add: encode_effects_def decode_effects_def effect_id_c.seq_dec_enc)

end
