(* ===== verification/StateHash.thy ===== *)
theory StateHash
  imports Canonical
begin

text \<open>
  The Ring 2 hash domain: the encode-only half of \<open>bpmn-lite-types/src/canonical.rs\<close> (opaque JSON,
  the session stack, the process instance) and \<open>SnapshotEnvelope::state_hash\<close> of
  \<open>persistence.rs\<close>. The encoders that may reject return \<open>Inl\<close>. The lemmas show that the bytes
  under the hash determine the state: equal preimages mean equal states, up to the text of the
  domain payload (which is hashed as JSON) and the derived integrity hash.
\<close>

section \<open>JSON\<close>

datatype canonical_json_error =
    NonFiniteFloat
  | InvalidJson string
  | LengthOverflow string nat

definition checked_len_u32 :: "nat \<Rightarrow> string \<Rightarrow> canonical_json_error + u32" where
  "checked_len_u32 len kind = (if len < 2 ^ 32 then Inr (of_nat len) else Inl (LengthOverflow kind len))"

text \<open>\<open>f64::is_finite\<close>: the exponent field is not all ones.\<close>

definition is_finite_f64 :: "f64 \<Rightarrow> bool" where
  "is_finite_f64 f \<longleftrightarrow> drop_bit 52 f AND 0x7FF \<noteq> 0x7FF"

definition encode_json_number :: "ext \<Rightarrow> jnumber \<Rightarrow> canonical_json_error + bytes" where
  "encode_json_number x n =
     (case x_num_as_i64 x n of
        Some i \<Rightarrow> Inr (write_u8 0x02 @ write_u64 i)
      | None \<Rightarrow>
          case x_num_as_u64 x n of
            Some u \<Rightarrow> Inr (write_u8 0x03 @ write_u64 u)
          | None \<Rightarrow>
              try_res (ok_or (x_num_as_f64 x n) NonFiniteFloat) (\<lambda>f.
              if \<not> is_finite_f64 f then Inl NonFiniteFloat
              else Inr (write_u8 0x04 @ write_u64 f)))"

fun encode_canonical_json :: "ext \<Rightarrow> json \<Rightarrow> canonical_json_error + bytes"
and encode_json_items :: "ext \<Rightarrow> json list \<Rightarrow> canonical_json_error + bytes"
and encode_json_entries :: "ext \<Rightarrow> (string \<times> json) list \<Rightarrow> canonical_json_error + bytes" where
  "encode_canonical_json x J_Null = Inr (write_u8 0x00)"
| "encode_canonical_json x (J_Bool b) = Inr (write_u8 0x01 @ write_bool b)"
| "encode_canonical_json x (J_Number n) = encode_json_number x n"
| "encode_canonical_json x (J_String s) =
     try_res (checked_len_u32 (length s) ''JSON string'') (\<lambda>_.
     Inr (write_u8 0x05 @ write_str s))"
| "encode_canonical_json x (J_Array items) =
     try_res (checked_len_u32 (length items) ''JSON array'') (\<lambda>len.
     try_res (encode_json_items x items) (\<lambda>bs.
     Inr (write_u8 0x06 @ write_u32 len @ bs)))"
| "encode_canonical_json x (J_Object entries) =
     try_res (checked_len_u32 (length entries) ''JSON object'') (\<lambda>len.
     try_res (encode_json_entries x entries) (\<lambda>bs.
     Inr (write_u8 0x07 @ write_u32 len @ bs)))"
| "encode_json_items x [] = Inr []"
| "encode_json_items x (item # items) =
     try_res (encode_canonical_json x item) (\<lambda>b.
     try_res (encode_json_items x items) (\<lambda>bs. Inr (b @ bs)))"
| "encode_json_entries x [] = Inr []"
| "encode_json_entries x ((k, v) # entries) =
     try_res (checked_len_u32 (length k) ''JSON object key'') (\<lambda>_.
     try_res (encode_canonical_json x v) (\<lambda>b.
     try_res (encode_json_entries x entries) (\<lambda>bs. Inr (write_str k @ b @ bs))))"

text \<open>
  \<open>serde_json::Number\<close> without \<open>arbitrary_precision\<close> is one of \<open>PosInt(u64)\<close>, \<open>NegInt(i64)\<close>,
  \<open>Float(f64)\<close>, so the first view that exists determines the number.
\<close>

definition number_views :: "ext \<Rightarrow> bool" where
  "number_views x \<longleftrightarrow>
     (\<forall>m n i. x_num_as_i64 x m = Some i \<and> x_num_as_i64 x n = Some i \<longrightarrow> m = n) \<and>
     (\<forall>m n u. x_num_as_u64 x m = Some u \<and> x_num_as_u64 x n = Some u \<longrightarrow> m = n) \<and>
     (\<forall>m n f. x_num_as_i64 x m = None \<and> x_num_as_i64 x n = None \<and>
              x_num_as_u64 x m = None \<and> x_num_as_u64 x n = None \<and>
              x_num_as_f64 x m = Some f \<and> x_num_as_f64 x n = Some f \<longrightarrow> m = n)"

lemmas word_prefix [codec_prefix] = u64_c.prefix_iff [OF TrueI TrueI]
  uuid_c.prefix_iff [OF TrueI TrueI] addr_c.prefix_iff [OF TrueI TrueI]

interpretation u32_c: canonical_codec 0 write_u32 read_u32 "\<lambda>_. True"
  by unfold_locales (simp_all add: codec_laws codec_conv)

interpretation u16_c: canonical_codec 0 write_u16 read_u16 "\<lambda>_. True"
  by unfold_locales (simp_all add: codec_laws codec_conv)

interpretation bool_c: canonical_codec 0 write_bool read_bool "\<lambda>_. True"
  by unfold_locales (simp_all add: codec_laws codec_conv)

interpretation bytes_c: canonical_codec 0 write_bytes read_bytes "\<lambda>v. length v < 2 ^ 32"
  by unfold_locales (simp_all add: codec_laws codec_conv)

lemmas prim_prefix [codec_prefix] = u32_c.prefix_iff [OF TrueI TrueI] u16_c.prefix_iff [OF TrueI TrueI]
  bool_c.prefix_iff [OF TrueI TrueI] bytes_c.prefix_iff bytes_c.prefix_iff [folded write_str_def]

lemma checked_len_Inr: "checked_len_u32 n kind = Inr len \<longleftrightarrow> n < 2 ^ 32 \<and> len = of_nat n"
  by (auto simp: checked_len_u32_def)

lemma of_nat_len_eq:
  assumes "m < 2 ^ 32" and "n < 2 ^ 32"
  shows "(of_nat m :: u32) = of_nat n \<longleftrightarrow> m = n"
proof -
  have "unat (of_nat m :: u32) = m" "unat (of_nat n :: u32) = n"
    using assms by (intro unat_of_nat_small; simp)+
  then show ?thesis by metis
qed

lemma json_number_prefix:
  assumes "number_views x" and "encode_json_number x m = Inr p" and "encode_json_number x n = Inr q"
    and "p @ r = q @ s"
  shows "m = n \<and> r = s"
proof -
  note views = assms(1) [unfolded number_views_def]
  show ?thesis
    using assms(2-4) views
    by (auto simp: encode_json_number_def res_simps codec_prefix split: option.splits if_splits)
qed

lemma json_tags:
  "encode_json_number x n = Inr p \<Longrightarrow> \<exists>t v. p = write_u8 t @ write_u64 v \<and> t \<in> {2, 3, 4}"
  by (auto simp: encode_json_number_def res_simps split: option.splits if_splits)

lemma json_prefix:
  "number_views x \<Longrightarrow> encode_canonical_json x a = Inr p \<Longrightarrow> encode_canonical_json x b = Inr q \<Longrightarrow>
     p @ r = q @ s \<Longrightarrow> a = b \<and> r = s"
  "number_views x \<Longrightarrow> encode_json_items x as = Inr p \<Longrightarrow> encode_json_items x bs = Inr q \<Longrightarrow>
     length as = length bs \<Longrightarrow> p @ r = q @ s \<Longrightarrow> as = bs \<and> r = s"
  "number_views x \<Longrightarrow> encode_json_entries x es = Inr p \<Longrightarrow> encode_json_entries x fs = Inr q \<Longrightarrow>
     length es = length fs \<Longrightarrow> p @ r = q @ s \<Longrightarrow> es = fs \<and> r = s"
proof (induction x a and x as and x es arbitrary: b p q r s and bs p q r s and fs p q r s
    rule: encode_canonical_json_encode_json_items_encode_json_entries.induct)
  case (3 x n)
  show ?case
  proof (cases b)
    case (J_Number m)
    with 3 json_number_prefix [of x n p m q r s] show ?thesis by simp
  qed (use 3(2-4) in \<open>auto simp: res_simps checked_len_Inr dest!: json_tags\<close>)
next
  case (1 x)
  then show ?case by (cases b) (auto simp: res_simps checked_len_Inr dest!: json_tags)
next
  case (2 x v)
  then show ?case
    by (cases b) (auto simp: res_simps checked_len_Inr codec_prefix dest!: json_tags)
next
  case (4 x v)
  then show ?case
    by (cases b) (auto simp: res_simps checked_len_Inr codec_prefix dest!: json_tags)
next
  case (5 x items)
  show ?case
  proof (cases b)
    case (J_Array items')
    from 5(3,4) J_Array obtain u v where
      enc: "encode_json_items x items = Inr u" "encode_json_items x items' = Inr v"
      and len: "length items < 2 ^ 32" "length items' < 2 ^ 32"
      and pq: "p = write_u8 6 @ write_u32 (of_nat (length items)) @ u"
        "q = write_u8 6 @ write_u32 (of_nat (length items')) @ v"
      by (auto simp: res_simps checked_len_Inr)
    with 5(5) have "length items = length items'" "u @ r = v @ s"
      by (simp_all add: codec_prefix of_nat_len_eq)
    with 5(1) [OF 5(2) enc] J_Array show ?thesis by simp
  qed (use 5(3-5) in \<open>auto simp: res_simps checked_len_Inr dest!: json_tags\<close>)
next
  case (6 x entries)
  show ?case
  proof (cases b)
    case (J_Object entries')
    from 6(3,4) J_Object obtain u v where
      enc: "encode_json_entries x entries = Inr u" "encode_json_entries x entries' = Inr v"
      and len: "length entries < 2 ^ 32" "length entries' < 2 ^ 32"
      and pq: "p = write_u8 7 @ write_u32 (of_nat (length entries)) @ u"
        "q = write_u8 7 @ write_u32 (of_nat (length entries')) @ v"
      by (auto simp: res_simps checked_len_Inr)
    with 6(5) have "length entries = length entries'" "u @ r = v @ s"
      by (simp_all add: codec_prefix of_nat_len_eq)
    with 6(1) [OF 6(2) enc] J_Object show ?thesis by simp
  qed (use 6(3-5) in \<open>auto simp: res_simps checked_len_Inr dest!: json_tags\<close>)
next
  case (7 x)
  then show ?case by simp
next
  case (8 x item items)
  from 8(4,5,6) obtain item' items' u v u' v' where bs: "bs = item' # items'"
    and enc: "encode_canonical_json x item = Inr u" "encode_json_items x items = Inr v"
      "encode_canonical_json x item' = Inr u'" "encode_json_items x items' = Inr v'"
    and pq: "p = u @ v" "q = u' @ v'" and len: "length items = length items'"
    by (cases bs) (auto simp: res_simps)
  from 8(7) pq have eq: "u @ (v @ r) = u' @ (v' @ s)" by simp
  from 8(1) [OF 8(3) enc(1,3) eq] 8(2) [OF 8(3) enc(2,4) len] bs show ?case by blast
next
  case (9 x)
  then show ?case by simp
next
  case (10 x k v entries)
  from 10(4,5,6) obtain k' v' entries' u w u' w' where fs: "fs = (k', v') # entries'"
    and lk: "length k < 2 ^ 32" "length k' < 2 ^ 32"
    and enc: "encode_canonical_json x v = Inr u" "encode_json_entries x entries = Inr w"
      "encode_canonical_json x v' = Inr u'" "encode_json_entries x entries' = Inr w'"
    and pq: "p = write_str k @ u @ w" "q = write_str k' @ u' @ w'"
    and len: "length entries = length entries'"
    by (cases fs) (auto simp: res_simps checked_len_Inr)
  from 10(7) pq lk have k: "k = k'" and eq: "u @ (w @ r) = u' @ (w' @ s)"
    by (simp_all add: codec_prefix)
  from 10(1) [OF 10(3) enc(1,3) eq] 10(2) [OF 10(3) enc(2,4) len] fs k show ?case by blast
qed

section \<open>Session stack and instance\<close>

definition encode_session_stack :: "ext \<Rightarrow> session_stack_state \<Rightarrow> canonical_json_error + bytes" where
  "encode_session_stack x st =
     try_res (checked_len_u32 (length (ss_workspace_stack st)) ''workspace_stack'') (\<lambda>len.
     try_res (encode_json_items x (ss_workspace_stack st)) (\<lambda>frames.
     Inr (encode_uuid (ss_session_id st) @ write_option encode_scope (ss_scope st)
          @ write_option encode_workspace_kind (ss_active_workspace st)
          @ write_u32 len @ frames @ write_u64 (ss_trace_sequence st))))"

definition encode_counter_entry :: "u32 \<times> u32 \<Rightarrow> bytes" where
  "encode_counter_entry = (\<lambda>(k, v). write_u32 k @ write_u32 v)"

definition encode_placeholders :: "ext \<Rightarrow> json option \<Rightarrow> canonical_json_error + bytes" where
  "encode_placeholders x v =
     (case v of
        None \<Rightarrow> Inr (write_u8 0x00)
      | Some v \<Rightarrow> try_res (encode_canonical_json x v) (\<lambda>bs. Inr (write_u8 0x01 @ bs)))"

definition instance_hash_bytes :: "ext \<Rightarrow> process_instance \<Rightarrow> canonical_json_error + bytes" where
  "instance_hash_bytes x i =
     try_res (map_err InvalidJson (x_json_parse x (pi_domain_payload i))) (\<lambda>payload.
     try_res (encode_canonical_json x payload) (\<lambda>payload_bytes.
     try_res (encode_session_stack x (pi_session_stack i)) (\<lambda>session_bytes.
     try_res (encode_placeholders x (pi_placeholder_values i)) (\<lambda>placeholder_bytes.
     Inr (encode_uuid (pi_instance_id i) @ write_str (pi_tenant_id i) @ write_str (pi_process_key i)
          @ write_bytes_fixed (pi_bytecode_version i) @ payload_bytes
          @ write_bytes_fixed (pi_domain_payload_hash i) @ session_bytes
          @ write_seq encode_flag_entry (bt_entries (pi_flags i))
          @ write_seq encode_counter_entry (bt_entries (pi_counters i))
          @ write_seq encode_join_entry (bt_entries (pi_join_expected i))
          @ encode_process_state (pi_state i) @ write_str (pi_correlation_id i)
          @ encode_uuid (pi_entry_id i) @ encode_uuid (pi_runbook_id i) @ write_u64 (pi_created_at i)
          @ write_option write_str (pi_quarantine_state i)
          @ write_option write_bytes_fixed (pi_plan_hash i)
          @ write_option write_str (pi_current_node_id i)
          @ placeholder_bytes)))))"

definition session_ok :: "session_stack_state \<Rightarrow> bool" where
  "session_ok st \<longleftrightarrow> pred_option scope_ok (ss_scope st)"

definition instance_ok :: "process_instance \<Rightarrow> bool" where
  "instance_ok i \<longleftrightarrow>
     str_ok (pi_tenant_id i) \<and> str_ok (pi_process_key i) \<and> length (pi_bytecode_version i) = 32
     \<and> length (pi_domain_payload_hash i) = 32 \<and> session_ok (pi_session_stack i)
     \<and> flags_ok (pi_flags i) \<and> bt_len (pi_counters i) < 2 ^ 32 \<and> bt_len (pi_join_expected i) < 2 ^ 32
     \<and> process_state_ok (pi_state i) \<and> str_ok (pi_correlation_id i)
     \<and> pred_option str_ok (pi_quarantine_state i)
     \<and> pred_option (\<lambda>h. length h = 32) (pi_plan_hash i) \<and> pred_option str_ok (pi_current_node_id i)"

definition decode_counter_entry :: "(u32 \<times> u32) decoder" where
  "decode_counter_entry r =
     try_res (read_u32 r) (\<lambda>(k, r). try_res (read_u32 r) (\<lambda>(v, r). Inr ((k, v), r)))"

interpretation counter_c: codec 0 encode_counter_entry decode_counter_entry "\<lambda>_. True"
  by unfold_locales
    (auto simp: encode_counter_entry_def decode_counter_entry_def codec_laws split: prod.splits)

text \<open>What two instances share when they contribute the same bytes: everything but the integrity
  hash and the spelling of the payload.\<close>

definition same_hashed_instance :: "ext \<Rightarrow> process_instance \<Rightarrow> process_instance \<Rightarrow> bool" where
  "same_hashed_instance x i j \<longleftrightarrow>
     x_json_parse x (pi_domain_payload i) = x_json_parse x (pi_domain_payload j) \<and>
     i\<lparr>pi_domain_payload := [], pi_integrity_hash := None\<rparr> =
     j\<lparr>pi_domain_payload := [], pi_integrity_hash := None\<rparr>"

lemma session_prefix:
  assumes "number_views x" and "session_ok a" and "session_ok b"
    and "encode_session_stack x a = Inr p" and "encode_session_stack x b = Inr q"
    and "p @ r = q @ s"
  shows "a = b \<and> r = s"
proof -
  from assms(4,5) obtain u v where
    enc: "encode_json_items x (ss_workspace_stack a) = Inr u"
      "encode_json_items x (ss_workspace_stack b) = Inr v"
    and len: "length (ss_workspace_stack a) < 2 ^ 32" "length (ss_workspace_stack b) < 2 ^ 32"
    and pq: "p = encode_uuid (ss_session_id a) @ write_option encode_scope (ss_scope a)
          @ write_option encode_workspace_kind (ss_active_workspace a)
          @ write_u32 (of_nat (length (ss_workspace_stack a))) @ u @ write_u64 (ss_trace_sequence a)"
      "q = encode_uuid (ss_session_id b) @ write_option encode_scope (ss_scope b)
          @ write_option encode_workspace_kind (ss_active_workspace b)
          @ write_u32 (of_nat (length (ss_workspace_stack b))) @ v @ write_u64 (ss_trace_sequence b)"
    by (auto simp: encode_session_stack_def res_simps checked_len_Inr)
  from assms(6) assms(2,3) len have
    fields: "ss_session_id a = ss_session_id b" "ss_scope a = ss_scope b"
      "ss_active_workspace a = ss_active_workspace b"
      "length (ss_workspace_stack a) = length (ss_workspace_stack b)"
    and eq: "u @ write_u64 (ss_trace_sequence a) @ r = v @ write_u64 (ss_trace_sequence b) @ s"
    by (simp_all add: pq session_ok_def codec_prefix scope_c.option_prefix_iff
        kind_of_workspace_c.option_prefix_iff of_nat_len_eq)
  from json_prefix(2) [OF assms(1) enc fields(4) eq] fields show ?thesis
    by (simp add: codec_prefix)
qed

lemma placeholders_prefix:
  assumes "number_views x" and "encode_placeholders x a = Inr p" and "encode_placeholders x b = Inr q"
    and "p @ r = q @ s"
  shows "a = b \<and> r = s"
proof (cases "a = None \<or> b = None")
  case True
  with assms(2-4) show ?thesis
    by (cases a; cases b) (auto simp: encode_placeholders_def res_simps)
next
  case False
  then obtain v w where vw: "a = Some v" "b = Some w" by (cases a; cases b) auto
  with assms(2-4) obtain p' q' where enc: "encode_canonical_json x v = Inr p'"
      "encode_canonical_json x w = Inr q'" and eq: "p' @ r = q' @ s"
    by (auto simp: encode_placeholders_def res_simps)
  from json_prefix(1) [OF assms(1) enc eq] vw show ?thesis by simp
qed

lemma bt_entries_eq: "bt_entries m = bt_entries m' \<longleftrightarrow> m = m'"
  by (simp add: bt_entries_inject)

lemma counters_prefix:
  "bt_len m < 2 ^ 32 \<Longrightarrow> bt_len m' < 2 ^ 32 \<Longrightarrow>
     write_seq encode_counter_entry (bt_entries m) @ r = write_seq encode_counter_entry (bt_entries m') @ s
       \<longleftrightarrow> m = m' \<and> r = s"
  by (simp add: counter_c.seq_prefix_iff bt_len_def bt_entries_eq)

lemma instance_prefix:
  assumes views: "number_views x" and ok: "instance_ok i" "instance_ok j"
    and enc: "instance_hash_bytes x i = Inr p" "instance_hash_bytes x j = Inr q"
    and eq: "p @ r = q @ s"
  shows "same_hashed_instance x i j \<and> r = s"
proof -
  note iok = ok(1) [unfolded instance_ok_def] and jok = ok(2) [unfolded instance_ok_def]
  define tl where "tl k ph = write_seq encode_flag_entry (bt_entries (pi_flags k))
          @ write_seq encode_counter_entry (bt_entries (pi_counters k))
          @ write_seq encode_join_entry (bt_entries (pi_join_expected k))
          @ encode_process_state (pi_state k) @ write_str (pi_correlation_id k)
          @ encode_uuid (pi_entry_id k) @ encode_uuid (pi_runbook_id k) @ write_u64 (pi_created_at k)
          @ write_option write_str (pi_quarantine_state k)
          @ write_option write_bytes_fixed (pi_plan_hash k)
          @ write_option write_str (pi_current_node_id k) @ ph" for k :: process_instance and ph
  define hd where "hd k = encode_uuid (pi_instance_id k) @ write_str (pi_tenant_id k)
      @ write_str (pi_process_key k) @ write_bytes_fixed (pi_bytecode_version k)" for k :: process_instance
  have shape: "\<exists>v b sb ph. x_json_parse x (pi_domain_payload k) = Inr v \<and> encode_canonical_json x v = Inr b
      \<and> encode_session_stack x (pi_session_stack k) = Inr sb
      \<and> encode_placeholders x (pi_placeholder_values k) = Inr ph
      \<and> u = hd k @ b @ write_bytes_fixed (pi_domain_payload_hash k) @ sb @ tl k ph"
    if "instance_hash_bytes x k = Inr u" for k u
    using that by (auto simp: instance_hash_bytes_def res_simps hd_def tl_def)
  obtain v b sb ph where I: "x_json_parse x (pi_domain_payload i) = Inr v"
      "encode_canonical_json x v = Inr b" "encode_session_stack x (pi_session_stack i) = Inr sb"
      "encode_placeholders x (pi_placeholder_values i) = Inr ph"
    and p: "p = hd i @ b @ write_bytes_fixed (pi_domain_payload_hash i) @ sb @ tl i ph"
    using shape [OF enc(1)] by blast
  obtain v' b' sb' ph' where J: "x_json_parse x (pi_domain_payload j) = Inr v'"
      "encode_canonical_json x v' = Inr b'" "encode_session_stack x (pi_session_stack j) = Inr sb'"
      "encode_placeholders x (pi_placeholder_values j) = Inr ph'"
    and q: "q = hd j @ b' @ write_bytes_fixed (pi_domain_payload_hash j) @ sb' @ tl j ph'"
    using shape [OF enc(2)] by blast
  from eq iok jok have A: "pi_instance_id i = pi_instance_id j" "pi_tenant_id i = pi_tenant_id j"
      "pi_process_key i = pi_process_key j" "pi_bytecode_version i = pi_bytecode_version j"
    and e1: "b @ (write_bytes_fixed (pi_domain_payload_hash i) @ sb @ tl i ph @ r) =
      b' @ (write_bytes_fixed (pi_domain_payload_hash j) @ sb' @ tl j ph' @ s)"
    by (simp_all add: p q hd_def str_c.prefix_iff codec_prefix hash_c.prefix_iff)
  from json_prefix(1) [OF views I(2) J(2) e1]
  have B: "v = v'" and e2: "write_bytes_fixed (pi_domain_payload_hash i) @ (sb @ tl i ph @ r) =
      write_bytes_fixed (pi_domain_payload_hash j) @ (sb' @ tl j ph' @ s)" by simp_all
  from e2 iok jok have C: "pi_domain_payload_hash i = pi_domain_payload_hash j"
    and e3: "sb @ (tl i ph @ r) = sb' @ (tl j ph' @ s)"
    by (simp_all add: hash_c.prefix_iff)
  have D: "pi_session_stack i = pi_session_stack j" and e4: "tl i ph @ r = tl j ph' @ s"
    using session_prefix [OF views _ _ I(3) J(3) e3] iok jok by simp_all
  from e4 iok jok have E: "pi_flags i = pi_flags j" "pi_counters i = pi_counters j"
      "pi_join_expected i = pi_join_expected j" "pi_state i = pi_state j"
      "pi_correlation_id i = pi_correlation_id j" "pi_entry_id i = pi_entry_id j"
      "pi_runbook_id i = pi_runbook_id j" "pi_created_at i = pi_created_at j"
      "pi_quarantine_state i = pi_quarantine_state j" "pi_plan_hash i = pi_plan_hash j"
      "pi_current_node_id i = pi_current_node_id j" and e5: "ph @ r = ph' @ s"
    by (simp_all add: tl_def flags_c.prefix_iff [unfolded encode_flags_def] counters_prefix
        joins_c.prefix_iff [unfolded encode_joins_def] pstate_c.prefix_iff codec_prefix
        str_c.prefix_iff str_c.option_prefix_iff hash_c.option_prefix_iff)
  from placeholders_prefix [OF views I(4) J(4) e5] A B C D E I(1) J(1) show ?thesis
    by (simp add: same_hashed_instance_def)
qed

section \<open>Snapshots\<close>

datatype persistence_error =
    UnsupportedVersion string u16
  | Serialization string

text \<open>\<open>Display\<close> of \<open>CanonicalJsonError\<close>.\<close>

fun json_error_text :: "canonical_json_error \<Rightarrow> string" where
  "json_error_text NonFiniteFloat =
     ''canonical encoding rejects a non-finite float (NaN or Infinity) in a JSON payload''"
| "json_error_text (InvalidJson e) = ''canonical encoding: payload is not valid JSON: '' @ e"
| "json_error_text (LengthOverflow kind len) =
     ''canonical encoding: '' @ kind @ '' length '' @ dec_nat len @ '' exceeds u32::MAX''"

definition state_hash_bytes ::
  "ext \<Rightarrow> persisted_snapshot_state \<Rightarrow> persistence_error + bytes" where
  "state_hash_bytes x p =
     try_res (map_err (\<lambda>e. Serialization (json_error_text e)) (instance_hash_bytes x (ps_instance p)))
       (\<lambda>instance_bytes.
     Inr (write_bytes instance_bytes
          @ write_seq encode_join_entry (bt_entries (ps_join_counts p))
          @ write_seq (\<lambda>(incident_id, i). encode_uuid incident_id @ encode_incident i)
              (bt_entries (ps_incidents p))
          @ write_seq (\<lambda>(fiber_id, f). encode_uuid fiber_id @ encode_fiber f)
              (bt_entries (ps_fibers p))))"

text \<open>The bytes fed to the hasher, and \<open>SnapshotEnvelope::state_hash\<close>.\<close>

definition hash_input :: "ext \<Rightarrow> snapshot_envelope \<Rightarrow> persistence_error + bytes" where
  "hash_input x e =
     try_res (state_hash_bytes x (se_state e)) (\<lambda>bs.
     Inr (bs @ encode_table (ps_concurrency_table (se_state e))
          @ encode_effects (ps_pending_effects (se_state e))
          @ write_u64 (se_revision e) @ se_artifact_hash e))"

definition state_hash :: "ext \<Rightarrow> snapshot_envelope \<Rightarrow> persistence_error + hash32" where
  "state_hash x e = try_res (hash_input x e) (\<lambda>bs. Inr (x_blake3 x bs))"

text \<open>The states the format can carry: every length fits its \<open>u32\<close> prefix.\<close>

definition persisted_ok :: "ext \<Rightarrow> persisted_snapshot_state \<Rightarrow> bool" where
  "persisted_ok x p \<longleftrightarrow>
     instance_ok (ps_instance p)
     \<and> (case instance_hash_bytes x (ps_instance p) of Inl _ \<Rightarrow> True | Inr bs \<Rightarrow> length bs < 2 ^ 32)
     \<and> bt_len (ps_join_counts p) < 2 ^ 32
     \<and> list_all incident_ok (bt_values (ps_incidents p)) \<and> bt_len (ps_incidents p) < 2 ^ 32
     \<and> list_all fiber_ok (bt_values (ps_fibers p)) \<and> bt_len (ps_fibers p) < 2 ^ 32
     \<and> table_ok (ps_concurrency_table p)
     \<and> length (bs_list (ps_pending_effects p)) < 2 ^ 32"

definition same_hashed_state ::
  "ext \<Rightarrow> persisted_snapshot_state \<Rightarrow> persisted_snapshot_state \<Rightarrow> bool" where
  "same_hashed_state x p q \<longleftrightarrow>
     same_hashed_instance x (ps_instance p) (ps_instance q)
     \<and> ps_fibers p = ps_fibers q \<and> ps_join_counts p = ps_join_counts q
     \<and> ps_incidents p = ps_incidents q \<and> ps_concurrency_table p = ps_concurrency_table q
     \<and> ps_pending_effects p = ps_pending_effects q"

context codec
begin

lemma keyed:
  "d = 0 \<Longrightarrow> codec 0 (\<lambda>(k, v). encode_uuid k @ enc v)
     (\<lambda>r. try_res (decode_uuid r) (\<lambda>(k, r). try_res (dec r) (\<lambda>(v, r). Inr ((k, v), r))))
     (\<lambda>(k, v). ok v)"
proof (unfold_locales, goal_cases)
  case (1 v pre rest)
  then show ?case
    using dec_enc [of "snd v"] by (auto simp: codec_laws split: prod.splits)
qed

lemma keyed_map_prefix:
  assumes "d = 0" and "list_all ok (bt_values m)" "bt_len m < 2 ^ 32"
    and "list_all ok (bt_values m')" "bt_len m' < 2 ^ 32"
  shows "write_seq (\<lambda>(k, v). encode_uuid k @ enc v) (bt_entries m) @ r =
      write_seq (\<lambda>(k, v). encode_uuid k @ enc v) (bt_entries m') @ s \<longleftrightarrow> m = m' \<and> r = s"
proof -
  have "list_all (\<lambda>(k, v). ok v) (bt_entries m)" "list_all (\<lambda>(k, v). ok v) (bt_entries m')"
    using assms(2,4) by (auto simp: list_all_iff bt_values_def)
  then show ?thesis
    using codec.seq_prefix_iff [OF keyed [OF assms(1)], of "bt_entries m" "bt_entries m'" r s] assms(3,5)
    by (simp add: bt_len_def bt_entries_eq)
qed

end

lemma state_prefix:
  assumes views: "number_views x" and ok: "persisted_ok x p" "persisted_ok x q"
    and enc: "state_hash_bytes x p = Inr a" "state_hash_bytes x q = Inr b" and eq: "a @ r = b @ s"
  shows "same_hashed_instance x (ps_instance p) (ps_instance q) \<and> ps_fibers p = ps_fibers q
    \<and> ps_join_counts p = ps_join_counts q \<and> ps_incidents p = ps_incidents q \<and> r = s"
proof -
  from enc obtain u v where
    uv: "instance_hash_bytes x (ps_instance p) = Inr u" "instance_hash_bytes x (ps_instance q) = Inr v"
    by (auto simp: state_hash_bytes_def res_simps)
  with ok have len: "length u < 2 ^ 32" "length v < 2 ^ 32"
    by (auto simp: persisted_ok_def)
  have a: "a = write_bytes u @ write_seq encode_join_entry (bt_entries (ps_join_counts p))
      @ write_seq (\<lambda>(incident_id, i). encode_uuid incident_id @ encode_incident i) (bt_entries (ps_incidents p))
      @ write_seq (\<lambda>(fiber_id, f). encode_uuid fiber_id @ encode_fiber f) (bt_entries (ps_fibers p))"
    and b: "b = write_bytes v @ write_seq encode_join_entry (bt_entries (ps_join_counts q))
      @ write_seq (\<lambda>(incident_id, i). encode_uuid incident_id @ encode_incident i) (bt_entries (ps_incidents q))
      @ write_seq (\<lambda>(fiber_id, f). encode_uuid fiber_id @ encode_fiber f) (bt_entries (ps_fibers q))"
    using enc uv by (simp_all add: state_hash_bytes_def)
  from eq len ok have "u = v" and rest: "ps_fibers p = ps_fibers q"
      "ps_join_counts p = ps_join_counts q" "ps_incidents p = ps_incidents q" "r = s"
    by (simp_all add: a b persisted_ok_def bytes_c.prefix_iff
        joins_c.prefix_iff [unfolded encode_joins_def] incident_c.keyed_map_prefix
        fiber_c.keyed_map_prefix)
  with instance_prefix [OF views _ _ uv, of "[]" "[]"] ok show ?thesis
    by (simp add: persisted_ok_def)
qed

lemma hash_input_determines:
  assumes views: "number_views x" and ok: "persisted_ok x (se_state e)" "persisted_ok x (se_state f)"
    and enc: "hash_input x e = Inr a" "hash_input x f = Inr a"
  shows "same_hashed_state x (se_state e) (se_state f) \<and> se_revision e = se_revision f
    \<and> se_artifact_hash e = se_artifact_hash f"
proof -
  from enc obtain u v where uv: "state_hash_bytes x (se_state e) = Inr u"
      "state_hash_bytes x (se_state f) = Inr v"
    and eq: "u @ (encode_table (ps_concurrency_table (se_state e))
        @ encode_effects (ps_pending_effects (se_state e)) @ write_u64 (se_revision e) @ se_artifact_hash e)
      = v @ (encode_table (ps_concurrency_table (se_state f))
        @ encode_effects (ps_pending_effects (se_state f)) @ write_u64 (se_revision f) @ se_artifact_hash f)"
    by (auto simp: hash_input_def res_simps)
  from state_prefix [OF views ok uv eq] ok show ?thesis
    by (simp add: persisted_ok_def same_hashed_state_def table_c.prefix_iff effects_c.prefix_iff
        u64_c.prefix_iff)
qed

end
