(* ===== verification/Replay.thy ===== *)
theory Replay
  imports Kernel FrameLaws StateHash
begin

text \<open>
  Journal records (\<open>bpmn-lite-types/src/persistence.rs\<close>) and \<open>replay\<close>
  (\<open>bpmn-lite-kernel/src/lib.rs\<close>), which folds a journal tail onto a checkpoint and compares the
  Ring 2 hash after every record. The relation \<open>runs\<close> is the specification: a run of the kernel
  from an envelope to an envelope, one command per step, that a journal agrees with. \<open>replay_iff\<close>
  shows that \<open>replay\<close> accepts exactly the journals that agree with such a run, \<open>replay_unread\<close>
  that it does not read the prior state hash, the events and the effect ids of a record.
\<close>

section \<open>Journal records\<close>

record event_envelope =
  ee_schema_version :: u16
  ee_event :: runtime_event

definition event_envelope_new :: "runtime_event \<Rightarrow> event_envelope" where
  "event_envelope_new e = \<lparr>ee_schema_version = 1, ee_event = e\<rparr>"

record journal_record =
  jr_schema_version :: u16
  jr_command :: command_envelope
  jr_prior_revision :: i64
  jr_new_revision :: u64
  jr_artifact_hash :: hash32
  jr_prior_state_hash :: hash32
  jr_state_hash :: hash32
  jr_event_envelopes :: "event_envelope list"
  jr_effect_ids :: "effect_id list"

definition journal_record_new ::
  "command_envelope \<Rightarrow> i64 \<Rightarrow> u64 \<Rightarrow> hash32 \<Rightarrow> hash32 \<Rightarrow> hash32 \<Rightarrow> runtime_event list
     \<Rightarrow> durable_effect list \<Rightarrow> journal_record" where
  "journal_record_new c prior new artifact prior_state state events effects =
     \<lparr>jr_schema_version = 1, jr_command = c, jr_prior_revision = prior, jr_new_revision = new,
      jr_artifact_hash = artifact, jr_prior_state_hash = prior_state, jr_state_hash = state,
      jr_event_envelopes = map event_envelope_new events,
      jr_effect_ids = map durable_effect_id effects\<rparr>"

section \<open>Replay\<close>

datatype replay_error =
    RP_ArtifactMismatch
  | RP_ArtifactAbiMismatch u32 u32      \<comment> \<open>expected, actual\<close>
  | RP_RevisionChain i64 i64            \<comment> \<open>expected, actual\<close>
  | RP_NonReplayableCommand string
  | RP_Transition transition_error
  | RP_Envelope string
  | RP_StateDivergence u64

text \<open>\<open>Display\<close> of \<open>PersistenceEnvelopeError\<close> and of the standard library's \<open>TryFromIntError\<close>.\<close>

fun persistence_error_text :: "persistence_error \<Rightarrow> string" where
  "persistence_error_text (UnsupportedVersion envelope version) =
     ''unsupported '' @ envelope @ '' envelope version '' @ dec_u version"
| "persistence_error_text (Serialization e) = ''persistence envelope serialization failed: '' @ e"

definition try_from_int_error :: string where
  "try_from_int_error = ''out of range integral type conversion attempted''"

definition replay_record ::
  "ext \<Rightarrow> executable_workflow \<Rightarrow> journal_record \<Rightarrow> snapshot_envelope
     \<Rightarrow> replay_error + snapshot_envelope" where
  "replay_record x w rc current =
     (if jr_artifact_hash rc \<noteq> wf_hash w then Inl RP_ArtifactMismatch
      else
        try_res (ok_or (i64_try_from (se_revision current)) (RP_Envelope try_from_int_error)) (\<lambda>expected_prior.
        if jr_prior_revision rc \<noteq> expected_prior
             \<or> jr_new_revision rc \<noteq> sat_add (se_revision current) 1
          then Inl (RP_RevisionChain expected_prior (jr_prior_revision rc))
        else case ce_command (jr_command rc) of
          JC_Kernel cmd \<Rightarrow>
            try_res (ok_or (u64_try_from (ce_logical_time (jr_command rc)))
                       (RP_Envelope try_from_int_error)) (\<lambda>logical_time.
            (let cx = \<lparr>cx_logical_time = logical_time, cx_command_id = ce_command_id (jr_command rc),
                       cx_next_revision = jr_new_revision rc\<rparr>;
                 s = to_runtime_snapshot (se_state current)
             in try_res (map_err RP_Transition (apply_command x w s cmd cx)) (\<lambda>t.
                (let nxt = materialize_snapshot (se_state current) t
                             (ae_abi_version (wf_envelope w)) (jr_new_revision rc)
                 in try_res (map_err (\<lambda>e. RP_Envelope (persistence_error_text e)) (state_hash x nxt)) (\<lambda>h.
                    if h \<noteq> jr_state_hash rc then Inl (RP_StateDivergence (jr_new_revision rc))
                    else Inr nxt)))))
        | other \<Rightarrow> Inl (RP_NonReplayableCommand (command_type other))))"

definition replay ::
  "ext \<Rightarrow> executable_workflow \<Rightarrow> snapshot_envelope \<Rightarrow> journal_record list
     \<Rightarrow> replay_error + snapshot_envelope" where
  "replay x w checkpoint journal_tail =
     (if pi_bytecode_version (ps_instance (se_state checkpoint)) \<noteq> wf_hash w then Inl RP_ArtifactMismatch
      else if se_artifact_abi checkpoint \<noteq> ae_abi_version (wf_envelope w)
        then Inl (RP_ArtifactAbiMismatch (ae_abi_version (wf_envelope w)) (se_artifact_abi checkpoint))
      else fold_res (replay_record x w) journal_tail checkpoint)"

section \<open>Runs of the kernel\<close>

text \<open>
  One step of a run: the kernel accepts the command on the runtime snapshot of the envelope, and
  the transition is folded into the next envelope. \<open>recorded\<close> says that a record agrees with the step in
  every field that \<open>replay\<close> reads; it leaves the prior state hash, the events, the effect ids and the
  schema version of the record free.
\<close>

inductive kernel_step ::
  "ext \<Rightarrow> executable_workflow \<Rightarrow> snapshot_envelope \<Rightarrow> command \<Rightarrow> deterministic_context
     \<Rightarrow> snapshot_envelope \<Rightarrow> bool"
  for x w where
  step: "apply_command x w (to_runtime_snapshot (se_state e)) cmd cx = Inr t \<Longrightarrow>
     unat (se_revision e) < 2 ^ 63 \<Longrightarrow> cx_next_revision cx = se_revision e + 1 \<Longrightarrow>
     kernel_step x w e cmd cx
       (materialize_snapshot (se_state e) t (ae_abi_version (wf_envelope w)) (se_revision e + 1))"

definition recorded ::
  "ext \<Rightarrow> executable_workflow \<Rightarrow> snapshot_envelope \<Rightarrow> command \<Rightarrow> deterministic_context
     \<Rightarrow> snapshot_envelope \<Rightarrow> journal_record \<Rightarrow> bool" where
  "recorded x w e cmd cx e' rc \<longleftrightarrow>
     jr_artifact_hash rc = wf_hash w \<and> jr_prior_revision rc = se_revision e
     \<and> jr_new_revision rc = se_revision e' \<and> ce_command (jr_command rc) = JC_Kernel cmd
     \<and> u64_try_from (ce_logical_time (jr_command rc)) = Some (cx_logical_time cx)
     \<and> ce_command_id (jr_command rc) = cx_command_id cx
     \<and> state_hash x e' = Inr (jr_state_hash rc)"

inductive runs ::
  "ext \<Rightarrow> executable_workflow \<Rightarrow> snapshot_envelope \<Rightarrow> journal_record list \<Rightarrow> snapshot_envelope \<Rightarrow> bool"
  for x w where
  none: "runs x w e [] e"
| more: "kernel_step x w e cmd cx e' \<Longrightarrow> recorded x w e cmd cx e' rc \<Longrightarrow> runs x w e' rcs e'' \<Longrightarrow>
     runs x w e (rc # rcs) e''"

inductive_cases runs_nilE: "runs x w e [] e'"
inductive_cases runs_consE: "runs x w e (rc # rcs) e''"
inductive_simps kernel_step_iff: "kernel_step x w e cmd cx e'"

lemma sat_add_one: "unat (r :: u64) < 2 ^ 63 \<Longrightarrow> sat_add r 1 = r + 1"
  by (simp add: sat_add_def)

lemma replay_record_iff:
  "replay_record x w rc e = Inr e' \<longleftrightarrow>
     (\<exists>cmd cx. kernel_step x w e cmd cx e' \<and> recorded x w e cmd cx e' rc)"
proof
  assume "replay_record x w rc e = Inr e'"
  then obtain cmd time t where
    head: "jr_artifact_hash rc = wf_hash w" "unat (se_revision e) < 2 ^ 63"
      "jr_prior_revision rc = se_revision e" "jr_new_revision rc = sat_add (se_revision e) 1"
    and cmd: "ce_command (jr_command rc) = JC_Kernel cmd"
      "u64_try_from (ce_logical_time (jr_command rc)) = Some time"
    and t: "apply_command x w (to_runtime_snapshot (se_state e)) cmd
        \<lparr>cx_logical_time = time, cx_command_id = ce_command_id (jr_command rc),
         cx_next_revision = jr_new_revision rc\<rparr> = Inr t"
    and e': "e' = materialize_snapshot (se_state e) t (ae_abi_version (wf_envelope w)) (jr_new_revision rc)"
      "state_hash x e' = Inr (jr_state_hash rc)"
    by (auto simp: replay_record_def res_simps i64_try_from_def Let_def
        split: if_splits journal_command.splits)
  then show "\<exists>cmd cx. kernel_step x w e cmd cx e' \<and> recorded x w e cmd cx e' rc"
    by (intro exI [of _ cmd] exI [of _ "\<lparr>cx_logical_time = time,
          cx_command_id = ce_command_id (jr_command rc), cx_next_revision = jr_new_revision rc\<rparr>"])
      (auto simp: kernel_step_iff recorded_def sat_add_one materialize_header)
next
  assume "\<exists>cmd cx. kernel_step x w e cmd cx e' \<and> recorded x w e cmd cx e' rc"
  then obtain cmd cx where st: "kernel_step x w e cmd cx e'" and rc: "recorded x w e cmd cx e' rc"
    by blast
  obtain time i rev where
    "cx = \<lparr>cx_logical_time = time, cx_command_id = i, cx_next_revision = rev\<rparr>" by (cases cx)
  with st rc show "replay_record x w rc e = Inr e'"
    by (auto simp: kernel_step_iff recorded_def replay_record_def i64_try_from_def sat_add_one
        materialize_header Let_def)
qed

lemma runs_Cons: "runs x w e (rc # rcs) e'' \<longleftrightarrow>
    (\<exists>e'. replay_record x w rc e = Inr e' \<and> runs x w e' rcs e'')"
  by (auto simp: replay_record_iff elim!: runs_consE intro: runs.more)

lemma fold_replay_runs: "fold_res (replay_record x w) rcs e = Inr e' \<longleftrightarrow> runs x w e rcs e'"
proof (induction rcs arbitrary: e)
  case Nil
  then show ?case by (auto elim: runs_nilE intro: runs.none)
next
  case (Cons rc rcs)
  then show ?case by (auto simp: runs_Cons res_simps)
qed

lemma replay_iff:
  "replay x w c rcs = Inr e \<longleftrightarrow>
     pi_bytecode_version (ps_instance (se_state c)) = wf_hash w
     \<and> se_artifact_abi c = ae_abi_version (wf_envelope w) \<and> runs x w c rcs e"
  by (auto simp: replay_def fold_replay_runs)

lemma replay_unread:
  "replay x w c (map (\<lambda>rc. rc\<lparr>jr_prior_state_hash := prior rc, jr_event_envelopes := events rc,
     jr_effect_ids := effects rc\<rparr>) rcs) = replay x w c rcs"
proof -
  have "fold_res (replay_record x w) (map (\<lambda>rc. rc\<lparr>jr_prior_state_hash := prior rc,
      jr_event_envelopes := events rc, jr_effect_ids := effects rc\<rparr>) rcs) = fold_res (replay_record x w) rcs"
  proof (induction rcs)
    case (Cons rc rcs)
    let ?rc = "rc\<lparr>jr_prior_state_hash := prior rc, jr_event_envelopes := events rc, jr_effect_ids := effects rc\<rparr>"
    have read: "jr_artifact_hash ?rc = jr_artifact_hash rc" "jr_prior_revision ?rc = jr_prior_revision rc"
      "jr_new_revision ?rc = jr_new_revision rc" "jr_command ?rc = jr_command rc" "jr_state_hash ?rc = jr_state_hash rc"
      by simp_all
    have "replay_record x w ?rc e = replay_record x w rc e" for e
      unfolding replay_record_def read ..
    then show ?case using Cons.IH by (intro ext) simp
  qed (simp add: fun_eq_iff)
  then show ?thesis by (simp add: replay_def)
qed

section \<open>What an accepted journal shows\<close>

lemma step_revision:
  assumes "kernel_step x w e cmd cx e'"
  shows "unat (se_revision e') = Suc (unat (se_revision e))"
    and "se_artifact_abi e' = ae_abi_version (wf_envelope w)"
  using assms
  by (auto simp: kernel_step_iff materialize_header unat_word_ariths)

lemma runs_revision: "runs x w e rcs e' \<Longrightarrow> unat (se_revision e') = unat (se_revision e) + length rcs"
  by (induction rule: runs.induct) (auto dest: step_revision)

lemma runs_numbered:
  "runs x w e rcs e' \<Longrightarrow> i < length rcs \<Longrightarrow> unat (jr_new_revision (rcs ! i)) = unat (se_revision e) + Suc i"
proof (induction arbitrary: i rule: runs.induct)
  case (more e cmd cx e' rc rcs e'')
  then show ?case
    using step_revision [OF more(1)] by (cases i) (auto simp: recorded_def)
qed simp

lemma runs_last_hash:
  "runs x w e rcs e' \<Longrightarrow> rcs \<noteq> [] \<Longrightarrow> state_hash x e' = Inr (jr_state_hash (last rcs))"
proof (induction rule: runs.induct)
  case (more e cmd cx e' rc rcs e'')
  then show ?case
    by (cases "rcs = []") (auto simp: recorded_def elim: runs_nilE)
qed simp

lemma runs_append:
  "runs x w e (xs @ ys) e'' \<longleftrightarrow> (\<exists>e'. runs x w e xs e' \<and> runs x w e' ys e'')"
proof (induction xs arbitrary: e)
  case Nil
  then show ?case by (auto elim: runs_nilE intro: runs.none)
next
  case (Cons rc xs)
  then show ?case by (auto simp: runs_Cons)
qed

end
