(* ===== verification/Samples.thy ===== *)
theory Samples
  imports Kernel Replay
begin

text \<open>
  Concrete instances of the parameters of the model: a stand-in for the third-party functions (the
  hash is the reversed tail of its input, so that it depends on the last bytes hashed; the JSON
  parser knows the empty object), limits, a workflow per program, a running instance, and a
  context. The witnesses of the properties are evaluated on them.
\<close>

instantiation btree :: (linorder, equal) equal
begin

definition equal_btree :: "('a, 'b) btree \<Rightarrow> ('a, 'b) btree \<Rightarrow> bool" where
  "equal_btree m m' \<longleftrightarrow> bt_entries m = bt_entries m'"

instance by standard (simp add: equal_btree_def bt_entries_inject)

end

definition x0 :: ext where
  "x0 = \<lparr>x_blake3 = (\<lambda>bs. take 32 (List.rev bs @ replicate 32 CHR 0x00)),
     x_uuid_string = (\<lambda>u. dec_u u),
     x_json_parse = (\<lambda>bs. if bs = ''{}'' then Inr (J_Object []) else Inl ''syntax error''),
     x_json_print = (\<lambda>v. if v = J_Object [] then Inr ''{}'' else Inl ''unprintable''),
     x_num_of_i64 = (\<lambda>i. JNum (dec_i64 i)),
     x_num_of_u32 = (\<lambda>i. JNum (dec_u i)),
     x_num_of_f64 = (\<lambda>f. None),
     x_num_as_i64 = (\<lambda>n. None),
     x_num_as_u64 = (\<lambda>n. None),
     x_num_as_f64 = (\<lambda>n. None),
     x_session_print = (\<lambda>st. ''session''),
     x_session_parse = (\<lambda>s. None)\<rparr>"

definition limits0 :: verified_limits where
  "limits0 = \<lparr>max_stack = 8, max_fibers = 8, max_steps = 100, max_control_depth = 8,
     max_barriers = 8, max_records = 8\<rparr>"

definition metadata0 :: artifact_metadata where
  "metadata0 = \<lparr>md_debug_map = bt_empty, md_join_plan = bt_empty, md_wait_plan = bt_empty,
     md_message_name_map = bt_empty, md_write_set = bt_empty, md_task_manifest = [''task''],
     md_flag_symbol_table = bt_empty, md_data_objects = bt_empty, md_ffi_task_decls = bt_empty,
     md_v2_ffi_task_decls = bt_empty, md_v2_corr_sources = bt_empty, md_v2_guard_budgets = bt_empty,
     md_default_guard_budget = \<lparr>sb_version = 1, sb_max_failures = 3\<rparr>,
     md_default_retry_policy = \<lparr>rp_version = 1, rp_max_attempts = 3, rp_base_delay_ms = 100,
       rp_max_delay_ms = 1000\<rparr>\<rparr>"

definition hash0 :: hash32 where
  "hash0 = replicate 32 CHR 0x07"

definition workflow0 :: "instr list \<Rightarrow> executable_workflow" where
  "workflow0 program = \<lparr>wf_envelope = \<lparr>ae_abi_version = 1, ae_compiler_version = ''c'',
     ae_instructions = program, ae_metadata = metadata0, ae_limits = limits0\<rparr>, wf_hash = hash0\<rparr>"

definition instance0 :: process_instance where
  "instance0 = \<lparr>pi_instance_id = 1, pi_tenant_id = ''t'', pi_process_key = ''p'',
     pi_bytecode_version = hash0, pi_domain_payload = ''{}'', pi_domain_payload_hash = hash0,
     pi_session_stack = \<lparr>ss_session_id = 2, ss_scope = None, ss_active_workspace = None,
       ss_workspace_stack = [], ss_trace_sequence = 0\<rparr>,
     pi_flags = bt_empty, pi_counters = bt_empty, pi_join_expected = bt_empty, pi_state = PS_Running,
     pi_correlation_id = ''c'', pi_entry_id = 3, pi_runbook_id = 4, pi_created_at = 0,
     pi_integrity_hash = None, pi_quarantine_state = None, pi_plan_hash = None,
     pi_current_node_id = None, pi_placeholder_values = None\<rparr>"

definition snapshot0 :: "fiber list \<Rightarrow> concurrency_table \<Rightarrow> snapshot" where
  "snapshot0 fs table = \<lparr>sn_instance = instance0, sn_fibers = key_fibers fs, sn_join_counts = bt_empty,
     sn_dedupe = bt_empty, sn_buffered_messages = [], sn_incidents = bt_empty,
     sn_concurrency_table = table, sn_pending_effects = bt_empty\<rparr>"

definition cx0 :: deterministic_context where
  "cx0 = \<lparr>cx_logical_time = 5, cx_command_id = 9, cx_next_revision = 1\<rparr>"

section \<open>Evaluation\<close>

text \<open>A timer wait, and a fiber inside an interrupting guard whose handler is at address 1.\<close>

definition fiber7 :: fiber where
  "fiber7 = fiber_new 7 0"

definition prog_wait :: "instr list" where
  "prog_wait = [I_PushI64 10, I_V2WaitFor, I_End]"

definition guarded7 :: fiber where
  "guarded7 = fiber7\<lparr>fb_control_stack := [20]\<rparr>"

definition guard20 :: concurrency_record where
  "guard20 = (guard_record True 20 1 0)\<lparr>rec_members := bs_insert 7 (bs_of_list [])\<rparr>"

definition guarded_snapshot :: snapshot where
  "guarded_snapshot = snapshot0 [guarded7] (ct_insert guard20 bt_empty)"

definition persisted0 :: "fiber list \<Rightarrow> concurrency_table \<Rightarrow> persisted_snapshot_state" where
  "persisted0 fs table = \<lparr>ps_instance = instance0, ps_fibers = key_fibers fs, ps_join_counts = bt_empty,
     ps_incidents = bt_empty, ps_concurrency_table = table, ps_pending_effects = bs_of_list []\<rparr>"

definition incident30 :: incident where
  "incident30 = \<lparr>inc_incident_id = 30, inc_process_instance_id = 1, inc_fiber_id = 7,
     inc_service_task_id = ''pc_0'', inc_bytecode_addr = 0, inc_error_class = ContractViolation,
     inc_message = ''m'', inc_retry_count = 0, inc_created_at = 1, inc_resolved_at = None,
     inc_resolution = None\<rparr>"

definition incidented :: persisted_snapshot_state where
  "incidented = (persisted0 [fiber7\<lparr>fb_wait := W_Incident 30\<rparr>] bt_empty)
     \<lparr>ps_incidents := bt_insert 30 incident30 bt_empty,
      ps_instance := instance0\<lparr>pi_state := PS_Incidented 30\<rparr>\<rparr>"

definition completion0 :: job_completion where
  "completion0 = \<lparr>jc_job_key = ''k'', jc_domain_payload = ''done'',
     jc_expected_instance_payload_hash = content_hash x0 ''{}'', jc_orch_flags = bt_empty,
     jc_worker_id = None, jc_claim_token = None\<rparr>"

definition racing7 :: fiber where
  "racing7 = fiber7\<lparr>fb_wait := W_V2Race 20 [Arm_Timer 1, Arm_Timer 2]\<rparr>"

definition race_timer :: "effect_id \<Rightarrow> u32 \<Rightarrow> claimed_timer" where
  "race_timer i target = \<lparr>tm_tenant_id = ''t'', tm_timer_id = i, tm_instance_id = 1, tm_fiber_id = 7,
     tm_due_at = 10, tm_kind = TK_V2Race 20 target, tm_repeat_spec = None, tm_claim_token = 50\<rparr>"

definition repeating_timer :: "u32 \<Rightarrow> claimed_timer" where
  "repeating_timer n = (race_timer 40 0)\<lparr>tm_kind := TK_V2GuardTimer 20,
     tm_repeat_spec := Some \<lparr>rs_interval_ms = 5, rs_remaining = n, rs_fired_count = 0\<rparr>\<rparr>"

definition barrier20 :: "u32 \<Rightarrow> concurrency_record" where
  "barrier20 n = (record_new 20 RK_Barrier)
     \<lparr>rec_counters := \<lparr>ct_arity = n, ct_count = n\<rparr>, rec_members := bs_of_list [7, 8]\<rparr>"

definition envelope0 :: "persisted_snapshot_state \<Rightarrow> snapshot_envelope" where
  "envelope0 p = snapshot_envelope_new 1 hash0 0 p"

definition record0 :: "command \<Rightarrow> hash32 \<Rightarrow> journal_record" where
  "record0 cmd h = journal_record_new (command_envelope_new 9 5 (JC_Kernel cmd)) 0 1 hash0 hash0 h [] []"

lemma tick_loop_numeral:
  "tick_loop (numeral k) x w s cx ts =
     try_res (tick_step x w s cx ts) (\<lambda>r.
       case r of Done t \<Rightarrow> Inr t | Next ts' \<Rightarrow> tick_loop (pred_numeral k) x w s cx ts')"
  by (simp add: numeral_eq_Suc)

named_theorems sample_eval \<open>definitions unfolded to evaluate a command on a sample\<close>

lemmas [sample_eval] =
  snapshot0_def persisted0_def instance0_def workflow0_def limits0_def metadata0_def cx0_def
  fiber7_def prog_wait_def guarded7_def guard20_def guarded_snapshot_def incident30_def incidented_def
  completion0_def racing7_def race_timer_def repeating_timer_def barrier20_def
  key_fibers_def fiber_new_def record_new_def guard_record_def
  bt_of_list_def bt_get_insert bt_len_def bt_values_def bt_keys_def bt_is_empty_def bt_entries_simps
  vec_get_def vec_pop_def vec_last_def sat_add_def checked_add_def i64_try_from_def max0_u64_def
  logical_timestamp_def Let_def push_defs upd_changes_def
  apply_command_def validate_snapshot_limits_def validate_fiber_limits_def check_arrays_for_def
  ring3_shadow_check_def derive_post_transition_frame_def apply_fiber_deltas_def
  check_k_invariants_def k_check_record_def k_check_fiber_def k_check_membership_def
  ring3_check_fiber_def ring3_check_barrier_def claim_fiber_effects_def claim_effect_def
  referenced_effects_def effective_control_stack_def
  apply_tick_def select_fiber_def tick_start_def tick_loop_numeral tick_step_def
  advance_def park_def push_value_def pop_value_def bump_pc_def exec_wait_for_def park_on_timer_def

end
