(* ===== verification/KernelTheorems.thy ===== *)
theory KernelTheorems
  imports CommandInvariants Samples
begin

text \<open>
  The properties of the transition kernel: what an accepted transition guarantees of the frame it
  leaves, that every handler keeps the frame invariant, the walk of a cancelled scope, the
  administrative commands, the step limit, and the behaviour of guards, joins and rollback.
\<close>

section \<open>The samples\<close>

lemma guarded_simps:
  "bt_entries (sn_fibers guarded_snapshot) = [(7, guarded7)]"
  "bt_entries (sn_concurrency_table guarded_snapshot) = [(20, guard20)]"
  "effective_control_stack guarded7 = [20]" "fb_id guarded7 = 7" "fb_stack guarded7 = []"
  "bs_set (rec_members guard20) = {7}" "rec_kind guard20 = RK_Guard True" "rec_state guard20 = Armed"
  "rec_id guard20 = 20" "rec_handler guard20 = Some 1"
  by (simp_all add: sample_eval ct_insert_def)

lemma guarded_get:
  "bt_get (sn_fibers guarded_snapshot) i = Some f \<longleftrightarrow> i = 7 \<and> f = guarded7"
  "ct_get (sn_concurrency_table guarded_snapshot) i = Some r \<longleftrightarrow> i = 20 \<and> r = guard20"
  by (auto simp: bt_get_def ct_get_def guarded_simps)

lemma guarded_frame: "frame_inv (sn_fibers guarded_snapshot) (sn_concurrency_table guarded_snapshot)"
  by (auto simp: frame_inv_def fibers_wf_def ct_wf_def stacks_coherent_def coherent_def bt_values_def
      member_rel_def holds_rel_def armed_at_def K3_def guarded_simps guarded_get)

lemma guarded_coherent: "stacks_coherent (sn_fibers guarded_snapshot)"
  using guarded_frame by (simp add: frame_inv_def)

lemma guarded_trigger:
  obtains t where "dispatch x0 w guarded_snapshot (Cmd_V2TriggerGuard 20) cx0 = Inr t"
proof -
  obtain R L where "cancel_scope guarded_snapshot 20 = Inr (R @ [20], L)"
    by (rule cancel_scope_exact [OF guarded_coherent])
  with that show thesis
    by (simp add: apply_v2_trigger_guard_def v2_trigger_guard_changes_def
        v2_trigger_guard_changes_with_target_def guarded_get [THEN iffD2] guarded_simps Let_def)
qed

lemma guarded_ready: "command_ready x0 w guarded_snapshot (Cmd_V2TriggerGuard 20) cx0"
proof -
  have "derived_id x0 cx0 0 \<noteq> 7" by code_simp
  then have "bt_get (sn_fibers guarded_snapshot) (derived_id x0 cx0 0) = None"
    using guarded_get(1) by (metis option.exhaust)
  then show ?thesis by (simp add: fresh_fiber_def bt_contains_def)
qed

section \<open>Accepted transitions\<close>

lemma frame_of_envelope:
  "derive_post_transition_frame s (with_command_envelope c t) = derive_post_transition_frame s t"
  "effective_state (with_command_envelope c t) = effective_state t"
  "tr_fibers_upsert (with_command_envelope c t) = tr_fibers_upsert t"
  by (simp_all add: derive_post_transition_frame_def effective_state_def with_command_envelope_def)

lemma apply_commandE:
  assumes "apply_command x w s cmd cx = Inr t"
  obtains t' c where "dispatch x w s cmd cx = Inr t'" and "t = with_command_envelope c t'"
    and "validate_snapshot_limits w s (check_arrays_for cmd) = Inr ()"
    and "ring3_shadow_check w s t' = Inr ()" and "unat (cx_logical_time cx) < 2 ^ 63"
    and "c = command_envelope_new (cx_command_id cx) (cx_logical_time cx) (JC_Kernel cmd)"
  using assms
  by (auto simp: apply_command_def res_simps i64_try_from_def split: if_splits)

lemma accepted_frame:
  assumes "fibers_wf (ps_fibers p)"
    and "apply_command x w (to_runtime_snapshot p) cmd cx = Inr t"
    and "e = materialize_snapshot p t abi revision"
  shows "frame_ok (ps_fibers (se_state e)) (ps_concurrency_table (se_state e)) (pi_state (ps_instance (se_state e)))
    \<and> upserts_in_bounds w (tr_fibers_upsert t)"
proof -
  from assms(2) obtain t' c where t: "t = with_command_envelope c t'"
    and ring3: "ring3_shadow_check w (to_runtime_snapshot p) t' = Inr ()"
    by (rule apply_commandE)
  from ring3 materialize_frame [OF assms(1), of t abi revision] show ?thesis
    by (simp add: ring3_iff t frame_of_envelope assms(3) materialize_state split: prod.splits)
qed

text \<open>
  C2. Whatever snapshot a command was applied to, a transition that \<open>apply\<close> returns leaves, once it
  is folded into the persisted state, a frame that satisfies K-1, K-2 and K-3, whose armed barriers
  can still be satisfied by live members, in which no effect is waited on by two fibers, and which
  has no fiber only when the instance is terminal; every fiber it wrote is inside the program and
  the verified stack limits.
\<close>

theorem accepted_transition_frame_ok:
  assumes "fibers_wf (ps_fibers p)"
    and "apply_command x w (to_runtime_snapshot p) cmd cx = Inr t"
    and "e = materialize_snapshot p t abi revision"
  shows "frame_ok (ps_fibers (se_state e)) (ps_concurrency_table (se_state e)) (pi_state (ps_instance (se_state e)))
    \<and> upserts_in_bounds w (tr_fibers_upsert t)"
  using assms by (rule accepted_frame)

theorem accepted_transition_frame_ok_witness:
  "\<exists>t. apply_command x0 (workflow0 prog_wait) (to_runtime_snapshot (persisted0 [fiber7] bt_empty))
        (Cmd_Tick (Some 7)) cx0 = Inr t
     \<and> upserts_in_bounds (workflow0 prog_wait) (tr_fibers_upsert t)"
proof -
  let ?p = "persisted0 [fiber7] bt_empty"
  obtain t where t: "apply_command x0 (workflow0 prog_wait) (to_runtime_snapshot ?p) (Cmd_Tick (Some 7)) cx0 = Inr t"
    by (simp add: sample_eval to_runtime_snapshot_def)
  moreover have "fibers_wf (ps_fibers ?p)"
    by (simp add: fibers_wf_def sample_eval)
  ultimately show ?thesis
    using accepted_transition_frame_ok [OF _ t refl] by blast
qed

text \<open>
  C3. Every handler keeps the frame invariant: on a snapshot whose maps are well keyed, whose
  control stacks are paths of one tree and whose K-invariants hold, the frame that the transition
  of any command leaves has the same properties, provided the command meets the conditions of the
  words and handlers it runs (fresh derived identities, a scope closed by its only member, a
  fiber that ends with an empty control stack).
\<close>

theorem dispatch_keeps_frame:
  assumes "frame_inv (sn_fibers s) (sn_concurrency_table s)"
    and "command_ready x w s cmd cx"
    and "dispatch x w s cmd cx = Inr t"
  shows "case derive_post_transition_frame s t of (fibers, table) \<Rightarrow> frame_inv fibers table"
  using dispatch_ok [OF assms] by (simp add: post_ok_def split: prod.splits)

theorem dispatch_keeps_frame_witness:
  "\<exists>t fibers table. dispatch x0 (workflow0 []) guarded_snapshot (Cmd_V2TriggerGuard 20) cx0 = Inr t
     \<and> derive_post_transition_frame guarded_snapshot t = (fibers, table) \<and> frame_inv fibers table"
proof (rule guarded_trigger)
  fix t assume t: "dispatch x0 (workflow0 []) guarded_snapshot (Cmd_V2TriggerGuard 20) cx0 = Inr t"
  from dispatch_keeps_frame [OF guarded_frame guarded_ready t] t show ?thesis
    by (auto split: prod.splits)
qed

lemma checks_never_K:
  "for_res (ring3_check_fiber w) fs \<noteq> Inl (R3_K violation)"
  "for_res (ring3_check_barrier fibers) rs \<noteq> Inl (R3_K violation)"
proof -
  have "ring3_check_fiber w f \<noteq> Inl (R3_K violation)" for f
    by (simp add: ring3_check_fiber_def)
  then show "for_res (ring3_check_fiber w) fs \<noteq> Inl (R3_K violation)"
    using for_res_err by metis
  have "ring3_check_barrier fibers r \<noteq> Inl (R3_K violation)" for r
    by (cases r) (simp add: ring3_check_barrier_def Let_def)
  then show "for_res (ring3_check_barrier fibers) rs \<noteq> Inl (R3_K violation)"
    using for_res_err by metis
qed

lemma owners_never_K: "fold_res claim_fiber_effects fs owners \<noteq> Inl (R3_K violation)"
proof (induction fs arbitrary: owners)
  case (Cons f fs)
  have "fold_res (claim_effect i) es owners' \<noteq> Inl (R3_K violation)" for i es owners'
  proof (induction es arbitrary: owners')
    case (Cons e es)
    then show ?case
      by (auto simp: claim_effect_def res_simps split: option.splits if_splits)
  qed simp
  with Cons show ?case by (auto simp: claim_fiber_effects_def res_simps)
qed simp

text \<open>
  C4. Under the same conditions the Ring 3 check never refuses the transition because of a
  K-invariant.
\<close>

theorem ready_command_never_breaks_K:
  assumes "frame_inv (sn_fibers s) (sn_concurrency_table s)"
    and "command_ready x w s cmd cx"
    and "dispatch x w s cmd cx = Inr t"
  shows "ring3_shadow_check w s t \<noteq> Inl (R3_K violation)"
proof -
  obtain fibers table where frame: "derive_post_transition_frame s t = (fibers, table)"
    by (cases "derive_post_transition_frame s t")
  with dispatch_ok [OF assms] have "check_k_invariants fibers table = Inr ()"
    by (simp add: post_ok_def frame_inv_K)
  then show ?thesis
    by (auto simp: ring3_shadow_check_def frame try_res_Inl checks_never_K owners_never_K
        Let_def split: if_splits)
qed

theorem ready_command_never_breaks_K_witness:
  "\<exists>t. dispatch x0 (workflow0 []) guarded_snapshot (Cmd_V2TriggerGuard 20) cx0 = Inr t
     \<and> ring3_shadow_check (workflow0 []) guarded_snapshot t \<noteq> Inl (R3_K (K1_DeadMember 20 7))"
proof (rule guarded_trigger)
  fix t assume t: "dispatch x0 (workflow0 []) guarded_snapshot (Cmd_V2TriggerGuard 20) cx0 = Inr t"
  from ready_command_never_breaks_K [OF guarded_frame guarded_ready t] t show ?thesis by blast
qed

text \<open>
  The two implementations of the fold agree: the fibers and the concurrency table of the
  snapshot that \<open>materialize_snapshot\<close> persists are those that the Ring 3 check was run on
  (\<open>derive_post_transition_frame\<close>).
\<close>

lemma persisted_frame_is_checked_frame:
  assumes "fibers_wf (ps_fibers p)" and "e = materialize_snapshot p t abi revision"
  shows "derive_post_transition_frame (to_runtime_snapshot p) t =
    (ps_fibers (se_state e), ps_concurrency_table (se_state e))"
  using materialize_frame [OF assms(1)] assms(2) by simp

section \<open>Cancelled scopes\<close>

text \<open>
  C5. On coherent control stacks the walk of a cancelled scope ends, and visits the scope exactly:
  the retire order lists every record at or above the handle on some fiber's stack once, with the
  handle itself last, and the cancelled fibers are the fibers whose stack holds the handle.
\<close>

theorem scope_walk_exact:
  assumes "stacks_coherent (sn_fibers s)"
  shows "\<exists>R L. cancel_scope s h = Inr (R @ [h], L) \<and> distinct (R @ [h])
    \<and> set (R @ [h]) = scope_records s h \<and> set L = scope_fibers s h"
  by (rule cancel_scope_exact [OF assms, of h]) (intro exI conjI)

theorem scope_walk_exact_witness:
  "\<exists>R L. cancel_scope guarded_snapshot 20 = Inr (R @ [20], L) \<and> distinct (R @ [20])
     \<and> set (R @ [20]) = scope_records guarded_snapshot 20 \<and> set L = scope_fibers guarded_snapshot 20"
  by (rule scope_walk_exact [OF guarded_coherent])

lemma fold_opt_mono:
  assumes "\<And>c acc r. f c acc = Some r \<Longrightarrow> g c acc = Some r"
  shows "fold_opt f cs acc = Some r \<Longrightarrow> fold_opt g cs acc = Some r"
proof (induction cs arbitrary: acc)
  case (Cons c cs)
  then obtain a where "f c acc = Some a" "fold_opt f cs a = Some r"
    by (auto simp: bind_eq_Some_conv)
  with Cons.IH assms show ?case by simp
qed simp

lemma walk_more_fuel:
  "v2_cancel_guard_scope n s h acc = Some r \<Longrightarrow> n \<le> m \<Longrightarrow> v2_cancel_guard_scope m s h acc = Some r"
proof (induction n arbitrary: m h acc r)
  case (Suc n)
  then obtain k where m: "m = Suc k" "n \<le> k" by (cases m) auto
  from Suc.prems(1) obtain a where
    "fold_opt (v2_cancel_guard_scope n s) (scope_children s h) acc = Some a"
    "(case a of (R, L) \<Rightarrow> Some (R @ [h], L @ scope_direct_leaves s h)) = Some r"
    by (auto simp: bind_eq_Some_conv)
  moreover have "fold_opt (v2_cancel_guard_scope k s) (scope_children s h) acc = Some a"
    by (rule fold_opt_mono [OF _ calculation(1)]) (rule Suc.IH [OF _ m(2)])
  ultimately show ?case by (simp add: m(1))
qed simp

text \<open>
  C6. The recursion of the walk is bounded by the handles on the control stacks: with any fuel from
  \<open>scope_fuel\<close> on the walk ends, and its result does not depend on the fuel.
\<close>

theorem scope_walk_terminates:
  assumes "stacks_coherent (sn_fibers s)" and "scope_fuel s \<le> fuel"
  shows "\<exists>r. v2_cancel_guard_scope fuel s h ([], []) = Some r \<and> cancel_scope s h = Inr r"
proof -
  from walk_exact [OF assms(1) scope_fuel_enough, of h]
  obtain r where "v2_cancel_guard_scope (scope_fuel s) s h ([], []) = Some r" by blast
  with walk_more_fuel [OF _ assms(2)] show ?thesis
    by (simp add: cancel_scope_def ok_or_def)
qed

theorem scope_walk_terminates_witness:
  "\<exists>r. v2_cancel_guard_scope (scope_fuel guarded_snapshot + 5) guarded_snapshot 20 ([], []) = Some r
     \<and> cancel_scope guarded_snapshot 20 = Inr r"
  by (rule scope_walk_terminates [OF guarded_coherent]) simp

section \<open>Administrative commands\<close>

text \<open>The frame of a full cleanup that retires every armed record.\<close>

lemma retired_frame:
  assumes "tc_delete_all_fibers (tr_terminal_cleanup t)" and "tr_concurrency_mutations t = []"
    and "derive_post_transition_frame s (retire_all_armed_records s t) = (fibers, table)"
  shows "fibers = bt_empty" and "\<not> armed_at table i r"
proof -
  let ?ids = "armed_record_ids_in_transition s changes_default"
  have "table = fold_mutations (map CM_Retire ?ids) (sn_concurrency_table s)"
    and "fibers = bt_empty"
    using assms by (simp_all add: retire_all_eq derive_post_transition_frame_def apply_fiber_deltas_def)
  moreover have "\<not> armed_at (fold_mutations (map CM_Retire ?ids) (sn_concurrency_table s)) i r"
    by (rule retire_all_none) (use armed_ids [of _ s changes_default] in \<open>auto simp: changes_default_def\<close>)
  ultimately show "fibers = bt_empty" "\<not> armed_at table i r" by simp_all
qed

lemma cleanup_passes_ring3:
  assumes "tc_delete_all_fibers (tr_terminal_cleanup t)" and "tr_concurrency_mutations t = []"
    and "tr_fibers_upsert t = []" and "is_terminal (effective_state t)"
  shows "ring3_shadow_check w s (retire_all_armed_records s t) = Inr ()"
proof -
  let ?t = "retire_all_armed_records s t"
  obtain fibers table where frame: "derive_post_transition_frame s ?t = (fibers, table)"
    by (cases "derive_post_transition_frame s ?t")
  note empty = retired_frame [OF assms(1,2) frame]
  have "frame_ok fibers table (effective_state ?t)"
    using empty assms(4)
    by (simp add: frame_ok_def K1_def K2_def K3_def retire_all_eq effective_state_def
        barriers_satisfiable_def effects_uniquely_owned_def bt_values_def bt_entries_simps)
  moreover have "tr_fibers_upsert ?t = []"
    using assms(3) by (simp add: retire_all_eq)
  ultimately show ?thesis by (simp add: ring3_iff frame upserts_in_bounds_def)
qed

lemma entry_limits_ok:
  assumes "bt_len (sn_fibers s) \<le> unat (max_fibers (wf_limits w))"
    and "\<forall>f \<in> live s. length (fb_stack f) \<le> unat (max_stack (wf_limits w))"
  shows "validate_snapshot_limits w s False = Inr ()"
proof -
  have "for_res (validate_fiber_limits w False) (bt_values (sn_fibers s)) = Inr ()"
    using assms(2) by (auto simp: for_res_ok validate_fiber_limits_def not_less)
  then show ?thesis using assms(1) by (simp add: validate_snapshot_limits_def)
qed

lemma admin_accepted:
  assumes "unat (cx_logical_time cx) < 2 ^ 63"
    and "validate_snapshot_limits w s (check_arrays_for cmd) = Inr ()"
    and "dispatch x w s cmd cx = Inr (retire_all_armed_records s t)"
    and "tc_delete_all_fibers (tr_terminal_cleanup t)" and "tr_concurrency_mutations t = []"
    and "tr_fibers_upsert t = []" and "effective_state t = st" and "is_terminal st"
  shows "\<exists>t fibers table. apply_command x w s cmd cx = Inr t \<and> effective_state t = st
    \<and> derive_post_transition_frame s t = (fibers, table)
    \<and> fibers = bt_empty \<and> (\<forall>i r. \<not> armed_at table i r)"
proof -
  let ?t = "retire_all_armed_records s t"
  let ?c = "command_envelope_new (cx_command_id cx) (cx_logical_time cx) (JC_Kernel cmd)"
  obtain fibers table where frame: "derive_post_transition_frame s ?t = (fibers, table)"
    by (cases "derive_post_transition_frame s ?t")
  have "ring3_shadow_check w s ?t = Inr ()"
    using assms(4-8) by (intro cleanup_passes_ring3) simp_all
  then have "apply_command x w s cmd cx = Inr (with_command_envelope ?c ?t)"
    using assms(1-3) by (simp add: apply_command_def i64_try_from_def)
  moreover have "effective_state ?t = st"
    using assms(7) by (simp add: retire_all_eq effective_state_def)
  ultimately show ?thesis
    using frame retired_frame [OF assms(4,5) frame]
    by (intro exI [of _ "with_command_envelope ?c ?t"] exI [of _ fibers] exI [of _ table])
      (simp add: frame_of_envelope)
qed

lemma cancel_accepted:
  assumes "bt_len (sn_fibers s) \<le> unat (max_fibers (wf_limits w))"
    and "\<forall>f \<in> live s. length (fb_stack f) \<le> unat (max_stack (wf_limits w))"
    and "unat (cx_logical_time cx) < 2 ^ 63"
  shows "\<exists>t fibers table. apply_command x w s (Cmd_Cancel reason) cx = Inr t
    \<and> effective_state t = PS_Cancelled reason (cx_logical_time cx)
    \<and> derive_post_transition_frame s t = (fibers, table)
    \<and> fibers = bt_empty \<and> (\<forall>i r. \<not> armed_at table i r)"
proof -
  let ?t = "((transition_new ((sn_instance s)\<lparr>pi_state := PS_Cancelled reason (cx_logical_time cx)\<rparr>))
        \<lparr>tr_events := concat (map (wait_cancelled x reason) (bt_values (sn_fibers s))) @ [Ev_Cancelled reason],
         tr_terminal_cleanup := full_cleanup\<rparr>)"
  show ?thesis
    by (rule admin_accepted [OF assms(3), where t = ?t and st = "PS_Cancelled reason (cx_logical_time cx)"])
      (simp_all add: entry_limits_ok [OF assms(1,2)] check_arrays_for_def apply_cancel_eq
        transition_new_def full_cleanup_def effective_state_def unwrap_or_def)
qed

lemma terminate_accepted:
  assumes "bt_len (sn_fibers s) \<le> unat (max_fibers (wf_limits w))"
    and "\<forall>f \<in> live s. length (fb_stack f) \<le> unat (max_stack (wf_limits w))"
    and "unat (cx_logical_time cx) < 2 ^ 63"
  shows "\<exists>t fibers table. apply_command x w s Cmd_Terminate cx = Inr t
    \<and> effective_state t = PS_Terminated (cx_logical_time cx)
    \<and> derive_post_transition_frame s t = (fibers, table)
    \<and> fibers = bt_empty \<and> (\<forall>i r. \<not> armed_at table i r)"
proof -
  let ?t = "tb_terminal_cleanup full_cleanup (tb_event (Ev_Terminated (cx_logical_time cx)
      (unwrap_or (vec_get (bt_keys (sn_fibers s)) 0) 0))
      (transition_new ((sn_instance s)\<lparr>pi_state := PS_Terminated (cx_logical_time cx)\<rparr>)))"
  have "logical_timestamp cx = Inr (cx_logical_time cx)"
    using assms(3) by (simp add: logical_timestamp_def i64_try_from_def)
  then show ?thesis
    by (intro admin_accepted [OF assms(3), where t = ?t and st = "PS_Terminated (cx_logical_time cx)"])
      (simp_all add: entry_limits_ok [OF assms(1,2)] check_arrays_for_def apply_terminate_def
        transition_new_def full_cleanup_def effective_state_def unwrap_or_def builder_defs)
qed

text \<open>
  C7. \<open>Cancel\<close> and \<open>Terminate\<close> are the operator's way out of any frame: within the fiber and
  operand-stack limits, and at a logical time that fits a signed timestamp, they are accepted
  whatever the fibers, the records and the state of the instance are, even if the K-invariants do
  not hold; they leave the instance cancelled with the given reason, or terminated, at the logical
  time of the command, with no fiber and no armed record.
\<close>

theorem operator_commands_always_accepted:
  assumes "bt_len (sn_fibers s) \<le> unat (max_fibers (wf_limits w))"
    and "\<forall>f \<in> live s. length (fb_stack f) \<le> unat (max_stack (wf_limits w))"
    and "unat (cx_logical_time cx) < 2 ^ 63"
    and "(cmd, st) = (Cmd_Cancel reason, PS_Cancelled reason (cx_logical_time cx))
      \<or> (cmd, st) = (Cmd_Terminate, PS_Terminated (cx_logical_time cx))"
  shows "\<exists>t fibers table. apply_command x w s cmd cx = Inr t \<and> effective_state t = st
    \<and> derive_post_transition_frame s t = (fibers, table)
    \<and> fibers = bt_empty \<and> (\<forall>i r. \<not> armed_at table i r)"
  using assms(4) cancel_accepted [OF assms(1-3)] terminate_accepted [OF assms(1-3)]
  by (elim disjE) simp_all

text \<open>The fiber of the sample holds a handle that no record backs.\<close>

theorem operator_commands_always_accepted_witness:
  "\<exists>t fibers table. apply_command x0 (workflow0 []) (snapshot0 [guarded7] bt_empty) (Cmd_Cancel ''stop'') cx0 = Inr t
    \<and> effective_state t = PS_Cancelled ''stop'' 5
    \<and> derive_post_transition_frame (snapshot0 [guarded7] bt_empty) t = (fibers, table)
    \<and> fibers = bt_empty \<and> (\<forall>i r. \<not> armed_at table i r)"
proof -
  let ?s = "snapshot0 [guarded7] bt_empty"
  have "bt_len (sn_fibers ?s) \<le> unat (max_fibers (wf_limits (workflow0 [])))"
    "\<forall>f \<in> live ?s. length (fb_stack f) \<le> unat (max_stack (wf_limits (workflow0 [])))"
    "unat (cx_logical_time cx0) < 2 ^ 63" "cx_logical_time cx0 = 5"
    by (simp_all add: sample_eval)
  with operator_commands_always_accepted [of ?s "workflow0 []" cx0 "Cmd_Cancel ''stop''"
      "PS_Cancelled ''stop'' 5" "''stop''" x0] show ?thesis by simp
qed

end
