(* ===== verification/HandlerTheorems.thy ===== *)
theory HandlerTheorems
  imports KernelTheorems
begin

text \<open>
  The properties of single handlers and instructions: what is decided once stays decided after the
  transition is persisted (incidents, job completions, races), deliveries reach one fiber or the
  buffer, error routes, repeating guard timers, scope snapshots, joins, and the step limit.
\<close>

section \<open>The snapshot after a commit\<close>

definition incidents_wf :: "(uuid, incident) btree \<Rightarrow> bool" where
  "incidents_wf m \<longleftrightarrow> (\<forall>(i, inc) \<in> set (bt_entries m). inc_incident_id inc = i)"

lemma incidents_wf_iff: "incidents_wf m \<longleftrightarrow> (\<forall>i inc. bt_get m i = Some inc \<longrightarrow> inc_incident_id inc = i)"
  unfolding incidents_wf_def by (auto simp flip: bt_entries_mem)

lemma key_incidents_values: "incidents_wf m \<Longrightarrow> key_incidents (bt_values m) = m"
proof -
  assume wf: "incidents_wf m"
  have eq: "map (\<lambda>i. (inc_incident_id i, i)) (bt_values m) = bt_entries m"
    unfolding bt_values_def using wf by (auto simp: incidents_wf_def split: prod.splits intro!: map_idI)
  have "bt_get (bt_of_list (bt_entries m)) k = bt_get m k" for k
    by (simp add: bt_of_list_get al_wf_distinct)
  then show ?thesis
    unfolding key_incidents_def eq by (intro bt_eqI ext)
qed

lemma incidents_wf_fold:
  "incidents_wf m \<Longrightarrow> incidents_wf (fold (\<lambda>i. bt_insert (inc_incident_id i) i) is m)"
proof (induction "is" arbitrary: m)
  case (Cons i "is")
  have "incidents_wf (bt_insert (inc_incident_id i) i m)"
    using Cons.prems by (simp add: incidents_wf_iff bt_get_insert)
  then show ?case by (simp add: Cons.IH)
qed simp

definition persisted_wf :: "persisted_snapshot_state \<Rightarrow> bool" where
  "persisted_wf p \<longleftrightarrow> fibers_wf (ps_fibers p) \<and> incidents_wf (ps_incidents p)"

text \<open>What the next command reads after a transition has been folded into the state.\<close>

abbreviation committed :: "persisted_snapshot_state \<Rightarrow> transition \<Rightarrow> snapshot" where
  "committed p t \<equiv> to_runtime_snapshot (se_state (materialize_snapshot p t 0 0))"

lemma committed_simps:
  assumes "persisted_wf p"
  shows "sn_fibers (committed p t) = apply_fiber_deltas (ps_fibers p) (tr_fibers_upsert t)
      (tr_fibers_delete t) (tc_delete_all_fibers (tr_terminal_cleanup t))"
    and "sn_concurrency_table (committed p t) = fold_mutations (tr_concurrency_mutations t) (ps_concurrency_table p)"
    and "sn_incidents (committed p t) =
      fold (\<lambda>i. bt_insert (inc_incident_id i) i) (tr_incidents t) (ps_incidents p)"
    and "sn_instance (committed p t) = (case tr_state_override t of
        Some st \<Rightarrow> (tr_next_snapshot t)\<lparr>pi_state := st\<rparr> | None \<Rightarrow> tr_next_snapshot t)\<lparr>pi_integrity_hash := None\<rparr>"
proof -
  have wf: "fibers_wf (apply_fiber_deltas (ps_fibers p) (tr_fibers_upsert t) (tr_fibers_delete t) b)" for b
    using assms by (simp add: persisted_wf_def fibers_wf_deltas)
  have iw: "incidents_wf (fold (\<lambda>i. bt_insert (inc_incident_id i) i) (tr_incidents t) (ps_incidents p))"
    using assms by (simp add: persisted_wf_def incidents_wf_fold)
  show "sn_fibers (committed p t) = apply_fiber_deltas (ps_fibers p) (tr_fibers_upsert t)
      (tr_fibers_delete t) (tc_delete_all_fibers (tr_terminal_cleanup t))"
    using key_fibers_values [OF wf [of False]] key_fibers_values [OF fibers_wf_empty]
    by (simp add: to_runtime_snapshot_def materialize_snapshot_def Let_def snapshot_envelope_new_def
        persisted_new_def apply_fiber_deltas_def)
  show "sn_concurrency_table (committed p t) = fold_mutations (tr_concurrency_mutations t) (ps_concurrency_table p)"
    by (simp add: to_runtime_snapshot_def materialize_snapshot_def Let_def snapshot_envelope_new_def
        persisted_new_def)
  show "sn_incidents (committed p t) =
      fold (\<lambda>i. bt_insert (inc_incident_id i) i) (tr_incidents t) (ps_incidents p)"
    using key_incidents_values [OF iw]
    by (simp add: to_runtime_snapshot_def materialize_snapshot_def Let_def snapshot_envelope_new_def
        persisted_new_def)
  show "sn_instance (committed p t) = (case tr_state_override t of
        Some st \<Rightarrow> (tr_next_snapshot t)\<lparr>pi_state := st\<rparr> | None \<Rightarrow> tr_next_snapshot t)\<lparr>pi_integrity_hash := None\<rparr>"
    by (simp add: to_runtime_snapshot_def materialize_snapshot_def Let_def snapshot_envelope_new_def
        persisted_new_def)
qed

lemma runtime_simps:
  assumes "persisted_wf p"
  shows "sn_fibers (to_runtime_snapshot p) = ps_fibers p"
    "sn_incidents (to_runtime_snapshot p) = ps_incidents p"
    "sn_instance (to_runtime_snapshot p) = ps_instance p"
    "sn_concurrency_table (to_runtime_snapshot p) = ps_concurrency_table p"
  using assms by (simp_all add: to_runtime_snapshot_def persisted_wf_def key_fibers_values key_incidents_values)

section \<open>Incidents\<close>

text \<open>
  C8. An incident is resolved once: an accepted \<open>ResolveIncident\<close> on an open incident requires the
  instance to be parked on exactly that incident and sets it running again, and after the
  transition is persisted a second resolution of the same incident, whatever its text and time,
  changes nothing.
\<close>

theorem incident_resolved_once:
  assumes "persisted_wf p" and "bt_get (ps_incidents p) i = Some inc" and "inc_resolved_at inc = None"
    and "apply_resolve_incident (to_runtime_snapshot p) i resolution cx = Inr t"
  shows "pi_state (ps_instance p) = PS_Incidented i
    \<and> pi_state (sn_instance (committed p t)) = PS_Running
    \<and> apply_resolve_incident (committed p t) i resolution' cx' = Inr (transition_new (sn_instance (committed p t)))"
proof -
  have id: "inc_incident_id inc = i" using assms(1,2) by (simp add: persisted_wf_def incidents_wf_iff)
  have st: "pi_state (ps_instance p) = PS_Incidented i"
    using assms(2-4) by (auto simp: apply_resolve_incident_def runtime_simps [OF assms(1)] split: if_splits)
  obtain at where "logical_timestamp cx = Inr at"
    using assms(2-4) st
    by (cases "logical_timestamp cx") (auto simp: apply_resolve_incident_def runtime_simps [OF assms(1)])
  with assms(2,3) assms(4) [symmetric] st
  have t: "tr_incidents t = [inc\<lparr>inc_resolved_at := Some at, inc_resolution := Some resolution\<rparr>]"
    "pi_state (tr_next_snapshot t) = PS_Running" "tr_state_override t = None"
    by (simp_all add: apply_resolve_incident_def runtime_simps [OF assms(1)] Let_def builder_defs
        transition_new_def split: option.splits)
  have "bt_get (sn_incidents (committed p t)) i =
      Some (inc\<lparr>inc_resolved_at := Some at, inc_resolution := Some resolution\<rparr>)"
    by (simp add: committed_simps [OF assms(1)] t id bt_get_insert)
  then show ?thesis
    using st t by (simp add: apply_resolve_incident_def committed_simps [OF assms(1)])
qed

theorem incident_resolved_once_witness:
  "\<exists>t. apply_resolve_incident (to_runtime_snapshot incidented) 30 ''fixed'' cx0 = Inr t
    \<and> apply_resolve_incident (committed incidented t) 30 ''again'' cx0 =
        Inr (transition_new (sn_instance (committed incidented t)))"
proof -
  have wf: "persisted_wf incidented"
    by (simp add: persisted_wf_def fibers_wf_def incidents_wf_def sample_eval)
  have sample: "bt_get (ps_incidents incidented) 30 = Some incident30" "inc_resolved_at incident30 = None"
    "pi_state (ps_instance incidented) = PS_Incidented 30" "logical_timestamp cx0 = Inr 5"
    by (simp_all add: sample_eval)
  obtain t where t: "apply_resolve_incident (to_runtime_snapshot incidented) 30 ''fixed'' cx0 = Inr t"
    by (simp add: apply_resolve_incident_def runtime_simps [OF wf] sample Let_def)
  from incident_resolved_once [OF wf sample(1,2) t] t show ?thesis by blast
qed

section \<open>Job completions\<close>

lemma apply_completion_state:
  assumes "apply_completion x c inst = Inr inst'"
  shows "pi_state inst' = pi_state inst"
proof -
  have "fold_res apply_flag kvs i = Inr i' \<Longrightarrow> pi_state i' = pi_state i" for kvs i i'
    by (induction kvs arbitrary: i) (auto simp: apply_flag_def res_simps elim!: try_resE)
  from this [OF assms [unfolded apply_completion_def]] show ?thesis by simp
qed

text \<open>One fiber of a frame is replaced.\<close>

lemma values_after_upsert:
  assumes "fibers_wf m" and "g \<in> set (bt_values (bt_insert (fb_id f) f m))"
  shows "g = f \<or> g \<in> set (bt_values m) \<and> fb_id g \<noteq> fb_id f"
proof -
  obtain i where i: "bt_get (bt_insert (fb_id f) f m) i = Some g"
    using assms(2) by (auto simp: bt_values_def simp flip: bt_entries_mem)
  show ?thesis
  proof (cases "i = fb_id f")
    case False
    with i have "bt_get m i = Some g" by (simp add: bt_get_insert)
    moreover from this assms(1) have "fb_id g = i" by (simp add: fibers_wf_iff)
    ultimately show ?thesis
      using False by (force simp: bt_values_def simp flip: bt_entries_mem)
  qed (use i in simp)
qed

text \<open>
  The kernel does not complete a job twice: when a completion has resumed its fiber and the
  transition is persisted, and no second fiber is parked on the same key, the kernel refuses the
  same completion, as a payload conflict or because no fiber waits for it. The engine does not
  hand the kernel such a redelivery: it answers it from the dedupe row of the key.
\<close>

lemma kernel_completes_job_once:
  assumes wf: "persisted_wf p" and "\<not> is_terminal (pi_state (ps_instance p))"
    and uniq: "\<And>f g. f \<in> set (bt_values (ps_fibers p)) \<Longrightarrow> g \<in> set (bt_values (ps_fibers p)) \<Longrightarrow>
       parked_on_job (jc_job_key c) f \<Longrightarrow> parked_on_job (jc_job_key c) g \<Longrightarrow> fb_id f = fb_id g"
    and "apply_job_completion x (to_runtime_snapshot p) c = Inr t"
  shows "apply_job_completion x (committed p t) c
    \<in> {Inl OptimisticConflict, Inl (InvalidCommand ''completion has no parked fiber'')}"
proof -
  obtain f inst' where f: "find (parked_on_job (jc_job_key c)) (bt_values (ps_fibers p)) = Some f"
    and inst': "apply_completion x c (ps_instance p) = Inr inst'"
    and t: "tr_next_snapshot t = inst'" "tr_fibers_upsert t = [(bump_pc f)\<lparr>fb_wait := W_Running\<rparr>]"
      "tr_fibers_delete t = []" "\<not> tc_delete_all_fibers (tr_terminal_cleanup t)" "tr_state_override t = None"
    using assms(2,4)
    by (auto simp: apply_job_completion_def runtime_simps [OF wf] Let_def push_defs unwrap_or_def
        elim!: try_resE split: if_splits option.splits)
  let ?f = "(bump_pc f)\<lparr>fb_wait := W_Running\<rparr>"
  have "\<not> parked_on_job (jc_job_key c) g" if "g \<in> set (bt_values (sn_fibers (committed p t)))" for g
  proof -
    from that have "g \<in> set (bt_values (bt_insert (fb_id ?f) ?f (ps_fibers p)))"
      by (simp add: committed_simps [OF wf] t apply_fiber_deltas_def)
    from values_after_upsert [OF _ this] wf
    have "g = ?f \<or> g \<in> set (bt_values (ps_fibers p)) \<and> fb_id g \<noteq> fb_id f"
      by (simp add: persisted_wf_def bump_pc_def)
    then show ?thesis
      using uniq [of f g] find_SomeD [OF f] by (auto simp: parked_on_job_def)
  qed
  then have "find (parked_on_job (jc_job_key c)) (bt_values (sn_fibers (committed p t))) = None"
    by (simp add: find_None_iff)
  moreover have "\<not> is_terminal (pi_state (sn_instance (committed p t)))"
    using assms(2) apply_completion_state [OF inst'] by (simp add: committed_simps [OF wf] t)
  ultimately show ?thesis by (simp add: apply_job_completion_def Let_def)
qed

section \<open>Races\<close>

text \<open>
  C10. A race is decided once: when a timer arm has won and the transition is persisted, the race
  record is no longer armed, the fiber runs at the target of the arm, no message resumes it, and
  every other timer of the same race that fires later is consumed without effect.
\<close>

theorem race_decided_once:
  assumes wf: "persisted_wf p" and f: "bt_get (ps_fibers p) (tm_fiber_id timer) = Some f"
    and "fb_wait f = W_V2Race race arms" and "tm_kind timer = TK_V2Race race target"
    and win: "apply_timer x w (to_runtime_snapshot p) timer fired_at cx = Inr t"
    and later: "tm_kind timer' = TK_V2Race race target'" "tm_fiber_id timer' = tm_fiber_id timer"
      "tm_tenant_id timer' = tm_tenant_id timer" "tm_instance_id timer' = tm_instance_id timer"
      "tm_due_at timer' \<le> fired_at'"
  shows "(\<forall>r. \<not> armed_at (sn_concurrency_table (committed p t)) race r)
    \<and> (\<exists>f'. bt_get (sn_fibers (committed p t)) (tm_fiber_id timer) = Some f' \<and> fb_pc f' = target
         \<and> fb_wait f' = W_Running \<and> (\<forall>names name key. match_msg_fiber names name key f' = None))
    \<and> apply_timer x w (committed p t) timer' fired_at' cx' =
        Inr (tb_timer_mutation (TM_Consume (tm_timer_id timer') (tm_claim_token timer'))
          (transition_new (sn_instance (committed p t))))"
proof -
  have id: "fb_id f = tm_fiber_id timer" using wf f by (simp add: persisted_wf_def fibers_wf_iff)
  from win assms(2-4) have tenant: "tm_tenant_id timer = pi_tenant_id (ps_instance p)"
      "tm_instance_id timer = pi_instance_id (ps_instance p)"
    by (simp_all add: apply_timer_def Let_def runtime_simps [OF wf] split: if_splits)
  from win [symmetric] assms(2-4)
  have t: "tr_next_snapshot t = ps_instance p" "tr_fibers_upsert t = [f\<lparr>fb_pc := target, fb_wait := W_Running\<rparr>]"
      "tr_fibers_delete t = []" "\<not> tc_delete_all_fibers (tr_terminal_cleanup t)" "tr_state_override t = None"
      "tr_concurrency_mutations t = [CM_Retire race]"
    by (simp_all add: apply_timer_def Let_def runtime_simps [OF wf] builder_defs transition_new_def split: if_splits)
  have "bt_get (sn_fibers (committed p t)) (tm_fiber_id timer) = Some (f\<lparr>fb_pc := target, fb_wait := W_Running\<rparr>)"
    by (simp add: committed_simps [OF wf] t apply_fiber_deltas_def id)
  moreover have "sn_instance (committed p t) = (ps_instance p)\<lparr>pi_integrity_hash := None\<rparr>"
    by (simp add: committed_simps [OF wf] t)
  moreover have "\<not> armed_at (sn_concurrency_table (committed p t)) race r" for r
    by (simp add: committed_simps [OF wf] t armed_retire)
  ultimately show ?thesis
    using later tenant by (simp add: apply_timer_def Let_def match_msg_fiber_def)
qed

theorem race_decided_once_witness:
  "\<exists>t. apply_timer x0 (workflow0 []) (to_runtime_snapshot (persisted0 [racing7] bt_empty)) (race_timer 40 1) 10 cx0 = Inr t
    \<and> apply_timer x0 (workflow0 []) (committed (persisted0 [racing7] bt_empty) t) (race_timer 41 2) 12 cx0 =
        Inr (tb_timer_mutation (TM_Consume 41 50) (transition_new (sn_instance (committed (persisted0 [racing7] bt_empty) t))))"
proof -
  let ?p = "persisted0 [racing7] bt_empty"
  have wf: "persisted_wf ?p"
    by (simp add: persisted_wf_def fibers_wf_def incidents_wf_def sample_eval)
  obtain t where t: "apply_timer x0 (workflow0 []) (to_runtime_snapshot ?p) (race_timer 40 1) 10 cx0 = Inr t"
    by (simp add: apply_timer_def Let_def to_runtime_snapshot_def sample_eval)
  have "bt_get (ps_fibers ?p) (tm_fiber_id (race_timer 40 1)) = Some racing7"
    "fb_wait racing7 = W_V2Race 20 [Arm_Timer 1, Arm_Timer 2]"
    "tm_kind (race_timer i a) = TK_V2Race 20 a" "tm_fiber_id (race_timer i a) = 7"
    "tm_tenant_id (race_timer i a) = ''t''" "tm_instance_id (race_timer i a) = 1"
    "tm_due_at (race_timer i a) = 10" "tm_timer_id (race_timer i a) = i" "tm_claim_token (race_timer i a) = 50" for i a
    by (simp_all add: sample_eval)
  then show ?thesis
    using t race_decided_once [OF wf _ _ _ t, of racing7 20 "[Arm_Timer 1, Arm_Timer 2]" 1 "race_timer 41 2" 2 12 cx0]
    by simp
qed

section \<open>Messages\<close>

text \<open>What it is to wait for a message, and what a fiber becomes when the message resumes it.\<close>

definition names_message :: "(u32, string) btree \<Rightarrow> string \<Rightarrow> u32 \<Rightarrow> bool" where
  "names_message names name i \<longleftrightarrow> bt_get names i = Some name \<or> bt_get names i = None \<and> name = dec_u i"

definition waits_for_message :: "(u32, string) btree \<Rightarrow> string \<Rightarrow> string \<Rightarrow> fiber \<Rightarrow> bool" where
  "waits_for_message names name key f \<longleftrightarrow>
     (\<exists>w i. fb_wait f = W_Msg w i key \<and> names_message names name i)
     \<or> (\<exists>race arms target i. fb_wait f = W_V2Race race arms \<and> Arm_Msg target i key \<in> set arms
          \<and> names_message names name i)"

definition resumed_by_message ::
  "(u32, string) btree \<Rightarrow> string \<Rightarrow> string \<Rightarrow> fiber \<Rightarrow> fiber \<Rightarrow> record_id list \<Rightarrow> bool" where
  "resumed_by_message names name key f f' retired \<longleftrightarrow>
     (\<exists>w i. fb_wait f = W_Msg w i key \<and> names_message names name i
        \<and> f' = f\<lparr>fb_wait := W_Running\<rparr> \<and> retired = [])
     \<or> (\<exists>race before target i after. fb_wait f = W_V2Race race (before @ Arm_Msg target i key # after)
        \<and> names_message names name i
        \<and> (\<forall>target' i'. Arm_Msg target' i' key \<in> set before \<longrightarrow> \<not> names_message names name i')
        \<and> f' = f\<lparr>fb_pc := target, fb_wait := W_Running\<rparr> \<and> retired = [race])"

lemma message_name_matches_iff: "message_name_matches names name i \<longleftrightarrow> names_message names name i"
  by (auto simp: message_name_matches_def names_message_def split: option.splits)

lemma match_msg_None: "match_msg_fiber names name key f = None \<longleftrightarrow> \<not> waits_for_message names name key f"
  by (auto simp: match_msg_fiber_def waits_for_message_def message_name_matches_iff find_map_None
      split: wait_state.splits v2_race_arm.splits)

lemma match_msg_Some:
  assumes "match_msg_fiber names name key f = Some (f', race)"
  shows "resumed_by_message names name key f f' (case race of Some i \<Rightarrow> [i] | None \<Rightarrow> [])"
proof (cases "fb_wait f")
  case (W_V2Race i arms)
  let ?arm = "\<lambda>arm. case arm of Arm_Msg target waiting_name corr_key \<Rightarrow>
      if message_name_matches names name waiting_name \<and> corr_key = key then Some target else None | _ \<Rightarrow> None"
  from assms W_V2Race obtain target where "find_map ?arm arms = Some target"
    and f': "f' = f\<lparr>fb_pc := target, fb_wait := W_Running\<rparr>" "race = Some i"
    by (auto simp: match_msg_fiber_def)
  from find_map_Some [OF this(1)] obtain us arm vs where arms: "arms = us @ arm # vs"
    and hit: "?arm arm = Some target" and none: "\<forall>u\<in>set us. ?arm u = None" by blast
  from hit obtain n where "arm = Arm_Msg target n key" "names_message names name n"
    by (auto simp: message_name_matches_iff split: v2_race_arm.splits if_splits)
  moreover have "\<not> names_message names name i'" if "Arm_Msg target' i' key \<in> set us" for target' i'
    using none that by (force simp: message_name_matches_iff split: if_splits)
  ultimately show ?thesis using W_V2Race arms f' by (auto simp: resumed_by_message_def)
qed (use assms in \<open>auto simp: match_msg_fiber_def resumed_by_message_def message_name_matches_iff split: if_splits\<close>)

text \<open>
  C11. A delivered message is neither lost nor delivered twice. A fiber waits for the message if it
  is parked on the message's name, as the artifact's table names it, and the delivered correlation
  key, or on a race that has such a message arm. On a live instance an accepted delivery resumes
  the first such fiber in fiber order and no other: the fiber runs on at the address it waits at,
  or at the target of the first matching arm of its race, whose record is retired; the message is
  recorded as delivered, and its payload becomes the domain payload if it comes with a hash.
  If no fiber waits for it, the delivery touches no fiber and stores the message in the buffer.
\<close>

theorem message_resumes_one_or_is_buffered:
  assumes "\<not> is_terminal (pi_state (sn_instance s))"
    and "apply_message x w s (Cmd_MessageDelivered message_id name key payload hash expires_at) cx = Inr t"
    and "names = md_message_name_map (wf_metadata w)"
  shows "\<exists>m. bm_msg_id m = message_id \<and> bm_message_name m = name \<and> bm_correlation_key m = key
      \<and> bm_payload m = payload \<and> tr_fibers_delete t = []
      \<and> ((\<exists>before f after f' retired. bt_values (sn_fibers s) = before @ f # after
            \<and> (\<forall>g \<in> set before. \<not> waits_for_message names name key g)
            \<and> resumed_by_message names name key f f' retired
            \<and> tr_fibers_upsert t = [f'] \<and> tr_concurrency_mutations t = map CM_Retire retired
            \<and> tr_buffered_messages t = [BM_Deliver m]
            \<and> pi_domain_payload (tr_next_snapshot t) =
                (if hash = None then pi_domain_payload (sn_instance s) else payload))
         \<or> (\<forall>g \<in> set (bt_values (sn_fibers s)). \<not> waits_for_message names name key g)
            \<and> tr_fibers_upsert t = [] \<and> tr_concurrency_mutations t = []
            \<and> tr_buffered_messages t = [BM_Insert m] \<and> tr_next_snapshot t = sn_instance s)"
proof -
  let ?found = "find_map (match_msg_fiber names name key) (bt_values (sn_fibers s))"
  obtain at where at: "logical_timestamp cx = Inr at"
    using assms(2) by (cases "logical_timestamp cx") (simp_all add: apply_message_def)
  let ?m = "\<lparr>bm_tenant_id = pi_tenant_id (sn_instance s), bm_message_name = name,
    bm_correlation_key = key, bm_msg_id = message_id, bm_payload = payload, bm_payload_hash = hash,
    bm_process_instance_id = Some (pi_instance_id (sn_instance s)), bm_received_at = at,
    bm_expires_at = expires_at\<rparr>"
  show ?thesis
  proof (cases ?found)
    case None
    then have "\<forall>g \<in> set (bt_values (sn_fibers s)). \<not> waits_for_message names name key g"
      by (simp add: find_map_None match_msg_None)
    then show ?thesis
      using None assms at by (intro exI [of _ ?m]) (auto simp: apply_message_def Let_def push_defs)
  next
    case (Some found)
    obtain f' race where found: "found = (f', race)" by (cases found)
    from find_map_Some [OF Some] obtain us f vs where split: "bt_values (sn_fibers s) = us @ f # vs"
      "\<forall>g\<in>set us. \<not> waits_for_message names name key g"
      and f: "match_msg_fiber names name key f = Some (f', race)"
      by (auto simp: match_msg_None found)
    have t: "tr_fibers_upsert t = [f']" "tr_fibers_delete t = []"
        "tr_concurrency_mutations t = map CM_Retire (case race of Some i \<Rightarrow> [i] | None \<Rightarrow> [])"
        "tr_buffered_messages t = [BM_Deliver ?m]"
        "pi_domain_payload (tr_next_snapshot t) = (if hash = None then pi_domain_payload (sn_instance s) else payload)"
      using Some found assms at
      by (auto simp: apply_message_def Let_def push_defs push_race_won_def from_utf8_def
          elim!: try_resE split: prod.splits option.splits if_splits)
    show ?thesis
      by (intro exI [of _ ?m] conjI disjI1 exI)
        (use t split match_msg_Some [OF f] in simp_all)
  qed
qed

theorem message_resumes_one_or_is_buffered_witness:
  "\<exists>t m. apply_message x0 (workflow0 []) (snapshot0 [fiber7\<lparr>fb_wait := W_Msg 0 5 ''key''\<rparr>] bt_empty)
        (Cmd_MessageDelivered ''id'' (dec_u (5 :: u32)) ''key'' [] None 100) cx0 = Inr t
     \<and> tr_fibers_upsert t = [fiber7] \<and> tr_buffered_messages t = [BM_Deliver m] \<and> bm_msg_id m = ''id''"
proof -
  let ?f = "fiber7\<lparr>fb_wait := W_Msg 0 5 ''key''\<rparr>"
  let ?s = "snapshot0 [?f] bt_empty"
  let ?names = "md_message_name_map (wf_metadata (workflow0 []))"
  have one: "bt_values (sn_fibers ?s) = [?f]" "names_message ?names (dec_u (5 :: u32)) 5"
    by (simp_all add: sample_eval names_message_def)
  have waits: "waits_for_message ?names (dec_u (5 :: u32)) ''key'' ?f"
    using one(2) by (simp add: waits_for_message_def)
  have resumed: "resumed_by_message ?names (dec_u (5 :: u32)) ''key'' ?f f' retired \<Longrightarrow> f' = fiber7" for f' retired
    by (auto simp: resumed_by_message_def fiber7_def fiber_new_def)
  have live: "\<not> is_terminal (pi_state (sn_instance ?s))" by (simp add: sample_eval)
  have "\<exists>t. apply_message x0 (workflow0 []) ?s
      (Cmd_MessageDelivered ''id'' (dec_u (5 :: u32)) ''key'' [] None 100) cx0 = Inr t"
    using live by (cases "find_map (match_msg_fiber ?names (dec_u (5 :: u32)) ''key'') (bt_values (sn_fibers ?s))")
      (simp_all add: apply_message_def Let_def logical_timestamp_def i64_try_from_def cx0_def split: prod.splits)
  then obtain t where t: "apply_message x0 (workflow0 []) ?s
      (Cmd_MessageDelivered ''id'' (dec_u (5 :: u32)) ''key'' [] None 100) cx0 = Inr t" ..
  from message_resumes_one_or_is_buffered [OF live t refl] t waits show ?thesis
    by (auto simp: one append_eq_Cons_conv Cons_eq_append_conv dest!: resumed)
qed

section \<open>Error routes\<close>

definition specific :: "string option \<times> addr \<Rightarrow> bool" where
  "specific route \<longleftrightarrow> fst route \<noteq> None"

lemma arm_error_route_order:
  assumes "rec_error_routes r = filter specific done_routes @ filter (\<lambda>q. \<not> specific q) done_routes"
  shows "rec_error_routes (arm_error_route route r) =
    filter specific (done_routes @ [route]) @ filter (\<lambda>q. \<not> specific q) (done_routes @ [route])"
proof -
  have pos: "position (\<lambda>(code, _). code = None) (S @ N) = (if N = [] then None else Some (length S))"
    if "\<forall>q \<in> set S. specific q" "\<forall>q \<in> set N. \<not> specific q" for S N
    using that
  proof (induction S)
    case Nil
    then show ?case by (cases N) (auto simp: specific_def)
  qed (auto simp: specific_def)
  show ?thesis
    using assms pos [of "filter specific done_routes" "filter (\<lambda>q. \<not> specific q) done_routes"]
    by (auto simp: arm_error_route_def Let_def specific_def unwrap_or_def)
qed

lemma armed_routes_order:
  assumes "rec_error_routes r = []"
  shows "rec_error_routes (fold arm_error_route routes r) =
    filter specific routes @ filter (\<lambda>q. \<not> specific q) routes"
  using assms
proof (induction routes rule: rev_induct)
  case (snoc route routes)
  then show ?case using arm_error_route_order [of "fold arm_error_route routes r" routes route] by simp
qed simp

text \<open>
  C12. Error routes are matched in the order they were armed, a specific code before a catch-all:
  on a guard armed with any list of routes, a rejection goes to the handler of the first route
  with its code, else to the first catch-all, wherever the catch-all stands in the list.
\<close>

theorem specific_route_before_catch_all:
  "route_for code (fold arm_error_route routes (r\<lparr>rec_error_routes := []\<rparr>)) =
     (case find (\<lambda>q. fst q = Some code) routes of
        Some q \<Rightarrow> Some (snd q)
      | None \<Rightarrow> map_option snd (find (\<lambda>q. fst q = None) routes))"
proof -
  have split: "find P (xs @ ys) = (case find P xs of Some a \<Rightarrow> Some a | None \<Rightarrow> find P ys)"
    for P :: "string option \<times> addr \<Rightarrow> bool" and xs ys
    by (induction xs) auto
  have filt: "find P (filter Q xs) = find (\<lambda>a. P a \<and> Q a) xs" for P Q :: "string option \<times> addr \<Rightarrow> bool" and xs
    by (induction xs) auto
  have "(\<lambda>a. (case a of (code', _) \<Rightarrow> case code' of Some c \<Rightarrow> c = code | None \<Rightarrow> True) \<and> specific a) =
      (\<lambda>q. fst q = Some code)"
    "(\<lambda>a. (case a of (code', _) \<Rightarrow> case code' of Some c \<Rightarrow> c = code | None \<Rightarrow> True) \<and> \<not> specific a) =
      (\<lambda>q. fst q = None)"
    by (auto simp: specific_def fun_eq_iff split: option.splits)
  then show ?thesis
    by (simp add: route_for_def armed_routes_order split filt split: option.split)
qed

section \<open>Repeating guard timers\<close>

text \<open>Handling a guard neither arms nor consumes a timer.\<close>

lemma timers_fold: "(\<And>a ch. ch_timer_mutations (f a ch) = ch_timer_mutations ch) \<Longrightarrow>
  ch_timer_mutations (fold f as ch) = ch_timer_mutations ch"
  by (induction as arbitrary: ch) simp_all

lemma timers_pushes [simp]:
  "ch_timer_mutations (push_upsert f ch) = ch_timer_mutations ch"
  "ch_timer_mutations (push_delete i ch) = ch_timer_mutations ch"
  "ch_timer_mutations (push_event e ch) = ch_timer_mutations ch"
  "ch_timer_mutations (push_job_mutation jm ch) = ch_timer_mutations ch"
  "ch_timer_mutations (push_incident inc ch) = ch_timer_mutations ch"
  "ch_timer_mutations (push_mutation cm ch) = ch_timer_mutations ch"
  "ch_timer_mutations (push_delta cs ch) = ch_timer_mutations ch"
  "ch_timer_mutations changes_default = []"
  by (simp_all add: push_defs)

lemma timers_folds [simp]:
  "ch_timer_mutations (fold push_delete is ch) = ch_timer_mutations ch"
  "ch_timer_mutations (fold push_job_mutation ms ch) = ch_timer_mutations ch"
  "ch_timer_mutations (fold (\<lambda>r. push_mutation (g r)) rs ch) = ch_timer_mutations ch"
  "ch_timer_mutations (fold (\<lambda>h. push_delta (d h)) hs ch) = ch_timer_mutations ch"
  "ch_timer_mutations (v2_reconcile_ancestor_membership s ops ex ch) = ch_timer_mutations ch"
  by (simp_all add: timers_fold v2_reconcile_ancestor_membership_def Let_def)

lemma timers_trigger: "v2_trigger_guard_changes x s i cx = Inr ch \<Longrightarrow> ch_timer_mutations ch = []"
  by (auto simp: v2_trigger_guard_changes_def v2_trigger_guard_changes_with_target_def Let_def
      elim!: try_resE split: if_splits prod.splits)

lemma timers_rollback:
  "v2_rollback_guard_scope x s g caller ch = Inr (rb, ch') \<Longrightarrow> ch_timer_mutations ch' = ch_timer_mutations ch"
  by (auto simp: v2_rollback_guard_scope_def Let_def elim!: try_resE split: prod.splits rollback_caller.splits)

lemma timers_rescue:
  "rescue_trigger x w s cx g a f e m n k i ch = Inr (ch', i') \<Longrightarrow> ch_timer_mutations ch' = ch_timer_mutations ch"
  by (auto simp: rescue_trigger_def truncate_scope_def Let_def elim!: try_resE split: prod.splits if_splits option.splits)

lemma timers_guard_rollback:
  "apply_v2_guard_timer_rollback x w s g r cx = Inr (ch, i) \<Longrightarrow> ch_timer_mutations ch = []"
  by (auto simp: apply_v2_guard_timer_rollback_def Let_def elim!: try_resE
      dest!: timers_rescue timers_rollback split: option.splits prod.splits if_splits)

definition guard_open :: "snapshot \<Rightarrow> record_id \<Rightarrow> bool \<Rightarrow> bool" where
  "guard_open s i interrupting \<longleftrightarrow>
     (\<exists>r. ct_get (sn_concurrency_table s) i = Some r \<and> rec_state r = Armed \<and> rec_kind r = RK_Guard interrupting)"

lemma guard_timer_open:
  assumes "tm_kind timer = TK_V2GuardTimer i" and "apply_timer x w s timer at cx = Inr t" and "guard_open s i b"
  shows "tr_timer_mutations t = [guard_timer_rearm timer at b]"
    and "Ev_TimerFired (tm_timer_id timer) (tm_fiber_id timer) at \<in> set (tr_events t)"
  using assms
  by (auto simp: apply_timer_def fire_guard_timer_def guard_open_def Let_def push_timer_mutation_def
      push_event_def is_guard_def
      elim!: try_resE dest!: timers_trigger timers_guard_rollback split: if_splits)

lemma guard_timer_stale:
  assumes "tm_kind timer = TK_V2GuardTimer i" and "apply_timer x w s timer at cx = Inr t" and "\<And>b. \<not> guard_open s i b"
  shows "tr_timer_mutations t = [TM_Consume (tm_timer_id timer) (tm_claim_token timer)]"
    and "tr_events t = []"
proof -
  have "ct_get (sn_concurrency_table s) i = Some r \<Longrightarrow> rec_state r \<noteq> Armed \<or> \<not> is_guard r" for r
    using assms(3) by (auto simp: guard_open_def is_guard_def split: record_kind.splits)
  with assms(1,2) show "tr_timer_mutations t = [TM_Consume (tm_timer_id timer) (tm_claim_token timer)]" "tr_events t = []"
    by (auto simp: apply_timer_def fire_guard_timer_def Let_def tb_timer_mutation_def transition_new_def
        split: if_splits option.splits)
qed

text \<open>So every accepted delivery of a guard timer either consumes the timer or re-arms it.\<close>

lemma guard_timer_answer:
  assumes "tm_kind timer = TK_V2GuardTimer i" and "apply_timer x w s timer at cx = Inr t"
  obtains "tr_timer_mutations t = [TM_Consume (tm_timer_id timer) (tm_claim_token timer)]"
  | due_at spec where "tr_timer_mutations t = [TM_Rearm (tm_timer_id timer) (tm_claim_token timer) due_at spec]"
proof (cases "\<exists>b. guard_open s i b")
  case True
  then obtain b where "tr_timer_mutations t = [guard_timer_rearm timer at b]"
    using guard_timer_open(1) [OF assms] by blast
  then show thesis
    by (cases "if b then None else tm_repeat_spec timer")
      (auto simp: guard_timer_rearm_def intro: that split: if_splits)
next
  case False
  then show thesis using guard_timer_stale(1) [OF assms] that by blast
qed










section \<open>Scope snapshots\<close>

lemma rollback_fields_membership:
  "rollback_fields x (fold apply_membership_op ops r) = rollback_fields x r"
proof (induction ops arbitrary: r)
  case (Cons m ops)
  have "rollback_fields x (apply_membership_op m r) = rollback_fields x r"
    by (cases m) (simp_all add: rollback_fields_def)
  with Cons show ?case by simp
qed simp

text \<open>
  C14. A rollback restores what the scope saved: the record that \<open>V2GuardR\<close> opens, after any
  sequence of fibers joined and left it, gives back the payload, its hash, the flags, the join
  expectations and the session stack of the instance at the opening, and leaves every other field
  of the rolled-back instance alone. The hypothesis is that the session stack survives printing
  and parsing.
\<close>

theorem rollback_restores_snapshot:
  assumes "x_session_parse x (x_session_print x (pi_session_stack inst)) = Some (pi_session_stack inst)"
  shows "\<exists>restored. rollback_fields x (fold apply_membership_op ops (guard_r_record x inst i opened_at)) = Inr restored
    \<and> restore_instance restored inst' =
        inst'\<lparr>pi_domain_payload := pi_domain_payload inst,
          pi_domain_payload_hash := pi_domain_payload_hash inst, pi_flags := pi_flags inst,
          pi_join_expected := pi_join_expected inst, pi_session_stack := pi_session_stack inst\<rparr>"
  using assms
  by (simp add: rollback_fields_membership) (simp add: rollback_fields_def guard_r_record_def restore_instance_def)

theorem rollback_restores_snapshot_witness:
  "let x = x0\<lparr>x_session_parse := (\<lambda>_. Some (pi_session_stack instance0))\<rparr> in
   \<exists>restored. rollback_fields x (fold apply_membership_op [Add 8, Remove 8] (guard_r_record x instance0 20 3)) = Inr restored
     \<and> restore_instance restored (instance0\<lparr>pi_domain_payload := ''dirty''\<rparr>) = instance0"
  using rollback_restores_snapshot [of "x0\<lparr>x_session_parse := (\<lambda>_. Some (pi_session_stack instance0))\<rparr>"
      instance0 "[Add 8, Remove 8]" 20 3 "instance0\<lparr>pi_domain_payload := ''dirty''\<rparr>"]
  by (simp add: Let_def instance0_def)

section \<open>Joins\<close>

text \<open>
  C15. A join counts down and releases on the last arrival: with at most one arrival outstanding
  the arriving fiber goes on with the next instruction and the rest of its control stack, all
  other members of the barrier are deleted, and the barrier is not armed any more; otherwise the
  fiber parks on the barrier, whose count goes down by exactly one.
\<close>

theorem join_counts_down:
  assumes "fb_control_stack (tk_fiber ts) = rest @ [h]"
    and "fetch_record_in_transition s (tk_changes ts) h = Some r" and "rec_id r = h"
  shows "if unat (ct_count (rec_counters r)) \<le> 1
    then \<exists>ts'. exec_join s ts = Inr (Next ts')
      \<and> tk_fiber ts' = (bump_pc (tk_fiber ts))\<lparr>fb_control_stack := rest\<rparr>
      \<and> ch_fibers_delete (tk_changes ts') =
          ch_fibers_delete (tk_changes ts) @ filter (\<lambda>m. m \<noteq> fb_id (tk_fiber ts)) (bs_list (rec_members r))
      \<and> (\<forall>r'. \<not> armed_at (staged_table s (tk_changes ts')) h r')
    else \<exists>t. exec_join s ts = Inr (Done t)
      \<and> tr_fibers_upsert t = ch_fibers_upsert (tk_changes ts)
          @ [(tk_fiber ts)\<lparr>fb_control_stack := rest, fb_wait := W_V2Barrier h\<rparr>]
      \<and> ct_get (fold_mutations (tr_concurrency_mutations t) (sn_concurrency_table s)) h =
          Some (r\<lparr>rec_counters := (rec_counters r)\<lparr>ct_count := ct_count (rec_counters r) - 1\<rparr>\<rparr>)"
proof -
  let ?f = "(tk_fiber ts)\<lparr>fb_control_stack := rest\<rparr>"
  let ?ts = "upd_changes (push_delta (CS_Pop (fb_id (tk_fiber ts)) h)) (ts\<lparr>tk_fiber := ?f\<rparr>)"
  have pop: "pop_handle ''V2Join'' ts = Inr (h, ?ts)"
    by (simp add: pop_handle_def assms(1) vec_pop_def)
  have fetch: "fetch_record_in_transition s (tk_changes ?ts) h = Some r"
    using assms(2) by (simp add: upd_changes_def push_delta_def fetch_record_in_transition_def)
  have le1: "n = 0 \<or> n = 1" if "unat n \<le> 1" for n :: u32
  proof -
    have "unat n = unat (0 :: u32) \<or> unat n = unat (1 :: u32)" using that by auto
    then show ?thesis using unsigned_word_eqI by metis
  qed
  show ?thesis
  proof (cases "unat (ct_count (rec_counters r)) \<le> 1")
    case True
    then have "sat_sub (ct_count (rec_counters r)) 1 = 0"
      using le1 [OF True] by (auto simp: sat_sub_def)
    then have "exec_join s ts = join_release s h (r\<lparr>rec_counters := (rec_counters r)\<lparr>ct_count := 0\<rparr>\<rparr>) ?ts"
      by (simp add: exec_join_def pop fetch Let_def)
    then show ?thesis
      using True
      by (simp add: Let_def join_release_def advance_def bump_pc_def armed_retire fold_push_delete
          upd_changes_def push_event_def push_mutation_def push_delta_def)
  next
    case False
    then have "1 \<le> ct_count (rec_counters r)" "ct_count (rec_counters r) \<noteq> 1"
      by (auto simp: word_le_nat_alt)
    then have "sat_sub (ct_count (rec_counters r)) 1 = ct_count (rec_counters r) - 1"
      "ct_count (rec_counters r) - 1 \<noteq> 0"
      by (simp_all add: sat_sub_def)
    then have "exec_join s ts = join_arrive h
        (r\<lparr>rec_counters := (rec_counters r)\<lparr>ct_count := ct_count (rec_counters r) - 1\<rparr>\<rparr>) ?ts"
      by (simp add: exec_join_def pop fetch Let_def)
    then show ?thesis
      using False
      by (simp add: Let_def join_arrive_def park_def upd_changes_def push_defs assms(3) btree_simps)
  qed
qed

theorem join_counts_down_witness:
  "\<exists>t. exec_join (snapshot0 [guarded7] (ct_insert (barrier20 2) bt_empty))
        (tick_start (snapshot0 [guarded7] (ct_insert (barrier20 2) bt_empty)) guarded7) = Inr (Done t)
     \<and> tr_fibers_upsert t = [fiber7\<lparr>fb_wait := W_V2Barrier 20\<rparr>]"
proof -
  let ?s = "snapshot0 [guarded7] (ct_insert (barrier20 2) bt_empty)"
  have "fb_control_stack (tk_fiber (tick_start ?s guarded7)) = [] @ [20]"
    "fetch_record_in_transition ?s (tk_changes (tick_start ?s guarded7)) 20 = Some (barrier20 2)"
    "rec_id (barrier20 2) = 20" "unat (ct_count (rec_counters (barrier20 2))) = 2"
    "tk_fiber (tick_start ?s guarded7) = guarded7" "ch_fibers_upsert (tk_changes (tick_start ?s guarded7)) = []"
    "guarded7\<lparr>fb_control_stack := [], fb_wait := W_V2Barrier 20\<rparr> = fiber7\<lparr>fb_wait := W_V2Barrier 20\<rparr>"
    by (simp_all add: sample_eval fetch_record_in_transition_def ct_get_def ct_insert_def)
  with join_counts_down [OF this(1-3)] show ?thesis by auto
qed

section \<open>The step limit\<close>

text \<open>A run of the interpreter: some instructions that go on, then one that ends the tick.\<close>

inductive tick_runs ::
  "ext \<Rightarrow> executable_workflow \<Rightarrow> snapshot \<Rightarrow> deterministic_context \<Rightarrow> nat \<Rightarrow> tick_state \<Rightarrow> transition \<Rightarrow> bool"
  for x w s cx where
  stops: "tick_step x w s cx ts = Inr (Done t) \<Longrightarrow> tick_runs x w s cx 0 ts t"
| steps: "tick_step x w s cx ts = Inr (Next ts') \<Longrightarrow> tick_runs x w s cx n ts' t \<Longrightarrow>
    tick_runs x w s cx (Suc n) ts t"

inductive_cases tick_runs_0E: "tick_runs x w s cx 0 ts t"
inductive_cases tick_runs_SucE: "tick_runs x w s cx (Suc n) ts t"

lemma tick_runs_loop: "tick_runs x w s cx k ts t \<Longrightarrow> k < n \<Longrightarrow> tick_loop n x w s cx ts = Inr t"
proof (induction k ts t arbitrary: n rule: tick_runs.induct)
  case (stops ts t)
  then show ?case by (cases n) simp_all
next
  case (steps ts ts' k t)
  then show ?case by (cases n) simp_all
qed

lemma tick_loop_runs: "tick_loop n x w s cx ts = Inr t \<Longrightarrow> \<exists>k < n. tick_runs x w s cx k ts t"
proof (induction n arbitrary: ts)
  case (Suc n)
  then obtain r where r: "tick_step x w s cx ts = Inr r"
    by (cases "tick_step x w s cx ts") simp_all
  show ?case
  proof (cases r)
    case (Done t')
    then have "tick_runs x w s cx 0 ts t" using r Suc.prems by (auto intro: tick_runs.stops)
    then show ?thesis by blast
  next
    case (Next ts')
    then obtain k where "k < n" "tick_runs x w s cx k ts' t" using r Suc by auto
    then show ?thesis using r Next tick_runs.steps by fastforce
  qed
qed simp

lemma tick_runs_unique:
  "tick_runs x w s cx k ts t \<Longrightarrow> tick_runs x w s cx k' ts t' \<Longrightarrow> k' = k \<and> t' = t"
proof (induction k ts t arbitrary: k' t' rule: tick_runs.induct)
  case (stops ts t)
  from stops(2,1) show ?case by cases simp_all
next
  case (steps ts ts' k t)
  from steps(4,1) steps.IH show ?case by cases auto
qed

text \<open>
  The step limit only cuts runs short: a tick with a limit of \<open>n\<close> steps gives a transition
  exactly when the interpreter's unbounded run ends within fewer than \<open>n\<close> continuing instructions,
  and that run, its length and its transition do not depend on the limit.
\<close>

lemma tick_is_bounded_run:
  "(tick_loop n x w s cx ts = Inr t \<longleftrightarrow> (\<exists>k < n. tick_runs x w s cx k ts t))
   \<and> (\<forall>k k' t'. tick_runs x w s cx k ts t \<and> tick_runs x w s cx k' ts t' \<longrightarrow> k' = k \<and> t' = t)"
  using tick_runs_loop tick_loop_runs tick_runs_unique by (metis (full_types))

section \<open>Forks\<close>

text \<open>
  C16. A fork replaces its fiber by one child per target: the children start at the targets with
  empty operand stacks and the parent's control stack extended by the new barrier, the parent is
  deleted, and when its identity is fresh the barrier is armed with arity and count equal to the
  number of targets and exactly the children as its members.
\<close>

theorem fork_spawns_children:
  assumes "ct_wf (sn_concurrency_table s)"
    and "barrier = derived_id x cx (tk_ordinal ts)" and "f = tk_fiber ts"
    and "ids = fork_ids x cx (sat_add (tk_ordinal ts) 1) targets"
    and "barrier \<notin> set (fb_control_stack f)"
  shows "\<exists>t r. exec_fork x s cx targets ts = Inr (Done t)
    \<and> tr_fibers_upsert t = ch_fibers_upsert (tk_changes ts)
        @ map (\<lambda>(i, target). (fiber_new i target)\<lparr>fb_control_stack := fb_control_stack f @ [barrier]\<rparr>) (zip ids targets)
    \<and> tr_fibers_delete t = ch_fibers_delete (tk_changes ts) @ [fb_id f]
    \<and> armed_at (fold_mutations (tr_concurrency_mutations t) (sn_concurrency_table s)) barrier r
    \<and> rec_kind r = RK_Barrier \<and> bs_set (rec_members r) = set ids
    \<and> rec_counters r = \<lparr>ct_arity = of_nat (length targets), ct_count = of_nat (length targets)\<rparr>"
proof -
  let ?r = "(record_new barrier RK_Barrier)
    \<lparr>rec_counters := \<lparr>ct_arity = of_nat (length targets), ct_count = of_nat (length targets)\<rparr>,
     rec_members := fold bs_insert ids (rec_members (record_new barrier RK_Barrier))\<rparr>"
  obtain n ch where loop: "fold (fork_spawn x cx f barrier) targets
      (sat_add (tk_ordinal ts) 1, rec_members (record_new barrier RK_Barrier), tk_changes ts, []) =
       (n, rec_members ?r, ch, ids)"
    and ch: "ch_fibers_upsert ch = ch_fibers_upsert (tk_changes ts) @ map (fork_child f barrier) (zip ids targets)"
      "ch_fibers_delete ch = ch_fibers_delete (tk_changes ts)"
    using fork_fold [of x cx f barrier targets "sat_add (tk_ordinal ts) 1"
        "rec_members (record_new barrier RK_Barrier)" "tk_changes ts" "[]"] assms(4) by auto
  define ch1 where "ch1 = push_mutation (CM_Insert ?r) (push_event (Ev_V2Forked barrier (fb_id f) ids targets) ch)"
  define ch2 where "ch2 = v2_reconcile_ancestor_membership s (fork_ancestor_ops f ids) (bs_of_list []) ch1"
  have "exec_fork x s cx targets ts = Inr (Done (finish (push_delete (fb_id f) ch2) (tk_instance ts)))"
    using loop assms(2,3) by (simp add: exec_fork_def next_id_def Let_def ch1_def ch2_def)
  moreover have "armed_at (staged_table s ch2) barrier ?r"
  proof -
    have "armed_at (staged_table s ch1) barrier ?r"
      by (simp add: ch1_def push_defs armed_insert record_new_def)
    moreover have "ops_for barrier (fork_ancestor_ops f ids) = []"
      using assms(5) ops_for_mem fork_ops_mem by (metis last_in_set)
    ultimately show ?thesis
      unfolding ch2_def reconcile_armed [OF assms(1)] by (intro exI [of _ ?r]) simp
  qed
  ultimately show ?thesis
    using ch
    by (intro exI [of _ "finish (push_delete (fb_id f) ch2) (tk_instance ts)"] exI [of _ ?r])
      (simp add: ch2_def ch1_def push_defs fork_child_def bs_set_fold_insert record_new_def)
qed

theorem fork_spawns_children_witness:
  "\<exists>t r. exec_fork x0 (snapshot0 [fiber7] bt_empty) cx0 [1, 2] (tick_start (snapshot0 [fiber7] bt_empty) fiber7) = Inr (Done t)
     \<and> tr_fibers_delete t = [7]
     \<and> armed_at (fold_mutations (tr_concurrency_mutations t) bt_empty) (derived_id x0 cx0 0) r
     \<and> rec_counters r = \<lparr>ct_arity = 2, ct_count = 2\<rparr>"
proof -
  let ?s = "snapshot0 [fiber7] bt_empty"
  have "ct_wf (sn_concurrency_table ?s)" "tk_ordinal (tick_start ?s fiber7) = 0"
    "tk_fiber (tick_start ?s fiber7) = fiber7" "fb_control_stack fiber7 = []" "fb_id fiber7 = 7"
    "ch_fibers_delete (tk_changes (tick_start ?s fiber7)) = []" "sn_concurrency_table ?s = bt_empty"
    by (simp_all add: sample_eval ct_wf_def)
  with fork_spawns_children [of ?s _ x0 cx0 "tick_start ?s fiber7" _ _ "[1, 2]", OF _ refl refl refl] show ?thesis
    by auto
qed

end
