(* ===== verification/Identity.thy ===== *)
theory Identity
  imports CommandInvariants
begin

text \<open>
  The fields of an instance that no command changes: its identity, its tenant, the process and
  bytecode it runs, and the correlation and creation data it was started with, and its
  quarantine mark.
\<close>

section \<open>The identity of an instance\<close>

definition identity ::
  "process_instance \<Rightarrow> uuid \<times> string \<times> string \<times> hash32 \<times> string \<times> uuid \<times> uuid \<times> timestamp
     \<times> string option" where
  "identity i = (pi_instance_id i, pi_tenant_id i, pi_process_key i, pi_bytecode_version i,
     pi_correlation_id i, pi_entry_id i, pi_runbook_id i, pi_created_at i, pi_quarantine_state i)"

lemma identity_update [simp]:
  "identity (i\<lparr>pi_state := st\<rparr>) = identity i"
  "identity (i\<lparr>pi_flags := fl\<rparr>) = identity i"
  "identity (i\<lparr>pi_counters := c\<rparr>) = identity i"
  "identity (i\<lparr>pi_domain_payload := b\<rparr>) = identity i"
  "identity (i\<lparr>pi_domain_payload_hash := h\<rparr>) = identity i"
  "identity (i\<lparr>pi_placeholder_values := ph\<rparr>) = identity i"
  "identity (i\<lparr>pi_integrity_hash := ih\<rparr>) = identity i"
  "identity (restore_instance rb i) = identity i"
  by (simp_all add: identity_def restore_instance_def)

lemma apply_completion_identity: "apply_completion x c i = Inr i' \<Longrightarrow> identity i' = identity i"
proof -
  have "fold_res apply_flag kvs i = Inr i' \<Longrightarrow> identity i' = identity i" for kvs i i'
    by (induction kvs arbitrary: i) (auto simp: apply_flag_def res_simps elim!: try_resE)
  then show "apply_completion x c i = Inr i' \<Longrightarrow> ?thesis"
    by (fastforce simp: apply_completion_def)
qed

lemma bindings_identity:
  "bind_placeholder_from_payload x i ph = Inr i' \<Longrightarrow> identity i' = identity i"
  "apply_ffi_outputs x i d out = Inr i' \<Longrightarrow> identity i' = identity i"
  by (auto simp: bind_placeholder_from_payload_def apply_ffi_outputs_def elim!: try_resE split: prod.splits)

section \<open>The interpreter\<close>

definition step_identity :: "process_instance \<Rightarrow> step_result \<Rightarrow> bool" where
  "step_identity i r \<longleftrightarrow>
     (case r of Next ts \<Rightarrow> identity (tk_instance ts) = identity i | Done t \<Rightarrow> identity (tr_next_snapshot t) = identity i)"

lemma step_identity_simps [simp]:
  "step_identity i (Next ts) \<longleftrightarrow> identity (tk_instance ts) = identity i"
  "step_identity i (Done t) \<longleftrightarrow> identity (tr_next_snapshot t) = identity i"
  by (simp_all add: step_identity_def)

text \<open>The words of the interpreter, unfolded down to their ends.\<close>

named_theorems word_defs \<open>definitions of the interpreter's words\<close>

lemmas [word_defs] =
  advance_def goto_def park_def push_value_def pop_value_def pop_handle_def upd_changes_def
  fail_contract_def next_id_def open_record_def push_invocation_def
  exec_branch_def exec_pop_def exec_load_flag_def exec_load_placeholder_match_def
  exec_route_zero_match_def exec_mi_index_live_def exec_mi_load_element_def
  exec_mi_arity_check_def exec_store_flag_def exec_inc_counter_def exec_br_counter_lt_def
  exec_route_payload_def park_on_job_def exec_native_def exec_dsl_task_def exec_ffi_def
  exec_await_effect_def exec_publish_message_def park_on_timer_def exec_wait_for_def
  exec_wait_until_def consume_buffered_def exec_wait_msg_def exec_end_def
  exec_end_terminate_def exec_fail_def exec_guard_def exec_guard_n_def exec_guard_r_def
  exec_guard_close_def exec_guard_end_def exec_guard_n_end_def exec_guard_r_end_def
  exec_guard_arm_timer_def exec_guard_arm_error_def exec_guard_timer_cycle_def exec_fork_def
  join_release_def join_arrive_def exec_join_def exec_race_open_def push_arm_def
  exec_arm_timer_def exec_arm_msg_def exec_arm_effect_def exec_race_close_def
  exec_cancel_scope_def

lemma exec_identity: "exec_instr x w s cx ins ts = Inr r \<Longrightarrow> step_identity (tk_instance ts) r"
  by (cases ins)
    (auto simp: word_defs Let_def map_err_Inr dest!: apply_completion_identity bindings_identity
      elim!: try_resE
      split: if_splits option.splits prod.splits val.splits durable_effect.splits timer_kind.splits)

lemma tick_loop_identity:
  "tick_loop n x w s cx ts = Inr t \<Longrightarrow> identity (tr_next_snapshot t) = identity (tk_instance ts)"
proof (induction n arbitrary: ts)
  case (Suc n)
  from Suc.prems obtain r where r: "tick_step x w s cx ts = Inr r"
    by (cases "tick_step x w s cx ts") simp_all
  then have "step_identity (tk_instance ts) r"
    by (auto simp: tick_step_def elim!: try_resE dest!: exec_identity)
  then show ?case
    using Suc.prems Suc.IH r by (cases r) auto
qed simp

section \<open>The handlers\<close>

lemma apply_tick_identity:
  "apply_tick x w s cmd cx = Inr t \<Longrightarrow> identity (tr_next_snapshot t) = identity (sn_instance s)"
  by (auto simp: apply_tick_def tick_start_def elim!: try_resE dest!: tick_loop_identity
      split: command.splits if_splits)

lemma rescue_identity:
  "rescue_trigger x w s cx g a f e m n k i ch = Inr (ch', i') \<Longrightarrow> identity i' = identity i"
  by (auto simp: rescue_trigger_def Let_def elim!: try_resE split: prod.splits)

lemma guard_rollback_identity:
  "apply_v2_guard_timer_rollback x w s g r cx = Inr (ch, i) \<Longrightarrow> identity i = identity (sn_instance s)"
  by (auto simp: apply_v2_guard_timer_rollback_def Let_def elim!: try_resE dest!: rescue_identity
      split: option.splits prod.splits if_splits)

lemma apply_timer_identity:
  "apply_timer x w s timer at cx = Inr t \<Longrightarrow> identity (tr_next_snapshot t) = identity (sn_instance s)"
  by (auto simp: apply_timer_def fire_guard_timer_def Let_def builder_defs transition_new_def
      elim!: try_resE dest!: guard_rollback_identity
      split: if_splits timer_kind.splits option.splits wait_state.splits prod.splits)

lemma ffi_result_identity:
  "ffi_result_instance x w i a out new nomatch = Inr i' \<Longrightarrow> identity i' = identity i"
  by (auto simp: ffi_result_instance_def map_err_Inr elim!: try_resE dest!: bindings_identity
      split: if_splits option.splits)

lemma apply_ffi_identity:
  "apply_ffi_completion x w s cmd = Inr t \<Longrightarrow> identity (tr_next_snapshot t) = identity (sn_instance s)"
  by (auto simp: apply_ffi_completion_def Let_def builder_defs transition_new_def
      elim!: try_resE dest!: ffi_result_identity
      split: command.splits effect_output.splits if_splits ffi_match.splits prod.splits)

lemma apply_job_identity:
  "apply_job_completion x s c = Inr t \<Longrightarrow> identity (tr_next_snapshot t) = identity (sn_instance s)"
  by (auto simp: apply_job_completion_def Let_def builder_defs transition_new_def
      elim!: try_resE dest!: apply_completion_identity split: if_splits option.splits)

lemma apply_message_identity:
  "apply_message x w s cmd cx = Inr t \<Longrightarrow> identity (tr_next_snapshot t) = identity (sn_instance s)"
  by (auto simp: apply_message_def Let_def elim!: try_resE
      split: command.splits if_splits option.splits prod.splits)

lemma apply_job_failure_identity:
  "apply_job_failure x w s cmd cx = Inr t \<Longrightarrow> identity (tr_next_snapshot t) = identity (sn_instance s)"
  by (auto simp: apply_job_failure_def fail_job_ignored_def fail_job_retry_def fail_job_routed_def
      fail_job_rollback_def fail_job_incident_def Let_def elim!: try_resE dest!: rescue_identity
      split: command.splits if_splits option.splits prod.splits error_class.splits)

lemma dispatch_identity:
  assumes "dispatch x w s cmd cx = Inr t"
  shows "identity (tr_next_snapshot t) = identity (sn_instance s)"
proof -
  have rest: "apply_terminate s cx = Inr t \<Longrightarrow> ?thesis" "apply_resolve_incident s i r cx = Inr t \<Longrightarrow> ?thesis"
    "apply_start_child_result x s k c b cx = Inr t \<Longrightarrow> ?thesis" "apply_v2_trigger_guard x s cmd' cx = Inr t \<Longrightarrow> ?thesis"
    for i r k c b cmd'
    by (auto simp: apply_terminate_def apply_resolve_incident_def apply_start_child_result_def
        apply_v2_trigger_guard_def Let_def retire_all_eq builder_defs transition_new_def
        elim!: try_resE split: if_splits option.splits process_state.splits command.splits)
  from assms show ?thesis
    by (cases "(x, w, s, cmd, cx)" rule: dispatch.cases)
      (auto simp: apply_cancel_eq retire_all_eq builder_defs transition_new_def dest: apply_tick_identity apply_timer_identity
        apply_ffi_identity apply_job_identity apply_message_identity apply_job_failure_identity rest)
qed

end
