(* ===== verification/JournalTheorems.thy ===== *)
theory JournalTheorems
  imports HandlerTheorems Identity
begin

text \<open>
  The properties of the durable side: the canonical byte formats, what the state hash determines,
  the identity fields that no command changes, and replay of a journal against a checkpoint.
\<close>

section \<open>Canonical bytes\<close>

text \<open>
  C17. The bytes of a concurrency table read back as the table: every table that is well formed
  (each record is stored under its own id) and that the format can hold is restored exactly, with
  no byte left over. \<open>table_ok\<close> says what the format can hold: strings are UTF-8, hashes have 32
  bytes, the lengths of strings and sequences fit their 32-bit prefixes, and the flag values saved
  for a rollback keep the array limits that the decoder enforces, at most
  \<open>MAX_VALUE_ARRAY_DEPTH\<close> (8) nested arrays and \<open>MAX_VALUE_ARRAY_LEN\<close> (4096) items in each.
\<close>

theorem table_bytes_round_trip:
  assumes "table_ok table"
  shows "from_canonical_bytes decode_table (encode_table table) = Inr table"
  using assms by (rule table_c.from_canonical_bytes [OF refl])

theorem table_bytes_round_trip_witness:
  "from_canonical_bytes decode_table (encode_table (ct_insert guard20 bt_empty)) = Inr (ct_insert guard20 bt_empty)"
proof (rule table_bytes_round_trip)
  show "table_ok (ct_insert guard20 bt_empty)"
    by (simp add: table_ok_def record_ok_def ct_wf_def ct_insert_def sample_eval bs_list_def bs_insert_def bs_of_list_def)
qed

text \<open>
  C18. The fiber format is canonical: a byte string is accepted as a fiber exactly when it is the
  encoding of that fiber, so two accepted byte strings of one fiber are equal, and the fiber is one
  the format can hold: every value on its stack is within the array limits (at most 8 nested arrays
  and 4096 items in each), its wait state has UTF-8 keys and 32-byte template ids, and its lengths
  fit their 32-bit prefixes. A fiber past a limit is encoded, but no byte string is accepted as it.
\<close>

theorem fiber_bytes_canonical:
  "from_canonical_bytes decode_fiber bs = Inr f \<longleftrightarrow> bs = encode_fiber f
     \<and> list_all (\<lambda>v. check_array_limits v = Inr ()) (fb_stack f) \<and> length (fb_stack f) < 2 ^ 32
     \<and> wait_ok (fb_wait f) \<and> length (fb_control_stack f) < 2 ^ 32"
  by (auto simp: fiber_c.from_canonical_bytes_iff fiber_ok_def value_ok_iff list_all_iff)

lemma record_new_ok: "record_ok (record_new i k)"
  by (simp add: record_ok_def record_new_def bs_list_def bt_keys_def bs_of_list_def bt_entries_simps)

lemma table_bytes_repeated:
  assumes "record_ok r"
  shows "from_canonical_bytes decode_table (write_seq encode_record [r, r]) = Inr (ct_insert r bt_empty)"
proof -
  have twice: "ct_insert r (ct_insert r bt_empty) = ct_insert r bt_empty"
    by (intro bt_eqI) (simp add: ct_insert_def bt_get_insert)
  have "read_seq decode_record (cursor_at 0 [] (write_seq encode_record [r, r] @ [])) =
      Inr ([r, r], cursor_at 0 ([] @ write_seq encode_record [r, r]) [])"
    by (rule record_c.seq_dec_enc) (use assms in simp_all)
  then show ?thesis
    by (simp add: from_canonical_bytes_def reader_new_cursor decode_table_def twice reader_finish_cursor)
qed

text \<open>
  C19. The table format is not canonical in that sense: some byte string is accepted as a table
  although it is not the encoding of the table it gives, because the decoder collapses a repeated
  record.
\<close>

theorem table_bytes_not_canonical:
  "\<exists>bs table. from_canonical_bytes decode_table bs = Inr table \<and> encode_table table \<noteq> bs"
proof -
  let ?r = "record_new 1 RK_Race" and ?table = "ct_insert (record_new 1 RK_Race) bt_empty"
  have "encode_table ?table = write_seq encode_record [?r]"
    by (simp add: encode_table_def ct_insert_def bt_values_def bt_entries_simps)
  also have "\<dots> \<noteq> write_seq encode_record [?r, ?r]"
    using record_c.seq_prefix_iff [of "[?r]" "[?r, ?r]" "[]" "[]"] by (simp add: record_new_ok)
  finally show ?thesis using table_bytes_repeated [OF record_new_ok] by blast
qed

section \<open>Nested values\<close>

lemma decode_value_any_fuel:
  "decode_value_fuel (Suc MAX_VALUE_ARRAY_DEPTH + n) (cursor_at 0 pre bs) = decode_value (cursor_at 0 pre bs)"
proof (induction n)
  case (Suc n)
  have "decode_value_fuel (Suc (MAX_VALUE_ARRAY_DEPTH + n)) (cursor_at 0 pre bs) =
      decode_value_fuel (Suc (Suc (MAX_VALUE_ARRAY_DEPTH + n))) (cursor_at 0 pre bs)"
    by (rule decode_value_fuel_enough) simp_all
  with Suc show ?case by simp
qed (simp add: decode_value_def)

text \<open>
  Decoding a value ends within the nesting limit: on every input the decoder recurses at most
  one level past \<open>MAX_VALUE_ARRAY_DEPTH\<close>, so a deeper recursion bound gives the same result, value
  or error.
\<close>

lemma decode_value_terminates:
  assumes "MAX_VALUE_ARRAY_DEPTH < fuel"
  shows "decode_value_fuel fuel (reader_new bs) = decode_value (reader_new bs)"
proof -
  obtain n where "fuel = Suc MAX_VALUE_ARRAY_DEPTH + n"
    using assms by (metis Suc_leI le_Suc_ex)
  then show ?thesis using decode_value_any_fuel by (simp add: reader_new_cursor)
qed

section \<open>The state hash\<close>

text \<open>
  C20. The state hash pins the state: two envelopes with the same state hash agree on every field
  that the hash covers, the revision and the artifact, or their hashed byte strings are an
  explicit collision of the hash function. Domain payloads agree as parsed JSON; the only field
  of the instance the hash leaves out is its cached integrity hash. The hypotheses are that a
  JSON number is determined by its integer and float views, and that the states are ones the format
  can hold: lengths fit their prefixes, strings are UTF-8, and values keep the array limits.
\<close>

theorem state_hash_pins_state:
  assumes "number_views x" and "persisted_ok x (se_state e)" and "persisted_ok x (se_state f)"
    and "state_hash x e = Inr h" and "state_hash x f = Inr h"
  shows "same_hashed_state x (se_state e) (se_state f) \<and> se_revision e = se_revision f
      \<and> se_artifact_hash e = se_artifact_hash f
    \<or> (\<exists>a b. hash_input x e = Inr a \<and> hash_input x f = Inr b \<and> a \<noteq> b \<and> x_blake3 x a = x_blake3 x b)"
proof -
  from assms(4,5) obtain a b where ab: "hash_input x e = Inr a" "hash_input x f = Inr b"
    and eq: "x_blake3 x a = x_blake3 x b"
    by (auto simp: state_hash_def elim!: try_resE)
  show ?thesis
  proof (cases "a = b")
    case True
    with ab have "hash_input x f = Inr a" by simp
    from hash_input_determines [OF assms(1-3) ab(1) this] show ?thesis ..
  next
    case False
    with ab eq show ?thesis by blast
  qed
qed

text \<open>The two envelopes of the sample differ in the cached integrity hash only.\<close>

lemma sample_hash_bytes:
  "\<exists>bs. instance_hash_bytes x0 (instance0\<lparr>pi_state := PS_Terminated at, pi_integrity_hash := ih\<rparr>) = Inr bs \<and> length bs < 1000"
  "\<exists>bs. instance_hash_bytes x0 (instance0\<lparr>pi_integrity_hash := ih\<rparr>) = Inr bs \<and> length bs < 1000"
  by (simp_all add: instance_hash_bytes_def instance0_def x0_def encode_session_stack_def
      encode_placeholders_def checked_len_u32_def encode_uuid_def write_str_def write_bytes_def
      write_u8_def write_u32_def write_u64_def write_option_def write_seq_def write_bytes_fixed_def
      bt_entries_simps hash0_def)

theorem state_hash_pins_state_witness:
  "let e = envelope0 (persisted0 [] bt_empty);
       f = envelope0 ((persisted0 [] bt_empty)\<lparr>ps_instance := instance0\<lparr>pi_integrity_hash := Some hash0\<rparr>\<rparr>)
   in (\<exists>h. state_hash x0 e = Inr h \<and> state_hash x0 f = Inr h)
    \<and> (same_hashed_state x0 (se_state e) (se_state f)
       \<or> (\<exists>a b. hash_input x0 e = Inr a \<and> hash_input x0 f = Inr b \<and> a \<noteq> b \<and> x_blake3 x0 a = x_blake3 x0 b))"
proof -
  let ?p = "persisted0 [] bt_empty"
  let ?q = "?p\<lparr>ps_instance := instance0\<lparr>pi_integrity_hash := Some hash0\<rparr>\<rparr>"
  have same: "instance_hash_bytes x0 (instance0\<lparr>pi_integrity_hash := ih\<rparr>) = instance_hash_bytes x0 instance0" for ih
    by (simp add: instance_hash_bytes_def)
  obtain bs where bs: "instance_hash_bytes x0 instance0 = Inr bs" "length bs < 1000"
    using sample_hash_bytes(2) [of None] same by auto
  have views: "number_views x0" by (simp add: number_views_def x0_def)
  have ok: "persisted_ok x0 ?p" "persisted_ok x0 ?q"
    using bs same
    by (simp_all add: persisted_ok_def instance_ok_def session_ok_def flags_ok_def str_ok_def table_ok_def ct_wf_def
        sample_eval hash0_def bs_list_def bs_of_list_def in_range_def)
  have "hash_input x0 (envelope0 ?q) = hash_input x0 (envelope0 ?p)"
    using same by (simp add: hash_input_def state_hash_bytes_def envelope0_def snapshot_envelope_new_def persisted0_def)
  moreover obtain h where h: "state_hash x0 (envelope0 ?p) = Inr h"
    using bs by (simp add: state_hash_def hash_input_def state_hash_bytes_def envelope0_def
        snapshot_envelope_new_def persisted0_def)
  ultimately have h': "state_hash x0 (envelope0 ?q) = Inr h" by (simp add: state_hash_def)
  have "se_state (envelope0 p) = p" for p by (simp add: envelope0_def snapshot_envelope_new_def)
  with state_hash_pins_state [OF views _ _ h h'] ok h h' show ?thesis by (auto simp: Let_def)
qed

section \<open>Identity\<close>

text \<open>
  C21. No command changes who an instance is: an accepted transition keeps the instance id, the
  tenant, the process key, the bytecode version, the correlation id, the entry and runbook ids,
  the creation time and the quarantine mark.
\<close>

theorem command_keeps_identity:
  assumes "apply_command x w s cmd cx = Inr t"
  shows "identity (tr_next_snapshot t) = identity (sn_instance s)"
proof -
  from assms obtain t' c where "dispatch x w s cmd cx = Inr t'" "t = with_command_envelope c t'"
    by (rule apply_commandE)
  then show ?thesis
    using dispatch_identity [of x w s cmd cx t'] by (simp add: with_command_envelope_def)
qed

theorem command_keeps_identity_witness:
  "\<exists>t. apply_command x0 (workflow0 prog_wait) (snapshot0 [fiber7] bt_empty) (Cmd_Tick (Some 7)) cx0 = Inr t
     \<and> identity (tr_next_snapshot t) = identity instance0"
proof -
  obtain t where t: "apply_command x0 (workflow0 prog_wait) (snapshot0 [fiber7] bt_empty) (Cmd_Tick (Some 7)) cx0 = Inr t"
    by (simp add: sample_eval)
  from command_keeps_identity [OF this] t show ?thesis by (simp add: snapshot0_def)
qed

section \<open>Replay\<close>

text \<open>
  C22. Replay accepts exactly the journals that agree with a run of the kernel: a journal tail
  replays on a checkpoint to an envelope if and only if the checkpoint is of this artifact and there
  is a run of accepted commands from it to that envelope that the records agree with in what
  replay reads of them: the artifact hash, both revisions, the kernel command with its id and
  logical time, and the hash of the state it leaves (\<open>recorded\<close>). The rest of a record is not read:
  with any other prior state hashes, events and effect ids the journal replays to the same result,
  envelope or error.
\<close>

theorem replay_accepts_runs:
  "(replay x w checkpoint journal_tail = Inr e \<longleftrightarrow>
      pi_bytecode_version (ps_instance (se_state checkpoint)) = wf_hash w
      \<and> se_artifact_abi checkpoint = ae_abi_version (wf_envelope w) \<and> runs x w checkpoint journal_tail e)
   \<and> replay x w checkpoint (map (\<lambda>rc. rc\<lparr>jr_prior_state_hash := prior rc, jr_event_envelopes := events rc,
        jr_effect_ids := effects rc\<rparr>) journal_tail) = replay x w checkpoint journal_tail"
  by (intro conjI replay_iff replay_unread)

text \<open>The sample journal: one record of a termination.\<close>

lemma sample_replay:
  obtains e h where "replay x0 (workflow0 []) (envelope0 (persisted0 [] bt_empty)) [record0 Cmd_Terminate h] = Inr e"
proof -
  let ?p = "persisted0 [] bt_empty"
  let ?w = "workflow0 []"
  obtain t where t: "apply_command x0 ?w (to_runtime_snapshot ?p) Cmd_Terminate cx0 = Inr t"
    "tr_next_snapshot t = instance0\<lparr>pi_state := PS_Terminated 5\<rparr>" "tr_state_override t = None"
    by (simp add: sample_eval to_runtime_snapshot_def apply_terminate_def retire_all_eq
        armed_record_ids_in_transition_def full_cleanup_def builder_defs transition_new_def
        with_command_envelope_def effective_state_def)
  let ?e = "materialize_snapshot ?p t 1 1"
  have "ps_instance (se_state ?e) = instance0\<lparr>pi_state := PS_Terminated 5, pi_integrity_hash := None\<rparr>"
    using t(2,3) by (simp add: materialize_snapshot_def snapshot_envelope_new_def persisted_new_def Let_def)
  then obtain h where "state_hash x0 ?e = Inr h"
    using sample_hash_bytes(1) [where at = 5 and ih = None] by (auto simp: state_hash_def hash_input_def state_hash_bytes_def)
  then have "replay x0 ?w (envelope0 ?p) [record0 Cmd_Terminate h] = Inr ?e"
    using t(1)
    by (simp add: replay_def replay_record_def envelope0_def snapshot_envelope_new_def record0_def
        journal_record_new_def command_envelope_new_def workflow0_def i64_try_from_def u64_try_from_def
        persisted0_def instance0_def sat_add_def cx0_def Let_def)
  with that show thesis by blast
qed

text \<open>
  C23. A replayed journal has no gap: record \<open>i\<close> carries the revision of the checkpoint plus
  \<open>i + 1\<close>, and the result has the revision of the checkpoint plus the number of records.
\<close>

theorem replay_is_gapless:
  assumes "replay x w checkpoint journal_tail = Inr e"
  shows "unat (se_revision e) = unat (se_revision checkpoint) + length journal_tail
    \<and> (\<forall>i < length journal_tail.
         unat (jr_new_revision (journal_tail ! i)) = unat (se_revision checkpoint) + Suc i)"
  using assms runs_revision runs_numbered by (auto simp: replay_iff)

theorem replay_is_gapless_witness:
  "\<exists>e h. replay x0 (workflow0 []) (envelope0 (persisted0 [] bt_empty)) [record0 Cmd_Terminate h] = Inr e
     \<and> unat (se_revision e) = 1"
proof (rule sample_replay)
  fix e h assume e: "replay x0 (workflow0 []) (envelope0 (persisted0 [] bt_empty)) [record0 Cmd_Terminate h] = Inr e"
  from replay_is_gapless [OF e] have "unat (se_revision e) = 1"
    by (simp add: envelope0_def snapshot_envelope_new_def)
  with e show ?thesis by blast
qed

lemma step_frame:
  assumes "kernel_step x w e cmd cx e'" and "fibers_wf (ps_fibers (se_state e))"
  shows "fibers_wf (ps_fibers (se_state e'))"
    and "frame_ok (ps_fibers (se_state e')) (ps_concurrency_table (se_state e')) (pi_state (ps_instance (se_state e')))"
proof -
  from assms(1) obtain t where t: "apply_command x w (to_runtime_snapshot (se_state e)) cmd cx = Inr t"
    and e': "e' = materialize_snapshot (se_state e) t (ae_abi_version (wf_envelope w)) (se_revision e + 1)"
    by (auto simp: kernel_step_iff)
  show "frame_ok (ps_fibers (se_state e')) (ps_concurrency_table (se_state e')) (pi_state (ps_instance (se_state e')))"
    using accepted_frame [OF assms(2) t e'] by simp
  have "ps_fibers (se_state e') = fst (derive_post_transition_frame (to_runtime_snapshot (se_state e)) t)"
    using materialize_frame [OF assms(2), of t "ae_abi_version (wf_envelope w)" "se_revision e + 1"] e'
    by (metis fst_conv)
  then show "fibers_wf (ps_fibers (se_state e'))"
    using assms(2)
    by (simp add: derive_post_transition_frame_def to_runtime_snapshot_def key_fibers_values fibers_wf_deltas)
qed

lemma runs_frame:
  "runs x w e rcs e' \<Longrightarrow> fibers_wf (ps_fibers (se_state e)) \<Longrightarrow> rcs \<noteq> [] \<Longrightarrow>
     frame_ok (ps_fibers (se_state e')) (ps_concurrency_table (se_state e')) (pi_state (ps_instance (se_state e')))"
proof (induction rule: runs.induct)
  case (more e cmd cx e' rc rcs e'')
  then show ?case
    using step_frame [OF more(1)] by (cases "rcs = []") (auto elim: runs_nilE)
qed simp

text \<open>
  C24. A replayed state is a legal frame: after at least one replayed record the fibers and the
  concurrency table satisfy K-1, K-2 and K-3, every armed barrier can still be satisfied, no two
  fibers wait on one effect, and only a terminal instance has no fiber; and the state hash of the
  result is the one of the last record.
\<close>

theorem replayed_state_is_legal:
  assumes "fibers_wf (ps_fibers (se_state checkpoint))" and "journal_tail \<noteq> []"
    and "replay x w checkpoint journal_tail = Inr e"
  shows "frame_ok (ps_fibers (se_state e)) (ps_concurrency_table (se_state e)) (pi_state (ps_instance (se_state e)))
    \<and> state_hash x e = Inr (jr_state_hash (last journal_tail))"
  using assms runs_frame runs_last_hash by (auto simp: replay_iff)

theorem replayed_state_is_legal_witness:
  "\<exists>e h. replay x0 (workflow0 []) (envelope0 (persisted0 [] bt_empty)) [record0 Cmd_Terminate h] = Inr e
     \<and> state_hash x0 e = Inr h"
proof (rule sample_replay)
  fix e h assume e: "replay x0 (workflow0 []) (envelope0 (persisted0 [] bt_empty)) [record0 Cmd_Terminate h] = Inr e"
  have "fibers_wf (ps_fibers (se_state (envelope0 (persisted0 [] bt_empty))))"
    by (simp add: envelope0_def snapshot_envelope_new_def fibers_wf_def sample_eval)
  from replayed_state_is_legal [OF this _ e] have "state_hash x0 e = Inr h"
    by (simp add: record0_def journal_record_new_def)
  with e show ?thesis by blast
qed

lemma step_version:
  assumes "kernel_step x w e cmd cx e'"
  shows "pi_bytecode_version (ps_instance (se_state e')) = pi_bytecode_version (ps_instance (se_state e))"
proof -
  from assms obtain t where t: "apply_command x w (to_runtime_snapshot (se_state e)) cmd cx = Inr t"
    and e': "e' = materialize_snapshot (se_state e) t (ae_abi_version (wf_envelope w)) (se_revision e + 1)"
    by (auto simp: kernel_step_iff)
  from t obtain t' c where "dispatch x w (to_runtime_snapshot (se_state e)) cmd cx = Inr t'"
    "t = with_command_envelope c t'"
    by (rule apply_commandE)
  then show ?thesis
    using dispatch_identity [of x w "to_runtime_snapshot (se_state e)" cmd cx t']
    by (simp add: e' materialize_header with_command_envelope_def identity_def to_runtime_snapshot_def)
qed

lemma runs_version:
  "runs x w e rcs e' \<Longrightarrow> pi_bytecode_version (ps_instance (se_state e')) = pi_bytecode_version (ps_instance (se_state e))
     \<and> (se_artifact_abi e = ae_abi_version (wf_envelope w) \<longrightarrow> se_artifact_abi e' = ae_abi_version (wf_envelope w))"
  by (induction rule: runs.induct) (auto dest: step_version step_revision)

text \<open>
  A checkpoint may be taken anywhere: replaying a journal in one go and replaying its first
  part, persisting the result as the new checkpoint, and replaying the rest on it give the same
  envelope or fail together.
\<close>

lemma replay_from_any_checkpoint:
  "replay x w checkpoint (first_part @ rest) = Inr e \<longleftrightarrow>
     (\<exists>middle. replay x w checkpoint first_part = Inr middle \<and> replay x w middle rest = Inr e)"
  using runs_version by (fastforce simp: replay_iff runs_append)

end
