(* ===== verification/DataTheorems.thy ===== *)
theory DataTheorems
  imports KernelTheorems
begin

text \<open>
  The properties of the data layer the kernel stands on: array limits, JSON paths of bindings, job
  keys, the structural validation of concurrency mutations, and reading a record in the middle of
  a transition.
\<close>

section \<open>Limits of values\<close>

text \<open>
  The array limits are exact: a value is accepted if and only if its arrays nest at most
  \<open>MAX_VALUE_ARRAY_DEPTH\<close> deep and none of them, at any depth, is longer than
  \<open>MAX_VALUE_ARRAY_LEN\<close>.
\<close>

lemma array_limits_exact:
  "check_array_limits v = Inr () \<longleftrightarrow>
     array_depth v \<le> MAX_VALUE_ARRAY_DEPTH \<and> max_array_len v \<le> MAX_VALUE_ARRAY_LEN"
  using check_limits_char(1) [of 0 v] by (simp add: check_array_limits_def)

section \<open>Bindings\<close>

text \<open>
  An output binding writes its own path and nothing else: after \<open>write_json_path\<close> the path
  reads back the value written, and every path that branches off from it reads as before.
\<close>

lemma json_path_write_is_local:
  assumes "write_json_path root path v = Inr root'" and "path_diverges path other"
  shows "read_json_path root' path = Some v \<and> read_json_path root' other = read_json_path root other"
  using read_write_json_path [OF assms(1)] read_write_json_path_other [OF assms] by blast

section \<open>Job keys\<close>

lemma split_at_last:
  assumes "c \<notin> set ds" and "c \<notin> set es" and "a @ c # ds = b @ c # es"
  shows "a = b \<and> ds = es"
  using assms by (auto simp: append_eq_append_conv2 append_eq_Cons_conv Cons_eq_append_conv)

lemma dec_u_no_colon: "CHR '':'' \<notin> set (dec_u k)"
proof -
  have "list_all is_digit (dec_u k)" by (simp add: dec_u_def dec_nat_digits)
  then show ?thesis by (auto simp: list_all_iff is_digit_def)
qed

text \<open>
  Within one instance a job key names its task, its address and its loop epoch: two
  activations share a key only if they agree on all three.
\<close>

lemma job_key_names_activation:
  assumes "job_key_of x i task a epoch = job_key_of x i task' a' epoch'"
  shows "task = task' \<and> a = a' \<and> epoch = epoch'"
proof -
  let ?u = "x_uuid_string x i @ '':''"
  from assms have "((?u @ task) @ CHR '':'' # dec_u a) @ CHR '':'' # dec_u epoch =
      ((?u @ task') @ CHR '':'' # dec_u a') @ CHR '':'' # dec_u epoch'"
    by (simp add: job_key_of_def)
  from split_at_last [OF dec_u_no_colon dec_u_no_colon this]
  have rest: "(?u @ task) @ CHR '':'' # dec_u a = (?u @ task') @ CHR '':'' # dec_u a'"
    and epoch: "dec_u epoch = dec_u epoch'" by blast+
  from split_at_last [OF dec_u_no_colon dec_u_no_colon rest] epoch show ?thesis
    by (simp add: dec_u_inject)
qed

section \<open>Concurrency mutations\<close>

lemma mutation_keeps_shapes:
  assumes "mutations_ok table [m]" and "\<And>i r. ct_get table i = Some r \<Longrightarrow> record_shape_ok r"
    and "ct_get (apply_concurrency_mutation m table) i = Some r"
  shows "record_shape_ok r"
proof (cases m)
  case (CM_Retire j)
  have "record_shape_ok (q\<lparr>rec_state := st\<rparr>) = record_shape_ok q" for q st
    by (cases "rec_kind q") (simp_all add: record_shape_ok_def rollback_fields_present_def)
  with CM_Retire assms show ?thesis by (auto simp: btree_simps split: if_splits)
qed (use assms in \<open>auto simp: btree_simps split: if_splits\<close>)

lemma mutations_keep_shapes:
  "mutations_ok table ms \<Longrightarrow> (\<And>i r. ct_get table i = Some r \<Longrightarrow> record_shape_ok r) \<Longrightarrow>
     ct_get (fold_mutations ms table) i = Some r \<Longrightarrow> record_shape_ok r"
proof (induction ms arbitrary: table)
  case (Cons m ms)
  from Cons.prems(1) have ok: "mutations_ok table [m]" "mutations_ok (apply_concurrency_mutation m table) ms"
    by simp_all
  from Cons.IH [OF ok(2) mutation_keeps_shapes [OF ok(1) Cons.prems(2)]] Cons.prems(3)
  show ?case by simp
qed simp

text \<open>
  C40. A validated batch of concurrency mutations keeps the table well shaped: if every record of
  the table has an accepted shape and the batch passes \<open>validate_mutations\<close>, every record has one
  after the batch is applied, and records stay under their own handles.
\<close>

theorem validated_batch_keeps_shapes:
  assumes "ct_wf table" and "\<And>i r. ct_get table i = Some r \<Longrightarrow> validate_concurrency_record_shape r = Inr ()"
    and "validate_mutations table ms = Inr ()"
  shows "ct_wf (fold_mutations ms table)
    \<and> (\<forall>i r. ct_get (fold_mutations ms table) i = Some r \<longrightarrow> validate_concurrency_record_shape r = Inr ())"
  using assms mutations_keep_shapes
  unfolding validate_shape_iff validate_mutations_iff by (blast intro: ct_wf_fold)

theorem validated_batch_keeps_shapes_witness:
  "validate_mutations bt_empty [CM_Insert guard20, CM_Retire 20] = Inr ()
    \<and> ct_get (fold_mutations [CM_Insert guard20, CM_Retire 20] bt_empty) 20 = Some (guard20\<lparr>rec_state := Retired\<rparr>)
    \<and> validate_concurrency_record_shape (guard20\<lparr>rec_state := Retired\<rparr>) = Inr ()"
proof -
  have g: "record_shape_ok guard20" "rec_id guard20 = 20"
    by (simp_all add: record_shape_ok_def rollback_fields_present_def guard20_def guard_record_def record_new_def)
  have ok: "validate_mutations bt_empty [CM_Insert guard20, CM_Retire 20] = Inr ()"
    using g unfolding validate_mutations_iff by (simp add: btree_simps)
  moreover have "ct_wf bt_empty" "ct_get bt_empty i = Some r \<Longrightarrow> validate_concurrency_record_shape r = Inr ()" for i r
    by (simp_all add: ct_wf_def ct_get_def bt_entries_simps)
  moreover have "ct_get (fold_mutations [CM_Insert guard20, CM_Retire 20] bt_empty) 20 = Some (guard20\<lparr>rec_state := Retired\<rparr>)"
    using g(2) by (simp add: ct_insert_def ct_retire_def ct_get_def btree_simps)
  ultimately show ?thesis using validated_batch_keeps_shapes [OF _ _ ok] by blast
qed

text \<open>
  Reading a record in the middle of a transition agrees with the table the transition will
  leave: an armed record is read exactly when it is the armed record of that table.
\<close>

lemma fetch_agrees_with_staged_table:
  "fetch_record_in_transition s ch h = Some r \<and> rec_state r = Armed \<longleftrightarrow>
     armed_at (fold_mutations (ch_concurrency_mutations ch) (sn_concurrency_table s)) h r"
  using fetch_staged [where s = s and ch = ch and h = h and r = r]
    fetch_armed [where s = s and ch = ch and h = h and r = r] by (auto simp: armed_at_def)

end
