(* ===== verification/Worklist.thy ===== *)
theory Worklist
  imports Btree
begin

text \<open>
  The worklist walk that the artifact verifier runs four times (operand heights, control stacks,
  forward and reverse reachability): a map of entry states by address, a queue, and a rule that
  an address reached again must be reached with the same state. The walk takes fuel; the locale
  shows that one visit per address is enough, and that the map it returns is the least
  assignment of states that contains the roots and is closed under the edges.
\<close>

section \<open>The walk\<close>

definition flow_propagate ::
  "(nat \<Rightarrow> nat \<Rightarrow> 's \<Rightarrow> 's \<Rightarrow> 'e) \<Rightarrow> nat \<Rightarrow> nat \<times> 's \<Rightarrow> (nat, 's) btree \<times> nat list
     \<Rightarrow> 'e + (nat, 's) btree \<times> nat list" where
  "flow_propagate conflict at_address = (\<lambda>(a, st) (entries, queue).
     case bt_get entries a of
       Some existing \<Rightarrow>
         if existing \<noteq> st then Inl (conflict at_address a existing st) else Inr (entries, queue)
     | None \<Rightarrow> Inr (bt_insert a st entries, queue @ [a]))"

text \<open>What an address emits, in order: edges to propagate along, or the error that rejects it.\<close>

definition flow_emit ::
  "(nat \<Rightarrow> nat \<Rightarrow> 's \<Rightarrow> 's \<Rightarrow> 'e) \<Rightarrow> nat \<Rightarrow> ('e + nat \<times> 's) list
     \<Rightarrow> (nat, 's) btree \<times> nat list \<Rightarrow> 'e + (nat, 's) btree \<times> nat list" where
  "flow_emit conflict at_address items =
     fold_res (\<lambda>item acc. try_res item (\<lambda>edge. flow_propagate conflict at_address edge acc)) items"

fun flow_loop ::
  "nat \<Rightarrow> (nat \<Rightarrow> 's \<Rightarrow> ('e + nat \<times> 's) list) \<Rightarrow> (nat \<Rightarrow> nat \<Rightarrow> 's \<Rightarrow> 's \<Rightarrow> 'e) \<Rightarrow> (nat \<Rightarrow> 'e)
     \<Rightarrow> (nat \<Rightarrow> 's \<Rightarrow> 'a \<Rightarrow> 'a) \<Rightarrow> (nat, 's) btree \<Rightarrow> nat list \<Rightarrow> 'a
     \<Rightarrow> ('e + (nat, 's) btree \<times> 'a) option" where
  "flow_loop fuel emit conflict missing account entries [] acc = Some (Inr (entries, acc))"
| "flow_loop 0 emit conflict missing account entries (a # queue) acc = None"
| "flow_loop (Suc fuel) emit conflict missing account entries (a # queue) acc =
     (case bt_get entries a of
        None \<Rightarrow> Some (Inl (missing a))
      | Some st \<Rightarrow>
          (case flow_emit conflict a (emit a st) (entries, queue) of
             Inl e \<Rightarrow> Some (Inl e)
           | Inr (entries', queue') \<Rightarrow>
               flow_loop fuel emit conflict missing account entries' queue' (account a st acc)))"

text \<open>The entry map of a list of roots that all start in one state.\<close>

definition flow_roots :: "'s \<Rightarrow> nat list \<Rightarrow> (nat, 's) btree" where
  "flow_roots st roots = fold (\<lambda>a. bt_insert a st) roots bt_empty"

lemma flow_roots_get: "bt_get (flow_roots st roots) a = (if a \<in> set roots then Some st else None)"
proof -
  have "bt_get (fold (\<lambda>a. bt_insert a st) roots m) a = (if a \<in> set roots then Some st else bt_get m a)" for m
    by (induction roots arbitrary: m) (auto simp: bt_get_insert)
  then show ?thesis by (simp add: flow_roots_def)
qed

section \<open>Closed assignments\<close>

text \<open>\<open>M\<close> contains the roots, and whatever an assigned address emits is an edge to an address
  that \<open>M\<close> assigns that state.\<close>

definition flow_closed :: "(nat \<Rightarrow> 's \<Rightarrow> ('e + nat \<times> 's) list) \<Rightarrow> (nat \<Rightarrow> 's option) \<Rightarrow> bool" where
  "flow_closed emit M \<longleftrightarrow>
     (\<forall>a st. M a = Some st \<longrightarrow> (\<forall>item \<in> set (emit a st). \<exists>a' st'. item = Inr (a', st') \<and> M a' = Some st'))"

inductive flow_reach ::
  "(nat \<Rightarrow> 's \<Rightarrow> ('e + nat \<times> 's) list) \<Rightarrow> (nat \<times> 's) set \<Rightarrow> nat \<Rightarrow> 's \<Rightarrow> bool"
  for emit roots where
  root: "(a, st) \<in> roots \<Longrightarrow> flow_reach emit roots a st"
| edge: "flow_reach emit roots a st \<Longrightarrow> Inr (a', st') \<in> set (emit a st) \<Longrightarrow> flow_reach emit roots a' st'"

lemma map_le_Some: "m \<subseteq>\<^sub>m n \<Longrightarrow> m a = Some v \<Longrightarrow> n a = Some v"
  unfolding map_le_def by (metis domI)

lemma flow_propagate_Inr:
  assumes "flow_propagate conflict at_address (a, st) (entries, queue) = Inr (entries', queue')"
  shows "bt_get entries' = (bt_get entries)(a \<mapsto> st)"
    and "bt_get entries a = None \<and> queue' = queue @ [a] \<or> bt_get entries a = Some st \<and> queue' = queue"
  using assms
  by (auto simp: flow_propagate_def bt_get_insert fun_eq_iff split: option.splits if_splits)

lemma flow_emit_Inr:
  "flow_emit conflict at_address items (entries, queue) = Inr (entries', queue') \<Longrightarrow>
     (\<exists>new. queue' = queue @ new \<and> distinct new \<and> set new = dom (bt_get entries') - dom (bt_get entries))
     \<and> bt_get entries \<subseteq>\<^sub>m bt_get entries'
     \<and> (\<forall>item \<in> set items. \<exists>a st. item = Inr (a, st) \<and> bt_get entries' a = Some st)
     \<and> (\<forall>a st. bt_get entries' a = Some st \<longrightarrow> bt_get entries a = Some st \<or> Inr (a, st) \<in> set items)"
proof (induction items arbitrary: entries queue)
  case Nil
  then show ?case by (simp add: flow_emit_def)
next
  case (Cons item items)
  then obtain a st e q where item: "item = Inr (a, st)"
    and p: "flow_propagate conflict at_address (a, st) (entries, queue) = Inr (e, q)"
    and rest: "flow_emit conflict at_address items (e, q) = Inr (entries', queue')"
    by (auto simp: flow_emit_def res_simps)
  note e = flow_propagate_Inr [OF p]
  from Cons.IH [OF rest] obtain new where new: "queue' = q @ new" "distinct new"
      "set new = dom (bt_get entries') - dom (bt_get e)"
    and sub: "bt_get e \<subseteq>\<^sub>m bt_get entries'"
    and items: "\<forall>item \<in> set items. \<exists>a st. item = Inr (a, st) \<and> bt_get entries' a = Some st"
    and origin: "\<forall>a st. bt_get entries' a = Some st \<longrightarrow> bt_get e a = Some st \<or> Inr (a, st) \<in> set items"
    by blast
  have sub': "bt_get entries \<subseteq>\<^sub>m bt_get e"
    using e by (auto simp: map_le_def)
  have here: "bt_get entries' a = Some st"
    using e(1) sub by (simp add: map_le_def domIff)
  have queue: "\<exists>new. queue' = queue @ new \<and> distinct new \<and> set new = dom (bt_get entries') - dom (bt_get entries)"
    using e(2)
  proof
    assume fresh: "bt_get entries a = None \<and> q = queue @ [a]"
    then have "set (a # new) = dom (bt_get entries') - dom (bt_get entries)"
      using new(3) e(1) here by auto
    moreover have "distinct (a # new)" using new e(1) by auto
    ultimately show ?thesis using fresh new(1) by (intro exI [of _ "a # new"]) simp
  next
    assume same: "bt_get entries a = Some st \<and> q = queue"
    then have "bt_get e = bt_get entries" using e(1) by (simp add: map_upd_triv)
    then show ?thesis using same new by auto
  qed
  have "bt_get entries a' = Some st' \<or> Inr (a', st') \<in> set (item # items)" if "bt_get entries' a' = Some st'" for a' st'
    using origin [rule_format, OF that] that here e(1) item by (cases "a' = a") auto
  then show ?case
    using queue map_le_trans [OF sub' sub] items here item by simp
qed

lemma flow_emit_accepts:
  assumes "\<forall>item \<in> set items. \<exists>a st. item = Inr (a, st) \<and> M a = Some st" and "bt_get entries \<subseteq>\<^sub>m M"
  shows "\<exists>entries' queue'. flow_emit conflict at_address items (entries, queue) = Inr (entries', queue')
    \<and> bt_get entries' \<subseteq>\<^sub>m M"
  using assms
proof (induction items arbitrary: entries queue)
  case Nil
  then show ?case by (simp add: flow_emit_def)
next
  case (Cons item items)
  then obtain a st where item: "item = Inr (a, st)" "M a = Some st" by auto
  have "\<exists>e q. flow_propagate conflict at_address (a, st) (entries, queue) = Inr (e, q) \<and> bt_get e \<subseteq>\<^sub>m M"
  proof (cases "bt_get entries a")
    case None
    then show ?thesis
      using Cons.prems(2) item(2) by (auto simp: flow_propagate_def bt_get_insert map_le_def)
  next
    case (Some st')
    then have "st' = st" using map_le_Some [OF Cons.prems(2) Some] item(2) by simp
    then show ?thesis using Some Cons.prems(2) by (simp add: flow_propagate_def)
  qed
  then obtain e q where "flow_propagate conflict at_address (a, st) (entries, queue) = Inr (e, q)" "bt_get e \<subseteq>\<^sub>m M"
    by blast
  with Cons.IH [of e q] Cons.prems(1) item(1) show ?case by (simp add: flow_emit_def)
qed


lemma flow_emit_Inl:
  "flow_emit conflict a items acc = Inl e \<Longrightarrow> Inl e \<in> set items \<or> (\<exists>b s s'. e = conflict a b s s')"
proof (induction items arbitrary: acc)
  case (Cons item items)
  obtain entries queue where acc: "acc = (entries, queue)" by fastforce
  show ?case
  proof (cases item)
    case (Inr edge)
    obtain b s where edge: "edge = (b, s)" by fastforce
    show ?thesis
    proof (cases "flow_propagate conflict a edge acc")
      case (Inl e')
      then show ?thesis
        using Cons.prems Inr by (auto simp: flow_emit_def acc edge flow_propagate_def split: option.splits if_splits)
    next
      case (Inr acc')
      then show ?thesis
        using Cons.prems Cons.IH [of acc'] \<open>item = Inr edge\<close> by (auto simp: flow_emit_def)
    qed
  qed (use Cons.prems in \<open>simp add: flow_emit_def\<close>)
qed (simp add: flow_emit_def)

text \<open>Where an error of the walk comes from.\<close>

lemma flow_loop_Inl:
  "flow_loop fuel emit conflict missing account entries queue acc = Some (Inl e) \<Longrightarrow>
     (\<exists>a st. Inl e \<in> set (emit a st)) \<or> (\<exists>a b s s'. e = conflict a b s s') \<or> (\<exists>a. e = missing a)"
proof (induction fuel arbitrary: entries queue acc)
  case 0
  then show ?case by (cases queue) auto
next
  case (Suc fuel)
  show ?case
  proof (cases queue)
    case (Cons a rest)
    show ?thesis
    proof (cases "bt_get entries a")
      case (Some st)
      show ?thesis
      proof (cases "flow_emit conflict a (emit a st) (entries, rest)")
        case (Inl e')
        then show ?thesis
          using Suc.prems flow_emit_Inl [OF Inl] by (auto simp: Cons Some)
      next
        case (Inr p)
        then show ?thesis
          using Suc.prems Suc.IH by (cases p) (simp add: Cons Some)
      qed
    qed (use Suc.prems in \<open>auto simp: Cons\<close>)
  qed (use Suc.prems in simp)
qed

section \<open>The walk computes the least closed assignment\<close>

text \<open>
  The contract of a verifier walk over \<open>len\<close> instructions: an address outside the program emits
  an error first, so that no walk goes beyond it.
\<close>

locale flow =
  fixes emit :: "nat \<Rightarrow> 's \<Rightarrow> ('e + nat \<times> 's) list"
    and conflict :: "nat \<Rightarrow> nat \<Rightarrow> 's \<Rightarrow> 's \<Rightarrow> 'e"
    and missing :: "nat \<Rightarrow> 'e"
    and account :: "nat \<Rightarrow> 's \<Rightarrow> 'a \<Rightarrow> 'a"
    and len :: nat
  assumes outside: "len \<le> a \<Longrightarrow> \<exists>e items. emit a st = Inl e # items"
begin

definition walk_inv :: "(nat \<times> 's) set \<Rightarrow> (nat, 's) btree \<Rightarrow> nat list \<Rightarrow> nat list \<Rightarrow> bool" where
  "walk_inv roots entries queue visited \<longleftrightarrow>
     distinct (visited @ queue) \<and> set (visited @ queue) = dom (bt_get entries)
     \<and> set visited \<subseteq> {..<len}
     \<and> (\<forall>(a, st) \<in> roots. bt_get entries a = Some st)
     \<and> (\<forall>a st. bt_get entries a = Some st \<longrightarrow> flow_reach emit roots a st)
     \<and> (\<forall>a st. a \<in> set visited \<and> bt_get entries a = Some st \<longrightarrow>
          (\<forall>item \<in> set (emit a st). \<exists>a' st'. item = Inr (a', st') \<and> bt_get entries a' = Some st'))"

lemma inside: "flow_emit conflict a (emit a st) (entries, queue) = Inr p \<Longrightarrow> a < len"
  using outside [of a st] by (cases "a < len") (auto simp: flow_emit_def res_simps)

lemma walk_inv_step:
  assumes inv: "walk_inv roots entries (a # queue) visited" and st: "bt_get entries a = Some st"
    and step: "flow_emit conflict a (emit a st) (entries, queue) = Inr (entries', queue')"
  shows "walk_inv roots entries' queue' (visited @ [a])"
proof -
  from flow_emit_Inr [OF step] obtain new where new: "queue' = queue @ new" "distinct new"
      "set new = dom (bt_get entries') - dom (bt_get entries)"
    and sub: "bt_get entries \<subseteq>\<^sub>m bt_get entries'"
    and items: "\<forall>item \<in> set (emit a st). \<exists>a st. item = Inr (a, st) \<and> bt_get entries' a = Some st"
    and origin: "\<forall>a' st'. bt_get entries' a' = Some st' \<longrightarrow>
      bt_get entries a' = Some st' \<or> Inr (a', st') \<in> set (emit a st)"
    by blast
  have keep: "bt_get entries a' = Some st' \<Longrightarrow> bt_get entries' a' = Some st'" for a' st'
    using map_le_Some [OF sub] by blast
  have dom: "dom (bt_get entries) = set (visited @ a # queue)" "distinct (visited @ a # queue)"
    using inv by (simp_all add: walk_inv_def)
  have all: "set ((visited @ [a]) @ queue') = dom (bt_get entries')"
    using new dom(1) map_le_implies_dom_le [OF sub] by auto
  have dist: "distinct ((visited @ [a]) @ queue')"
    using new dom by auto
  have reach: "flow_reach emit roots a' st'" if "bt_get entries' a' = Some st'" for a' st'
    using origin [rule_format, OF that] inv st flow_reach.edge [of emit roots a st a' st']
    unfolding walk_inv_def by blast
  have closed: "\<exists>a'' st''. item = Inr (a'', st'') \<and> bt_get entries' a'' = Some st''"
    if at: "a' \<in> set (visited @ [a])" "bt_get entries' a' = Some st'" "item \<in> set (emit a' st')" for a' st' item
  proof (cases "a' = a")
    case True
    then show ?thesis using at keep [OF st] items by auto
  next
    case False
    then have v: "a' \<in> set visited" using at(1) by simp
    then obtain st0 where "bt_get entries a' = Some st0" using dom(1) by (auto simp: dom_def set_eq_iff)
    then have "bt_get entries a' = Some st'" using keep at(2) by fastforce
    then obtain a'' st'' where "item = Inr (a'', st'')" "bt_get entries a'' = Some st''"
      using inv v at(3) unfolding walk_inv_def by blast
    then show ?thesis using keep by blast
  qed
  show ?thesis
    unfolding walk_inv_def
  proof (intro conjI)
    show "set (visited @ [a]) \<subseteq> {..<len}" using inside [OF step] inv by (simp add: walk_inv_def)
    show "\<forall>(a, st) \<in> roots. bt_get entries' a = Some st" using inv keep by (auto simp: walk_inv_def)
  qed (use dist all reach closed in \<open>simp_all only:, blast+\<close>)
qed

lemma flow_loop_Inr:
  "walk_inv roots entries queue visited \<Longrightarrow>
   flow_loop fuel emit conflict missing account entries queue acc = Some (Inr (entries', acc')) \<Longrightarrow>
     \<exists>log. walk_inv roots entries' [] (visited @ map fst log)
       \<and> (\<forall>(a, st) \<in> set log. bt_get entries' a = Some st)
       \<and> acc' = fold (\<lambda>(a, st). account a st) log acc \<and> bt_get entries \<subseteq>\<^sub>m bt_get entries'"
proof (induction fuel arbitrary: entries queue acc visited)
  case 0
  then show ?case by (cases queue) (auto intro!: exI [of _ "[]"])
next
  case (Suc fuel)
  show ?case
  proof (cases queue)
    case Nil
    then show ?thesis using Suc.prems by (intro exI [of _ "[]"]) simp
  next
    case (Cons a rest)
    with Suc.prems(2) obtain st e q where st: "bt_get entries a = Some st"
      and step: "flow_emit conflict a (emit a st) (entries, rest) = Inr (e, q)"
      and loop: "flow_loop fuel emit conflict missing account e q (account a st acc) = Some (Inr (entries', acc'))"
      by (auto split: option.splits sum.splits)
    from Suc.IH [OF walk_inv_step [OF Suc.prems(1) [unfolded Cons] st step] loop]
    obtain log where log: "walk_inv roots entries' [] ((visited @ [a]) @ map fst log)"
        "\<forall>(a, st) \<in> set log. bt_get entries' a = Some st"
        "acc' = fold (\<lambda>(a, st). account a st) log (account a st acc)" "bt_get e \<subseteq>\<^sub>m bt_get entries'"
      by blast
    have sub: "bt_get entries \<subseteq>\<^sub>m bt_get entries'"
      using flow_emit_Inr [OF step] log(4) map_le_trans by blast
    show ?thesis
      using log sub map_le_Some [OF sub st] by (intro exI [of _ "(a, st) # log"]) simp
  qed
qed

lemma queued_entry:
  "walk_inv roots entries (a # queue) visited \<Longrightarrow> \<exists>st. bt_get entries a = Some st"
  by (auto simp: walk_inv_def dom_def set_eq_iff)

lemma visited_le_len: "walk_inv roots entries queue visited \<Longrightarrow> length visited \<le> len"
  using distinct_card [of visited] card_mono [of "{..<len}" "set visited"] by (simp add: walk_inv_def)

text \<open>A quantity that grows by at most one along an edge stays below the number of addresses.\<close>

lemma flow_loop_rank:
  assumes grows: "\<And>a st a' st'. Inr (a', st') \<in> set (emit a st) \<Longrightarrow> rank st' \<le> Suc (rank st)"
  shows "walk_inv roots entries queue visited \<Longrightarrow>
    (\<forall>a st. bt_get entries a = Some st \<longrightarrow> rank st \<le> length visited) \<Longrightarrow>
    flow_loop fuel emit conflict missing account entries queue acc = Some (Inr (entries', acc')) \<Longrightarrow>
    bt_get entries' a = Some st \<Longrightarrow> rank st \<le> len"
proof (induction fuel arbitrary: entries queue acc visited)
  case 0
  then show ?case using visited_le_len [of roots entries queue visited] by (cases queue) fastforce+
next
  case (Suc fuel)
  show ?case
  proof (cases queue)
    case Nil
    then show ?thesis using Suc.prems visited_le_len [of roots entries queue visited] by fastforce
  next
    case (Cons b rest)
    with Suc.prems(3) obtain st' e q where st': "bt_get entries b = Some st'"
      and step: "flow_emit conflict b (emit b st') (entries, rest) = Inr (e, q)"
      and loop: "flow_loop fuel emit conflict missing account e q (account b st' acc) = Some (Inr (entries', acc'))"
      by (auto split: option.splits sum.splits)
    have "rank st'' \<le> length (visited @ [b])" if at: "bt_get e a'' = Some st''" for a'' st''
    proof -
      have "bt_get entries a'' = Some st'' \<or> Inr (a'', st'') \<in> set (emit b st')"
        using flow_emit_Inr [OF step] at by blast
      then show ?thesis
        using Suc.prems(2) st' grows [of a'' st'' b st'] by fastforce
    qed
    then show ?thesis
      using Suc.IH [OF walk_inv_step [OF Suc.prems(1) [unfolded Cons] st' step] _ loop Suc.prems(4)] by blast
  qed
qed

lemma flow_loop_total:
  "walk_inv roots entries queue visited \<Longrightarrow> len < fuel + length visited \<Longrightarrow>
     flow_loop fuel emit conflict missing account entries queue acc \<noteq> None"
proof (induction fuel arbitrary: entries queue acc visited)
  case 0
  then show ?case using visited_le_len [OF "0.prems"(1)] by simp
next
  case (Suc fuel)
  show ?case
  proof (cases queue)
    case (Cons a rest)
    note inv = Suc.prems(1) [unfolded Cons]
    from queued_entry [OF inv] obtain st where st: "bt_get entries a = Some st" by blast
    show ?thesis
    proof (cases "flow_emit conflict a (emit a st) (entries, rest)")
      case (Inr p)
      then obtain e q where step: "flow_emit conflict a (emit a st) (entries, rest) = Inr (e, q)"
        by (cases p) auto
      show ?thesis
        using Suc.IH [OF walk_inv_step [OF inv st step]] Suc.prems(2) by (simp add: Cons st step)
    qed (simp add: Cons st)
  qed simp
qed

lemma flow_loop_accepts:
  "walk_inv roots entries queue visited \<Longrightarrow> flow_closed emit M \<Longrightarrow> bt_get entries \<subseteq>\<^sub>m M \<Longrightarrow>
   flow_loop fuel emit conflict missing account entries queue acc \<noteq> Some (Inl e)"
proof (induction fuel arbitrary: entries queue acc visited)
  case 0
  then show ?case by (cases queue) auto
next
  case (Suc fuel)
  show ?case
  proof (cases queue)
    case (Cons a rest)
    note inv = Suc.prems(1) [unfolded Cons]
    from queued_entry [OF inv] obtain st where st: "bt_get entries a = Some st" by blast
    have "\<forall>item \<in> set (emit a st). \<exists>a st. item = Inr (a, st) \<and> M a = Some st"
      using Suc.prems(2) map_le_Some [OF Suc.prems(3) st] unfolding flow_closed_def by blast
    from flow_emit_accepts [OF this Suc.prems(3)] obtain e' q
      where step: "flow_emit conflict a (emit a st) (entries, rest) = Inr (e', q)" and sub: "bt_get e' \<subseteq>\<^sub>m M"
      by blast
    show ?thesis
      using Suc.IH [OF walk_inv_step [OF inv st step] Suc.prems(2) sub] by (simp add: Cons st step)
  qed simp
qed

lemma walk_inv_roots:
  "distinct roots \<Longrightarrow> walk_inv ((\<lambda>a. (a, st)) ` set roots) (flow_roots st roots) roots []"
  by (auto simp: walk_inv_def flow_roots_get dom_def intro: flow_reach.root split: if_splits)

text \<open>The walk from a list of roots, with one unit of fuel per instruction and one more.\<close>

definition walk :: "'s \<Rightarrow> nat list \<Rightarrow> 'a \<Rightarrow> ('e + (nat, 's) btree \<times> 'a) option" where
  "walk st roots acc = flow_loop (Suc len) emit conflict missing account (flow_roots st roots) roots acc"

theorem walk_returns: "distinct roots \<Longrightarrow> \<exists>r. walk st roots acc = Some r"
  using flow_loop_total [OF walk_inv_roots, of roots "Suc len"] unfolding walk_def by fastforce

theorem walk_fixpoint:
  assumes "distinct roots" and "walk st roots acc = Some (Inr (entries, acc'))"
  shows "flow_closed emit (bt_get entries)" and "\<forall>a \<in> set roots. bt_get entries a = Some st"
    and "bt_get entries a = Some st' \<longleftrightarrow> flow_reach emit ((\<lambda>a. (a, st)) ` set roots) a st'"
    and "\<exists>log. distinct (map fst log) \<and> (\<forall>a st. (a, st) \<in> set log \<longleftrightarrow> bt_get entries a = Some st)
      \<and> dom (bt_get entries) \<subseteq> {..<len} \<and> acc' = fold (\<lambda>(a, st). account a st) log acc"
proof -
  let ?roots = "(\<lambda>a. (a, st)) ` set roots"
  from flow_loop_Inr [OF walk_inv_roots [OF assms(1)] assms(2) [unfolded walk_def]]
  obtain log where inv: "walk_inv ?roots entries [] (map fst log)"
    and log: "\<forall>(a, st) \<in> set log. bt_get entries a = Some st"
    and acc: "acc' = fold (\<lambda>(a, st). account a st) log acc"
    by auto
  have dom: "fst ` set log = dom (bt_get entries)" using inv by (simp add: walk_inv_def)
  show closed: "flow_closed emit (bt_get entries)"
    unfolding flow_closed_def
  proof (intro allI impI)
    fix a st assume st: "bt_get entries a = Some st"
    then have "a \<in> set (map fst log)" using dom by auto
    then show "\<forall>item \<in> set (emit a st). \<exists>a' st'. item = Inr (a', st') \<and> bt_get entries a' = Some st'"
      using inv st unfolding walk_inv_def by blast
  qed
  show start: "\<forall>a \<in> set roots. bt_get entries a = Some st"
    using inv by (auto simp: walk_inv_def)
  show "bt_get entries a = Some st' \<longleftrightarrow> flow_reach emit ?roots a st'"
  proof
    show "bt_get entries a = Some st' \<Longrightarrow> flow_reach emit ?roots a st'"
      using inv by (simp add: walk_inv_def)
    show "flow_reach emit ?roots a st' \<Longrightarrow> bt_get entries a = Some st'"
      by (induction rule: flow_reach.induct) (use start closed in \<open>auto simp: flow_closed_def, fastforce\<close>)
  qed
  have "(a, st) \<in> set log \<longleftrightarrow> bt_get entries a = Some st" for a st
  proof
    assume "bt_get entries a = Some st"
    moreover from this obtain st' where "(a, st') \<in> set log" using dom by (metis (no_types, lifting) domI imageE prod.collapse)
    ultimately show "(a, st) \<in> set log" using log by fastforce
  qed (use log in auto)
  then show "\<exists>log. distinct (map fst log) \<and> (\<forall>a st. (a, st) \<in> set log \<longleftrightarrow> bt_get entries a = Some st)
      \<and> dom (bt_get entries) \<subseteq> {..<len} \<and> acc' = fold (\<lambda>(a, st). account a st) log acc"
    using inv acc dom by (intro exI [of _ log]) (simp add: walk_inv_def)
qed

theorem walk_rank:
  assumes "distinct roots" and "walk st roots acc = Some (Inr (entries, acc'))" and "rank st = 0"
    and "\<And>a st a' st'. Inr (a', st') \<in> set (emit a st) \<Longrightarrow> rank st' \<le> Suc (rank st)"
    and "bt_get entries a = Some st'"
  shows "rank st' \<le> len"
proof (rule flow_loop_rank [OF assms(4) walk_inv_roots [OF assms(1)] _ assms(2) [unfolded walk_def] assms(5)])
  show "\<forall>a st'. bt_get (flow_roots st roots) a = Some st' \<longrightarrow> rank st' \<le> length []"
    using assms(3) by (auto simp: flow_roots_get split: if_splits)
qed

theorem walk_accepts_iff:
  assumes "distinct roots"
  shows "(\<exists>r. walk st roots acc = Some (Inr r)) \<longleftrightarrow>
    (\<exists>M. flow_closed emit M \<and> (\<forall>a \<in> set roots. M a = Some st))"
proof
  assume "\<exists>r. walk st roots acc = Some (Inr r)"
  then show "\<exists>M. flow_closed emit M \<and> (\<forall>a \<in> set roots. M a = Some st)"
    using walk_fixpoint(1,2) [OF assms] by (metis prod.collapse)
next
  assume "\<exists>M. flow_closed emit M \<and> (\<forall>a \<in> set roots. M a = Some st)"
  then obtain M where M: "flow_closed emit M" "\<forall>a \<in> set roots. M a = Some st" by blast
  then have "bt_get (flow_roots st roots) \<subseteq>\<^sub>m M"
    by (auto simp: map_le_def flow_roots_get dom_def split: if_splits)
  then have "walk st roots acc \<noteq> Some (Inl e)" for e
    using flow_loop_accepts [OF walk_inv_roots [OF assms] M(1)] by (simp add: walk_def)
  then show "\<exists>r. walk st roots acc = Some (Inr r)"
    using walk_returns [OF assms, of st acc] by (metis sum.exhaust)
qed

end

end
