(* ===== verification/Artifact.thy ===== *)
theory Artifact
  imports Worklist Values
begin

text \<open>
  The verification of an artifact (\<open>artifact.rs\<close>): side tables, the edges of the control-flow graph
  and the walk that computes operand heights and limits. An error carries the values that the
  source formats into its message. Addresses are natural numbers inside the walk
  (\<open>usize\<close>) and 32-bit words in instructions (\<open>Addr\<close>). The serialisation of an envelope is
  third-party code, a parameter of the two entry points.
\<close>

section \<open>Errors\<close>

datatype scope_kind = SK_Guard | SK_GuardN | SK_GuardR | SK_Race | SK_Barrier

text \<open>\<open>ScopeToken\<close>: a kind and the address of the instruction that opened the scope.\<close>

record scope_token =
  tok_kind :: scope_kind
  tok_opened_at :: addr

datatype instruction_reason =
    OutsideStream string addr nat                \<comment> \<open>description, target, len\<close>
  | NoManifestEntry u32
  | NoStackState
  | OperandUnderflow u32 u32                     \<comment> \<open>requires, has\<close>
  | RouteWithoutBranches
  | ZeroLoopBound
  | UnboundedBackward
  | InconsistentHeight u32 u32
  | RaceWithoutOpen
  | RaceArmCount nat u16 nat                     \<comment> \<open>cursor, declared, found\<close>
  | RaceNotContiguous nat
  | V1_Underflow scope_kind
  | V1_JoinUnderflow
  | V1_NothingToCancel
  | V1_OpenAtEnd "scope_token list"
  | V2_Merge nat "scope_token list" "scope_token list"
  | V2_Nesting scope_kind scope_token
  | V3_NotAFork addr
  | V3_WrongBarrier addr scope_token
  | V8_Backward string nat
  | V10_InsideFork addr
  | V10_NotRollback scope_token
  | V11_NoTerminal instr
  | GuardTimerNotAdjacent scope_token
  | GuardTimerNoGuard
  | TimerCycleZero
  | TimerCycleNotAdjacent
  | TimerCycleWrongGuard scope_token
  | TimerCycleNoGuard
  | GuardErrorTwoCatchAlls
  | GuardErrorDuplicate string
  | GuardErrorNotAdjacent scope_token
  | GuardErrorNoGuard

datatype metadata_reason =
    EmptyStream
  | NotExecFfi addr
  | NotV2Ffi addr
  | NotAGuard addr
  | NotAMessageWord addr
  | NoFfiDeclaration nat
  | NoV2FfiDeclaration instr nat
  | WaitTableNotEmpty
  | JoinTableNotBijective
  | NoReachableEnd

datatype artifact_error =
    Serialization string
  | UnsupportedAbi u32
  | NonCanonical
  | InvalidInstruction addr instruction_reason
  | InvalidMetadata metadata_reason
  | LimitMismatch
  | WalkNotFinished                               \<comment> \<open>the fuel of a walk; never returned\<close>

definition addr_of :: "nat \<Rightarrow> addr" where
  "addr_of a = of_nat a"

definition run_walk :: "(artifact_error + 'r) option \<Rightarrow> artifact_error + 'r" where
  "run_walk r = (case r of Some r \<Rightarrow> r | None \<Rightarrow> Inl WalkNotFinished)"

definition sat_mul :: "'a::len word \<Rightarrow> 'a word \<Rightarrow> 'a word" where
  "sat_mul a b = (if unat a * unat b < 2 ^ LENGTH('a) then a * b else - 1)"

section \<open>Edges\<close>

definition require_address :: "addr \<Rightarrow> nat \<Rightarrow> addr \<Rightarrow> string \<Rightarrow> artifact_error + unit" where
  "require_address target len address description =
     (if unat target \<ge> len then Inl (InvalidInstruction address (OutsideStream description target len))
      else Inr ())"

fun stack_effect :: "instr \<Rightarrow> u32 \<times> u32" where
  "stack_effect (I_PushBool _) = (0, 1)"
| "stack_effect (I_PushI64 _) = (0, 1)"
| "stack_effect (I_LoadFlag _) = (0, 1)"
| "stack_effect (I_V2LoadPlaceholderMatch _ _) = (0, 1)"
| "stack_effect (I_V2MiIndexLive _ _) = (0, 1)"
| "stack_effect (I_V2MiLoadElement _ _) = (0, 1)"
| "stack_effect I_Pop = (1, 0)"
| "stack_effect (I_StoreFlag _) = (1, 0)"
| "stack_effect (I_BrIf _) = (1, 0)"
| "stack_effect (I_BrIfNot _) = (1, 0)"
| "stack_effect (I_ExecNative _ argc retc) = (ucast argc, ucast retc)"
| "stack_effect (I_ExecDslTask _ _ _) = (0, 0)"
| "stack_effect (I_ExecFfi _ _ _) = (0, 0)"
| "stack_effect I_V2WaitFor = (1, 0)"
| "stack_effect I_V2WaitUntil = (1, 0)"
| "stack_effect (I_V2ArmTimer _) = (1, 0)"
| "stack_effect I_V2GuardArmTimer = (1, 0)"
| "stack_effect _ = (0, 0)"

text \<open>\<open>race_arm_targets\<close>: the backward scan from \<open>}RACE\<close>. The list holds the targets found so far,
  in declaration order.\<close>

fun race_scan :: "nat \<Rightarrow> instr list \<Rightarrow> nat \<Rightarrow> addr list \<Rightarrow> artifact_error + addr list" where
  "race_scan close_address instructions 0 targets = Inl (InvalidInstruction (addr_of close_address) RaceWithoutOpen)"
| "race_scan close_address instructions (Suc cursor) targets =
     (case instructions ! cursor of
        I_V2ArmTimer target \<Rightarrow> race_scan close_address instructions cursor (target # targets)
      | I_V2ArmMsg target _ \<Rightarrow> race_scan close_address instructions cursor (target # targets)
      | I_V2ArmEffect target _ _ _ \<Rightarrow> race_scan close_address instructions cursor (target # targets)
      | I_V2RaceOpen arm_count \<Rightarrow>
          if length targets \<noteq> unat arm_count
          then Inl (InvalidInstruction (addr_of close_address) (RaceArmCount cursor arm_count (length targets)))
          else Inr targets
      | I_PushBool _ \<Rightarrow> race_scan close_address instructions cursor targets
      | I_PushI64 _ \<Rightarrow> race_scan close_address instructions cursor targets
      | I_LoadFlag _ \<Rightarrow> race_scan close_address instructions cursor targets
      | I_Pop \<Rightarrow> race_scan close_address instructions cursor targets
      | _ \<Rightarrow> Inl (InvalidInstruction (addr_of close_address) (RaceNotContiguous cursor)))"

definition race_arm_targets :: "nat \<Rightarrow> instr list \<Rightarrow> artifact_error + addr list" where
  "race_arm_targets close_address instructions = race_scan close_address instructions close_address []"

text \<open>The closure \<open>add\<close> of \<open>successors\<close>, over a list of targets.\<close>

definition add_targets :: "nat \<Rightarrow> nat \<Rightarrow> string \<Rightarrow> addr list \<Rightarrow> artifact_error + nat list" where
  "add_targets address len description targets =
     fold_res (\<lambda>target result.
       try_res (require_address target len (addr_of address) description)
         (\<lambda>_. Inr (result @ [unat target]))) targets []"

definition fallthrough :: "nat \<Rightarrow> nat \<Rightarrow> nat list" where
  "fallthrough address len = (if address + 1 < len then [address + 1] else [])"

fun successors :: "nat \<Rightarrow> instr \<Rightarrow> instr list \<Rightarrow> nat \<Rightarrow> artifact_error + nat list" where
  "successors address (I_Jump target) instructions len = add_targets address len ''jump'' [target]"
| "successors address (I_BrIf target) instructions len =
     try_res (add_targets address len ''branch'' [target]) (\<lambda>r. Inr (r @ fallthrough address len))"
| "successors address (I_BrIfNot target) instructions len =
     try_res (add_targets address len ''branch'' [target]) (\<lambda>r. Inr (r @ fallthrough address len))"
| "successors address (I_BrCounterLt _ _ target) instructions len =
     try_res (add_targets address len ''branch'' [target]) (\<lambda>r. Inr (r @ fallthrough address len))"
| "successors address (I_RoutePayload branches default_target) instructions len =
     try_res (add_targets address len ''payload route'' (map rb_target branches)) (\<lambda>r.
     case default_target of
       Some target \<Rightarrow>
         try_res (add_targets address len ''payload route default'' [target]) (\<lambda>d. Inr (r @ d))
     | None \<Rightarrow> Inr r)"
| "successors address I_End instructions len = Inr []"
| "successors address I_EndTerminate instructions len = Inr []"
| "successors address (I_Fail _) instructions len = Inr []"
| "successors address (I_V2Guard handler) instructions len =
     try_res (add_targets address len ''guard handler'' [handler]) (\<lambda>r. Inr (r @ fallthrough address len))"
| "successors address (I_V2GuardN handler) instructions len =
     try_res (add_targets address len ''guard handler'' [handler]) (\<lambda>r. Inr (r @ fallthrough address len))"
| "successors address (I_V2GuardArmError _ handler) instructions len =
     try_res (add_targets address len ''guard error-arm handler'' [handler])
       (\<lambda>r. Inr (r @ fallthrough address len))"
| "successors address (I_V2Fork targets _) instructions len = add_targets address len ''v2 fork'' targets"
| "successors address I_V2RaceClose instructions len =
     try_res (race_arm_targets address instructions)
       (add_targets address len ''race arm target (via }RACE resolution)'')"
| "successors address I_V2CancelScope instructions len = Inr []"
| "successors address I_V2RouteZeroMatch instructions len = Inr []"
| "successors address _ instructions len = Inr (fallthrough address len)"

section \<open>Side tables\<close>

definition check_table ::
  "instr list \<Rightarrow> string \<Rightarrow> (instr \<Rightarrow> bool) \<Rightarrow> (addr \<Rightarrow> metadata_reason) \<Rightarrow> addr list
     \<Rightarrow> artifact_error + unit" where
  "check_table instructions description allowed reason keys =
     for_res (\<lambda>address.
       try_res (require_address address (length instructions) address description) (\<lambda>_.
       if allowed (instructions ! unat address) then Inr () else Inl (InvalidMetadata (reason address)))) keys"

definition is_exec_ffi :: "instr \<Rightarrow> bool" where
  "is_exec_ffi i = (case i of I_ExecFfi _ _ _ \<Rightarrow> True | _ \<Rightarrow> False)"

definition is_v2_ffi_word :: "instr \<Rightarrow> bool" where
  "is_v2_ffi_word i = (case i of I_V2ArmEffect _ _ _ _ \<Rightarrow> True | I_V2AwaitEffect _ _ _ \<Rightarrow> True | _ \<Rightarrow> False)"

definition is_guard_open :: "instr \<Rightarrow> bool" where
  "is_guard_open i = (case i of I_V2Guard _ \<Rightarrow> True | I_V2GuardN _ \<Rightarrow> True | I_V2GuardR \<Rightarrow> True | _ \<Rightarrow> False)"

definition is_message_word :: "instr \<Rightarrow> bool" where
  "is_message_word i =
     (case i of I_V2WaitMsg _ \<Rightarrow> True | I_V2ArmMsg _ _ \<Rightarrow> True | I_PublishMessage _ \<Rightarrow> True | _ \<Rightarrow> False)"

text \<open>The pass over the instructions that looks up their side-table entries.\<close>

definition check_references :: "artifact_metadata \<Rightarrow> nat \<times> instr \<Rightarrow> artifact_error + unit" where
  "check_references metadata = (\<lambda>(address, instruction).
     let missing_manifest = (\<lambda>task_type.
           if unat task_type \<ge> length (md_task_manifest metadata)
           then Inl (InvalidInstruction (addr_of address) (NoManifestEntry task_type)) else Inr ()) in
     case instruction of
       I_ExecNative task_type _ _ \<Rightarrow> missing_manifest task_type
     | I_ExecDslTask task_type _ _ \<Rightarrow> missing_manifest task_type
     | I_ExecFfi _ _ _ \<Rightarrow>
         if bt_contains (md_ffi_task_decls metadata) (addr_of address) then Inr ()
         else Inl (InvalidMetadata (NoFfiDeclaration address))
     | I_V2ArmEffect _ _ _ _ \<Rightarrow>
         if bt_contains (md_v2_ffi_task_decls metadata) (addr_of address) then Inr ()
         else Inl (InvalidMetadata (NoV2FfiDeclaration instruction address))
     | I_V2AwaitEffect _ _ _ \<Rightarrow>
         if bt_contains (md_v2_ffi_task_decls metadata) (addr_of address) then Inr ()
         else Inl (InvalidMetadata (NoV2FfiDeclaration instruction address))
     | _ \<Rightarrow> Inr ())"

definition check_side_tables :: "instr list \<Rightarrow> artifact_metadata \<Rightarrow> artifact_error + unit" where
  "check_side_tables instructions metadata =
     (if instructions = [] then Inl (InvalidMetadata EmptyStream)
      else
        try_res (for_res (\<lambda>address. require_address address (length instructions) address ''debug map'')
                   (bt_keys (md_debug_map metadata))) (\<lambda>_.
        try_res (check_table instructions ''FFI task table'' is_exec_ffi NotExecFfi
                   (bt_keys (md_ffi_task_decls metadata))) (\<lambda>_.
        try_res (check_table instructions ''v2 FFI effect table'' is_v2_ffi_word NotV2Ffi
                   (bt_keys (md_v2_ffi_task_decls metadata))) (\<lambda>_.
        try_res (check_table instructions ''v2 guard budget table'' is_guard_open NotAGuard
                   (bt_keys (md_v2_guard_budgets metadata))) (\<lambda>_.
        try_res (check_table instructions ''v2 correlation source table'' is_message_word NotAMessageWord
                   (bt_keys (md_v2_corr_sources metadata))) (\<lambda>_.
        try_res (for_res (check_references metadata) (zip [0..<length instructions] instructions)) (\<lambda>_.
        if \<not> bt_is_empty (md_wait_plan metadata) then Inl (InvalidMetadata WaitTableNotEmpty)
        else if \<not> bt_is_empty (md_join_plan metadata) then Inl (InvalidMetadata JoinTableNotBijective)
        else Inr ())))))))"

section \<open>Operand heights\<close>

record height_limits =
  hl_reachable_end :: bool
  hl_max_stack :: u32
  hl_max_fibers :: u32
  hl_loop_multiplier :: u64

text \<open>The instruction is rejected, or the height after it is known.\<close>

definition height_check :: "nat \<Rightarrow> instr \<Rightarrow> u32 \<Rightarrow> artifact_error + u32" where
  "height_check address instruction height =
     (let (pops, pushes) = stack_effect instruction;
          next_height = height - pops + pushes;
          reject = (\<lambda>reason. Inl (InvalidInstruction (addr_of address) reason));
          backward = (\<lambda>target. if target \<le> addr_of address then reject UnboundedBackward else Inr next_height)
      in if height < pops then reject (OperandUnderflow pops height)
         else case instruction of
           I_RoutePayload branches _ \<Rightarrow>
             if branches = [] then reject RouteWithoutBranches else Inr next_height
         | I_BrCounterLt _ limit target \<Rightarrow>
             if target < addr_of address \<and> limit = 0 then reject ZeroLoopBound else Inr next_height
         | I_Jump target \<Rightarrow> backward target
         | I_BrIf target \<Rightarrow> backward target
         | I_BrIfNot target \<Rightarrow> backward target
         | _ \<Rightarrow> Inr next_height)"

definition guard_fibers :: "instr list \<Rightarrow> nat \<Rightarrow> u32 \<Rightarrow> u32" where
  "guard_fibers instructions address fibers =
     (let fibers = sat_add fibers 1 in
      case (vec_get instructions (address + 1), vec_get instructions (address + 2)) of
        (Some I_V2GuardArmTimer, Some (I_V2GuardTimerCycle max_fires)) \<Rightarrow> sat_add fibers (sat_sub max_fires 1)
      | _ \<Rightarrow> fibers)"

definition height_account :: "instr list \<Rightarrow> nat \<Rightarrow> u32 \<Rightarrow> height_limits \<Rightarrow> height_limits" where
  "height_account instructions address height acc =
     (let instruction = instructions ! address;
          (pops, pushes) = stack_effect instruction;
          next_height = height - pops + pushes;
          acc = acc\<lparr>hl_max_stack := max (hl_max_stack acc) next_height\<rparr>
      in case instruction of
           I_V2Fork targets _ \<Rightarrow>
             acc\<lparr>hl_max_fibers := sat_add (hl_max_fibers acc) (of_nat (length targets))\<rparr>
         | I_V2Guard _ \<Rightarrow> acc\<lparr>hl_max_fibers := guard_fibers instructions address (hl_max_fibers acc)\<rparr>
         | I_V2GuardN _ \<Rightarrow> acc\<lparr>hl_max_fibers := guard_fibers instructions address (hl_max_fibers acc)\<rparr>
         | I_BrCounterLt _ limit target \<Rightarrow>
             if target < addr_of address
             then acc\<lparr>hl_loop_multiplier := sat_mul (hl_loop_multiplier acc) (ucast limit)\<rparr> else acc
         | I_End \<Rightarrow> acc\<lparr>hl_reachable_end := True\<rparr>
         | I_EndTerminate \<Rightarrow> acc\<lparr>hl_reachable_end := True\<rparr>
         | _ \<Rightarrow> acc)"

text \<open>What the body of the walk does at an address: reject, or propagate one height to the
  successors. Indexing outside the stream would panic; no successor is outside.\<close>

definition height_emit :: "instr list \<Rightarrow> nat \<Rightarrow> u32 \<Rightarrow> (artifact_error + nat \<times> u32) list" where
  "height_emit instructions address height =
     (if address \<ge> length instructions then [Inl (InvalidInstruction (addr_of address) NoStackState)]
      else
        case try_res (height_check address (instructions ! address) height) (\<lambda>next_height.
               try_res (successors address (instructions ! address) instructions (length instructions)) (\<lambda>ss.
               Inr (map (\<lambda>a. (a, next_height)) ss))) of
          Inl e \<Rightarrow> [Inl e]
        | Inr edges \<Rightarrow> map Inr edges)"

definition height_conflict :: "nat \<Rightarrow> nat \<Rightarrow> u32 \<Rightarrow> u32 \<Rightarrow> artifact_error" where
  "height_conflict at_address successor existing next_height =
     InvalidInstruction (addr_of successor) (InconsistentHeight existing next_height)"

definition height_missing :: "nat \<Rightarrow> artifact_error" where
  "height_missing address = InvalidInstruction (addr_of address) NoStackState"

definition height_walk :: "instr list \<Rightarrow> artifact_error + (nat, u32) btree \<times> height_limits" where
  "height_walk instructions =
     run_walk (flow_loop (Suc (length instructions)) (height_emit instructions) height_conflict height_missing
       (height_account instructions) (flow_roots 0 [0]) [0]
       \<lparr>hl_reachable_end = False, hl_max_stack = 0, hl_max_fibers = 1, hl_loop_multiplier = 1\<rparr>)"

end
