(* ===== verification/Verifier.thy ===== *)
theory Verifier
  imports Artifact
begin

text \<open>
  The control-stack verifier (\<open>v2_verifier.rs\<close>): the walk over abstract control stacks, which are
  lists of scope tokens, and the check that every reachable instruction reaches a terminal one
  (V-11); then \<open>verify_program\<close> and the two entry points of \<open>artifact.rs\<close> that call it.
\<close>

section \<open>Abstract control stacks\<close>

type_synonym abstract_stack = "scope_token list"

record v2_control_stack_limits =
  cl_max_control_depth :: u32
  cl_max_barriers :: u32
  cl_max_records :: u32

definition violation :: "nat \<Rightarrow> instruction_reason \<Rightarrow> artifact_error" where
  "violation address reason = InvalidInstruction (addr_of address) reason"

definition pop_expecting :: "nat \<Rightarrow> abstract_stack \<Rightarrow> scope_kind \<Rightarrow> artifact_error + abstract_stack" where
  "pop_expecting address state expected =
     (case vec_pop state of
        None \<Rightarrow> Inl (violation address (V1_Underflow expected))
      | Some (top_token, popped) \<Rightarrow>
          if tok_kind top_token \<noteq> expected then Inl (violation address (V2_Nesting expected top_token)) else Inr popped)"

definition fork_arity :: "addr \<Rightarrow> instr list \<Rightarrow> u32" where
  "fork_arity pairing instructions =
     (case vec_get instructions (unat pairing) of
        Some (I_V2Fork targets _) \<Rightarrow> of_nat (max (length targets) 1)
      | _ \<Rightarrow> 1)"

definition is_barrier :: "scope_token \<Rightarrow> bool" where
  "is_barrier token \<longleftrightarrow> tok_kind token = SK_Barrier"

definition fibre_multiplicity :: "abstract_stack \<Rightarrow> instr list \<Rightarrow> u32" where
  "fibre_multiplicity state instructions =
     fold (\<lambda>token acc. sat_mul acc (fork_arity (tok_opened_at token) instructions))
       (filter is_barrier state) 1"

section \<open>The walk\<close>

definition check_forward :: "nat \<Rightarrow> nat \<Rightarrow> string \<Rightarrow> artifact_error + unit" where
  "check_forward from to edge =
     (if to \<le> from then Inl (violation from (V8_Backward edge to)) else Inr ())"

definition token_at :: "scope_kind \<Rightarrow> nat \<Rightarrow> scope_token" where
  "token_at kind address = \<lparr>tok_kind = kind, tok_opened_at = addr_of address\<rparr>"

type_synonym edges = "(artifact_error + nat \<times> abstract_stack) list"

text \<open>\<open>if address + 1 < len { propagate(address + 1, state) }\<close>, a checked edge, and a step that
  rejects or goes on.\<close>

definition next_edge :: "nat \<Rightarrow> nat \<Rightarrow> abstract_stack \<Rightarrow> edges" where
  "next_edge len address state = map (\<lambda>a. Inr (a, state)) (fallthrough address len)"

definition forward_edge :: "nat \<Rightarrow> string \<Rightarrow> abstract_stack \<Rightarrow> addr \<Rightarrow> edges" where
  "forward_edge address edge state target =
     (case check_forward address (unat target) edge of
        Inl e \<Rightarrow> [Inl e]
      | Inr _ \<Rightarrow> [Inr (unat target, state)])"

definition edges_of :: "artifact_error + 'a \<Rightarrow> ('a \<Rightarrow> edges) \<Rightarrow> edges" where
  "edges_of r f = (case r of Inl e \<Rightarrow> [Inl e] | Inr a \<Rightarrow> f a)"

definition is_guard_kind :: "scope_kind \<Rightarrow> bool" where
  "is_guard_kind kind \<longleftrightarrow> kind \<in> {SK_Guard, SK_GuardN, SK_GuardR}"

definition is_arm_timer :: "instr option \<Rightarrow> bool" where
  "is_arm_timer i = (case i of Some I_V2GuardArmTimer \<Rightarrow> True | _ \<Rightarrow> False)"

definition is_arm_word :: "instr option \<Rightarrow> bool" where
  "is_arm_word i =
     (case i of
        Some I_V2GuardArmTimer \<Rightarrow> True
      | Some (I_V2GuardArmError _ _) \<Rightarrow> True
      | Some (I_V2GuardTimerCycle _) \<Rightarrow> True
      | _ \<Rightarrow> False)"

definition arms_code :: "string option \<Rightarrow> instr option \<Rightarrow> bool" where
  "arms_code code i = (case i of Some (I_V2GuardArmError other _) \<Rightarrow> other = code | _ \<Rightarrow> False)"

text \<open>\<open>V2GuardArmTimer\<close>, \<open>V2GuardTimerCycle\<close> and \<open>V2GuardArmError\<close>: the arming run of a guard.\<close>

definition step_arm_timer :: "nat \<Rightarrow> nat \<Rightarrow> abstract_stack \<Rightarrow> edges" where
  "step_arm_timer len address state =
     (case vec_last state of
        Some top_token \<Rightarrow>
          if is_guard_kind (tok_kind top_token) \<and> unat (tok_opened_at top_token) + 1 = address
          then next_edge len address state
          else [Inl (violation address (GuardTimerNotAdjacent top_token))]
      | None \<Rightarrow> [Inl (violation address GuardTimerNoGuard)])"

definition step_timer_cycle :: "instr list \<Rightarrow> nat \<Rightarrow> u32 \<Rightarrow> abstract_stack \<Rightarrow> edges" where
  "step_timer_cycle instructions address max_fires state =
     (if max_fires = 0 then [Inl (violation address TimerCycleZero)]
      else
        case vec_last state of
          Some top_token \<Rightarrow>
            if tok_kind top_token = SK_GuardN then
              if address > 0 \<and> is_arm_timer (vec_get instructions (address - 1))
              then next_edge (length instructions) address state
              else [Inl (violation address TimerCycleNotAdjacent)]
            else [Inl (violation address (TimerCycleWrongGuard top_token))]
        | None \<Rightarrow> [Inl (violation address TimerCycleNoGuard)])"

definition step_arm_error :: "instr list \<Rightarrow> nat \<Rightarrow> string option \<Rightarrow> abstract_stack \<Rightarrow> edges" where
  "step_arm_error instructions address error_code state =
     (case vec_last state of
        Some top_token \<Rightarrow>
          if is_guard_kind (tok_kind top_token)
             \<and> (unat (tok_opened_at top_token) + 1 = address
                \<or> address > 0 \<and> is_arm_word (vec_get instructions (address - 1)))
          then
            if list_ex (\<lambda>i. arms_code error_code (vec_get instructions i))
                 [unat (tok_opened_at top_token) + 1 ..< address]
            then [Inl (violation address (case error_code of
                    None \<Rightarrow> GuardErrorTwoCatchAlls | Some code \<Rightarrow> GuardErrorDuplicate code))]
            else next_edge (length instructions) address state
          else [Inl (violation address (GuardErrorNotAdjacent top_token))]
      | None \<Rightarrow> [Inl (violation address GuardErrorNoGuard)])"

definition step_guard_r :: "nat \<Rightarrow> nat \<Rightarrow> abstract_stack \<Rightarrow> edges" where
  "step_guard_r len address state =
     (case find is_barrier state of
        Some enclosing_fork \<Rightarrow> [Inl (violation address (V10_InsideFork (tok_opened_at enclosing_fork)))]
      | None \<Rightarrow> next_edge len address (state @ [token_at SK_GuardR address]))"

definition step_race_close :: "instr list \<Rightarrow> nat \<Rightarrow> abstract_stack \<Rightarrow> edges" where
  "step_race_close instructions address state =
     edges_of (pop_expecting address state SK_Race) (\<lambda>popped.
     edges_of (race_arm_targets address instructions) (\<lambda>targets.
     concat (map (forward_edge address ''race arm (via }RACE)'' popped) targets)))"

definition step_join :: "instr list \<Rightarrow> nat \<Rightarrow> addr \<Rightarrow> abstract_stack \<Rightarrow> edges" where
  "step_join instructions address pairing state =
     (if (case vec_get instructions (unat pairing) of Some (I_V2Fork _ _) \<Rightarrow> False | _ \<Rightarrow> True)
      then [Inl (violation address (V3_NotAFork pairing))]
      else
        case vec_last state of
          Some top_token \<Rightarrow>
            if tok_kind top_token = SK_Barrier \<and> tok_opened_at top_token = pairing
            then edges_of (pop_expecting address state SK_Barrier) (next_edge (length instructions) address)
            else [Inl (violation address (V3_WrongBarrier pairing top_token))]
        | None \<Rightarrow> [Inl (violation address V1_JoinUnderflow)])"

definition step_cancel_scope :: "nat \<Rightarrow> abstract_stack \<Rightarrow> edges" where
  "step_cancel_scope address state =
     (case vec_last state of
        None \<Rightarrow> [Inl (violation address V1_NothingToCancel)]
      | Some top_token \<Rightarrow>
          if tok_kind top_token \<noteq> SK_GuardR then [Inl (violation address (V10_NotRollback top_token))] else [])"

text \<open>The match of the walk: what the instruction at \<open>address\<close> does to the abstract stack.\<close>

fun control_step :: "instr list \<Rightarrow> nat \<Rightarrow> abstract_stack \<Rightarrow> instr \<Rightarrow> edges" where
  "control_step instructions address state (I_V2Guard handler) =
     forward_edge address ''guard handler'' state handler
     @ next_edge (length instructions) address (state @ [token_at SK_Guard address])"
| "control_step instructions address state (I_V2GuardN handler) =
     forward_edge address ''guard-n handler'' (state @ [token_at SK_GuardN address]) handler
     @ next_edge (length instructions) address (state @ [token_at SK_GuardN address])"
| "control_step instructions address state I_V2GuardEnd =
     edges_of (pop_expecting address state SK_Guard) (next_edge (length instructions) address)"
| "control_step instructions address state I_V2GuardNEnd =
     edges_of (pop_expecting address state SK_GuardN) (next_edge (length instructions) address)"
| "control_step instructions address state I_V2GuardR = step_guard_r (length instructions) address state"
| "control_step instructions address state I_V2GuardREnd =
     edges_of (pop_expecting address state SK_GuardR) (next_edge (length instructions) address)"
| "control_step instructions address state I_V2GuardArmTimer = step_arm_timer (length instructions) address state"
| "control_step instructions address state (I_V2GuardTimerCycle max_fires) =
     step_timer_cycle instructions address max_fires state"
| "control_step instructions address state (I_V2GuardArmError error_code _) =
     step_arm_error instructions address error_code state"
| "control_step instructions address state (I_V2RaceOpen _) =
     next_edge (length instructions) address (state @ [token_at SK_Race address])"
| "control_step instructions address state (I_V2ArmTimer _) = next_edge (length instructions) address state"
| "control_step instructions address state (I_V2ArmMsg _ _) = next_edge (length instructions) address state"
| "control_step instructions address state (I_V2ArmEffect _ _ _ _) = next_edge (length instructions) address state"
| "control_step instructions address state I_V2RaceClose = step_race_close instructions address state"
| "control_step instructions address state (I_V2Fork targets pairing) =
     concat (map (forward_edge address ''fork''
       (state @ [\<lparr>tok_kind = SK_Barrier, tok_opened_at = pairing\<rparr>])) targets)"
| "control_step instructions address state (I_V2Join pairing) = step_join instructions address pairing state"
| "control_step instructions address state I_V2CancelScope = step_cancel_scope address state"
| "control_step instructions address state I_End =
     (if state \<noteq> [] then [Inl (violation address (V1_OpenAtEnd state))] else [])"
| "control_step instructions address state instruction =
     edges_of (successors address instruction instructions (length instructions)) (map (\<lambda>a. Inr (a, state)))"

text \<open>An index outside the stream would panic; only an address past \<open>2 ^ 32\<close> gets there.\<close>

definition control_emit :: "instr list \<Rightarrow> nat \<Rightarrow> abstract_stack \<Rightarrow> edges" where
  "control_emit instructions address state =
     (case require_address (addr_of address) (length instructions) (addr_of address) ''v2 verifier'' of
        Inl e \<Rightarrow> [Inl e]
      | Inr _ \<Rightarrow>
          if address < length instructions then control_step instructions address state (instructions ! address)
          else [Inl (violation address NoStackState)])"

definition control_conflict :: "nat \<Rightarrow> nat \<Rightarrow> abstract_stack \<Rightarrow> abstract_stack \<Rightarrow> artifact_error" where
  "control_conflict at_address address existing state = violation at_address (V2_Merge address existing state)"

definition control_account ::
  "instr list \<Rightarrow> nat \<Rightarrow> abstract_stack \<Rightarrow> v2_control_stack_limits \<Rightarrow> v2_control_stack_limits" where
  "control_account instructions address state acc =
     (let depth = of_nat (length state);
          multiplicity = fibre_multiplicity state instructions;
          barrier_count = of_nat (length (filter is_barrier state))
      in \<lparr>cl_max_control_depth = max (cl_max_control_depth acc) depth,
          cl_max_barriers = max (cl_max_barriers acc) (sat_mul barrier_count multiplicity),
          cl_max_records = max (cl_max_records acc) (sat_mul depth multiplicity)\<rparr>)"

definition control_walk ::
  "instr list \<Rightarrow> artifact_error + (nat, abstract_stack) btree \<times> v2_control_stack_limits" where
  "control_walk instructions =
     run_walk (flow_loop (Suc (length instructions)) (control_emit instructions) control_conflict height_missing
       (control_account instructions) (flow_roots [] [0]) [0]
       \<lparr>cl_max_control_depth = 0, cl_max_barriers = 0, cl_max_records = 0\<rparr>)"

definition loop_multiplier_u32 :: "u64 \<Rightarrow> u32" where
  "loop_multiplier_u32 n = (if unat n < 2 ^ 32 then ucast n else - 1)"

definition verify_v2_control_stack :: "instr list \<Rightarrow> u64 \<Rightarrow> artifact_error + v2_control_stack_limits" where
  "verify_v2_control_stack instructions loop_multiplier =
     try_res (control_walk instructions) (\<lambda>(_, limits).
     Inr \<lparr>cl_max_control_depth = cl_max_control_depth limits,
          cl_max_barriers = sat_mul (cl_max_barriers limits) (loop_multiplier_u32 loop_multiplier),
          cl_max_records = sat_mul (cl_max_records limits) (loop_multiplier_u32 loop_multiplier)\<rparr>)"

section \<open>Terminal reachability\<close>

definition is_terminal_instr :: "instr \<Rightarrow> bool" where
  "is_terminal_instr instruction =
     (case instruction of
        I_End \<Rightarrow> True
      | I_EndTerminate \<Rightarrow> True
      | I_Fail _ \<Rightarrow> True
      | I_V2CancelScope \<Rightarrow> True
      | I_V2RouteZeroMatch \<Rightarrow> True
      | _ \<Rightarrow> False)"

text \<open>Both searches mark an address when they queue it: the state of the walk is the unit type.\<close>

definition forward_emit :: "instr list \<Rightarrow> nat \<Rightarrow> unit \<Rightarrow> (artifact_error + nat \<times> unit) list" where
  "forward_emit instructions address _ =
     (if address \<ge> length instructions then [Inl (violation address NoStackState)]
      else case successors address (instructions ! address) instructions (length instructions) of
             Inl e \<Rightarrow> [Inl e]
           | Inr succs \<Rightarrow> map (\<lambda>a. Inr (a, ())) succs)"

definition mark_conflict :: "nat \<Rightarrow> nat \<Rightarrow> unit \<Rightarrow> unit \<Rightarrow> artifact_error" where
  "mark_conflict at_address address _ _ = violation at_address NoStackState"

definition forward_account :: "instr list \<Rightarrow> nat \<Rightarrow> unit \<Rightarrow> (nat, nat list) btree \<Rightarrow> (nat, nat list) btree" where
  "forward_account instructions address _ forward_edges =
     (case successors address (instructions ! address) instructions (length instructions) of
        Inl _ \<Rightarrow> forward_edges
      | Inr succs \<Rightarrow> bt_insert address succs forward_edges)"

definition forward_walk :: "instr list \<Rightarrow> artifact_error + (nat, unit) btree \<times> (nat, nat list) btree" where
  "forward_walk instructions =
     run_walk (flow_loop (Suc (length instructions)) (forward_emit instructions) mark_conflict height_missing
       (forward_account instructions) (flow_roots () [0]) [0] bt_empty)"

definition reverse_edges :: "nat \<Rightarrow> (nat, nat list) btree \<Rightarrow> nat \<Rightarrow> nat list" where
  "reverse_edges len forward_edges to =
     concat (map (\<lambda>from. map (\<lambda>_. from) (filter (\<lambda>a. a = to) (unwrap_or (bt_get forward_edges from) [])))
       [0..<len])"

definition reverse_emit ::
  "nat \<Rightarrow> (nat, nat list) btree \<Rightarrow> nat \<Rightarrow> unit \<Rightarrow> (artifact_error + nat \<times> unit) list" where
  "reverse_emit len forward_edges address _ =
     (if address \<ge> len then [Inl (violation address NoStackState)]
      else map (\<lambda>pred. Inr (pred, ())) (reverse_edges len forward_edges address))"

definition reverse_walk ::
  "nat \<Rightarrow> (nat, nat list) btree \<Rightarrow> nat list \<Rightarrow> artifact_error + (nat, unit) btree \<times> unit" where
  "reverse_walk len forward_edges roots =
     run_walk (flow_loop (Suc len) (reverse_emit len forward_edges) mark_conflict height_missing
       (\<lambda>_ _ acc. acc) (flow_roots () roots) roots ())"

definition terminal_roots :: "instr list \<Rightarrow> (nat, unit) btree \<Rightarrow> nat list" where
  "terminal_roots instructions forward_reachable =
     filter (\<lambda>address. bt_contains forward_reachable address \<and> is_terminal_instr (instructions ! address))
       [0..<length instructions]"

definition verify_terminal_reachability :: "instr list \<Rightarrow> artifact_error + unit" where
  "verify_terminal_reachability instructions =
     (let len = length instructions in
      if len = 0 then Inr ()
      else
        try_res (forward_walk instructions) (\<lambda>(forward_reachable, forward_edges).
        try_res (reverse_walk len forward_edges (terminal_roots instructions forward_reachable))
          (\<lambda>(reaches_terminal, _).
        for_res (\<lambda>address.
          if bt_contains forward_reachable address \<and> \<not> bt_contains reaches_terminal address
          then Inl (violation address (V11_NoTerminal (instructions ! address))) else Inr ())
          [0..<len])))"

section \<open>Verification of an artifact\<close>

definition verify_program :: "instr list \<Rightarrow> artifact_metadata \<Rightarrow> artifact_error + verified_limits" where
  "verify_program instructions metadata =
     try_res (check_side_tables instructions metadata) (\<lambda>_.
     try_res (height_walk instructions) (\<lambda>(_, heights).
     if \<not> hl_reachable_end heights then Inl (InvalidMetadata NoReachableEnd)
     else
       try_res (verify_v2_control_stack instructions (hl_loop_multiplier heights)) (\<lambda>control_stack_limits.
       try_res (verify_terminal_reachability instructions) (\<lambda>_.
       Inr \<lparr>max_stack = hl_max_stack heights, max_fibers = hl_max_fibers heights,
            max_steps = sat_mul (of_nat (length instructions)) (hl_loop_multiplier heights),
            max_control_depth = cl_max_control_depth control_stack_limits,
            max_barriers = cl_max_barriers control_stack_limits,
            max_records = cl_max_records control_stack_limits\<rparr>))))"

definition CURRENT_ARTIFACT_ABI :: u32 where
  "CURRENT_ARTIFACT_ABI = 1"

text \<open>\<open>to_json\<close> and \<open>from_json\<close> stand for \<open>serde_json::to_vec\<close> and \<open>serde_json::from_slice\<close>.\<close>

definition from_verified_envelope ::
  "ext \<Rightarrow> (artifact_envelope \<Rightarrow> string + bytes) \<Rightarrow> artifact_envelope \<Rightarrow> artifact_error + executable_workflow" where
  "from_verified_envelope x to_json envelope =
     try_res (verify_program (ae_instructions envelope) (ae_metadata envelope)) (\<lambda>computed.
     if computed \<noteq> ae_limits envelope then Inl LimitMismatch
     else
       try_res (map_err Serialization (to_json envelope)) (\<lambda>canonical.
       Inr \<lparr>wf_envelope = envelope, wf_hash = x_blake3 x canonical\<rparr>))"

definition verify_artifact ::
  "ext \<Rightarrow> (artifact_envelope \<Rightarrow> string + bytes) \<Rightarrow> (bytes \<Rightarrow> string + artifact_envelope) \<Rightarrow> bytes
     \<Rightarrow> artifact_error + executable_workflow" where
  "verify_artifact x to_json from_json bs =
     try_res (map_err Serialization (from_json bs)) (\<lambda>envelope.
     if ae_abi_version envelope \<noteq> CURRENT_ARTIFACT_ABI
       then Inl (UnsupportedAbi (ae_abi_version envelope))
     else
       try_res (map_err Serialization (to_json envelope)) (\<lambda>canonical.
       if canonical \<noteq> bs then Inl NonCanonical else from_verified_envelope x to_json envelope))"

end
