(* ===== verification/VerifierLaws.thy ===== *)
theory VerifierLaws
  imports Identity Verifier
begin

text \<open>
  What the walks of the verifier mean, as instances of the worklist, and how their edges and
  effects cover what the interpreter does: where an instruction can go on to, what it does to the
  two stacks, and when it underflows.
\<close>

section \<open>What the interpreter does\<close>

fun next_pcs :: "instr \<Rightarrow> addr \<Rightarrow> addr list" where
  "next_pcs (I_Jump target) pc = [target]"
| "next_pcs (I_BrIf target) pc = [target, sat_add pc 1]"
| "next_pcs (I_BrIfNot target) pc = [target, sat_add pc 1]"
| "next_pcs (I_BrCounterLt _ _ target) pc = [target, sat_add pc 1]"
| "next_pcs (I_RoutePayload branches default_target) pc =
     map rb_target branches @ (case default_target of Some target \<Rightarrow> [target] | None \<Rightarrow> [])"
| "next_pcs I_End pc = []"
| "next_pcs I_EndTerminate pc = []"
| "next_pcs (I_Fail _) pc = []"
| "next_pcs I_V2RouteZeroMatch pc = []"
| "next_pcs (I_V2Fork _ _) pc = []"
| "next_pcs I_V2RaceClose pc = []"
| "next_pcs _ pc = [sat_add pc 1]"

fun scope_effect :: "instr \<Rightarrow> nat \<times> nat" where
  "scope_effect (I_V2Guard _) = (0, 1)"
| "scope_effect (I_V2GuardN _) = (0, 1)"
| "scope_effect I_V2GuardR = (0, 1)"
| "scope_effect (I_V2RaceOpen _) = (0, 1)"
| "scope_effect I_V2GuardEnd = (1, 0)"
| "scope_effect I_V2GuardNEnd = (1, 0)"
| "scope_effect I_V2GuardREnd = (1, 0)"
| "scope_effect (I_V2Join _) = (1, 0)"
| "scope_effect _ = (0, 0)"

lemma route_target:
  "or_else (find_map (\<lambda>b. if p b then Some (rb_target b) else None) bs) d = Some t \<Longrightarrow>
     t \<in> rb_target ` set bs \<or> d = Some t"
  by (induction bs) (auto simp: or_else_def split: if_splits option.splits)

lemmas next_splits = if_splits option.splits prod.splits val.splits durable_effect.splits timer_kind.splits

lemma exec_next_pc:
  assumes "exec_instr x w s cx ins ts = Inr (Next ts')"
  shows "fb_pc (tk_fiber ts') \<in> set (next_pcs ins (fb_pc (tk_fiber ts)))"
  using assms
  by (cases ins)
    (auto simp: word_defs Let_def map_err_Inr bump_pc_def dest: route_target
      elim!: try_resE split: next_splits)

lemma exec_next_scopes:
  assumes "exec_instr x w s cx ins ts = Inr (Next ts')" and "ins \<noteq> I_V2CancelScope"
    and "scope_effect ins = (pops, pushes)"
  shows "length (fb_control_stack (tk_fiber ts')) + pops = length (fb_control_stack (tk_fiber ts)) + pushes
    \<and> pops \<le> length (fb_control_stack (tk_fiber ts))"
  using assms
  by (cases ins)
    (auto simp: word_defs Let_def map_err_Inr bump_pc_def vec_pop_def Suc_le_eq
      elim!: try_resE split: next_splits)

lemma exec_next_operands:
  assumes "exec_instr x w s cx ins ts = Inr (Next ts')" and "ins \<noteq> I_V2CancelScope"
    and "\<And>t a r. ins = I_ExecNative t a r \<Longrightarrow> a = 0 \<and> r = 0"
    and "stack_effect ins = (pops, pushes)"
  shows "length (fb_stack (tk_fiber ts')) + unat pops = length (fb_stack (tk_fiber ts)) + unat pushes"
  using assms
  by (cases ins)
    (auto simp: word_defs Let_def map_err_Inr bump_pc_def vec_pop_def Suc_le_eq
      elim!: try_resE split: next_splits)


fun scopes_needed :: "instr \<Rightarrow> nat" where
  "scopes_needed I_V2GuardEnd = 1"
| "scopes_needed I_V2GuardNEnd = 1"
| "scopes_needed I_V2GuardREnd = 1"
| "scopes_needed (I_V2Join _) = 1"
| "scopes_needed I_V2RaceClose = 1"
| "scopes_needed I_V2CancelScope = 1"
| "scopes_needed _ = 0"

lemma apply_flags_no_underflow: "fold_res apply_flag fs i \<noteq> Inl (StackUnderflow word)"
  by (induction fs arbitrary: i) (auto simp: apply_flag_def try_res_def ok_or_def split: sum.splits option.splits prod.splits)

lemma arm_newest_no_underflow: "arm_newest_insert h route ms \<noteq> Inl (StackUnderflow word)"
  by (induction h route ms rule: arm_newest_insert.induct)
    (auto simp: try_res_def split: sum.splits if_splits concurrency_mutation.splits)

lemma no_underflow:
  "logical_timestamp cx \<noteq> Inl (StackUnderflow word)"
  "apply_completion x c i \<noteq> Inl (StackUnderflow word)"
  "ffi_input_at x decls m wrong i a t \<noteq> Inl (StackUnderflow word)"
  "resolve_correlation_key_at x w i a \<noteq> Inl (StackUnderflow word)"
  "v2_rollback_guard_scope x s h caller ch \<noteq> Inl (StackUnderflow word)"
  using apply_flags_no_underflow
  by (auto simp: logical_timestamp_def apply_completion_def ffi_input_at_def resolve_correlation_key_at_def
      v2_rollback_guard_scope_def rollback_fields_def cancel_scope_def Let_def
      try_res_def ok_or_def map_err_def split: sum.splits option.splits if_splits rollback_caller.splits)

lemma exec_underflow:
  assumes "exec_instr x w s cx ins ts = Inl (StackUnderflow word)"
  shows "length (fb_stack (tk_fiber ts)) < unat (fst (stack_effect ins))
    \<or> length (fb_control_stack (tk_fiber ts)) < scopes_needed ins"
  using assms
  by (cases ins)
    (auto simp: word_defs Let_def map_err_Inr bump_pc_def vec_pop_def ok_or_def try_res_def map_err_def no_underflow arm_newest_no_underflow
      split: next_splits sum.splits)

section \<open>The walks as instances of the worklist\<close>

interpretation heights: flow "height_emit instructions" height_conflict height_missing
    "height_account instructions" "length instructions" for instructions
  by unfold_locales (simp add: height_emit_def)

lemma require_address_Inr: "require_address t len a d = Inr u \<longleftrightarrow> unat t < len"
  by (simp add: require_address_def)

interpretation controls: flow "control_emit instructions" control_conflict height_missing
    "control_account instructions" "length instructions" for instructions
  by unfold_locales (auto simp: control_emit_def split: sum.splits)

interpretation forwards: flow "forward_emit instructions" mark_conflict height_missing
    "forward_account instructions" "length instructions" for instructions
  by unfold_locales (simp add: forward_emit_def)

interpretation reverses: flow "reverse_emit len forward_edges" mark_conflict height_missing
    "\<lambda>_ _ acc. acc" len for len forward_edges
  by unfold_locales (simp add: reverse_emit_def)

lemma run_walk_Inr: "run_walk r = Inr v \<longleftrightarrow> r = Some (Inr v)"
  by (auto simp: run_walk_def split: option.splits)

lemma height_walk_Inr:
  "height_walk instructions = Inr r \<longleftrightarrow>
     heights.walk instructions 0 [0] \<lparr>hl_reachable_end = False, hl_max_stack = 0, hl_max_fibers = 1, hl_loop_multiplier = 1\<rparr> = Some (Inr r)"
  by (simp add: height_walk_def heights.walk_def run_walk_Inr)

lemma control_walk_Inr:
  "control_walk instructions = Inr r \<longleftrightarrow>
     controls.walk instructions [] [0] \<lparr>cl_max_control_depth = 0, cl_max_barriers = 0, cl_max_records = 0\<rparr> = Some (Inr r)"
  by (simp add: control_walk_def controls.walk_def run_walk_Inr)


section \<open>Edges\<close>

lemma add_targets_Inr:
  "add_targets a len d ts = Inr r \<longleftrightarrow> (\<forall>t \<in> set ts. unat t < len) \<and> r = map unat ts"
proof -
  have "fold_res (\<lambda>target result. try_res (require_address target len (addr_of a) d)
      (\<lambda>_. Inr (result @ [unat target]))) ts acc = Inr r \<longleftrightarrow>
      (\<forall>t \<in> set ts. unat t < len) \<and> r = acc @ map unat ts" for acc
    by (induction ts arbitrary: acc) (auto simp: require_address_def)
  then show ?thesis by (simp add: add_targets_def)
qed

lemma unat_next_address:
  assumes "a < len" and "len < 2 ^ 32"
  shows "unat (addr_of a) = a" and "unat (sat_add (addr_of a) 1) = a + 1"
  using assms by (simp_all add: addr_of_def unat_of_nat unat_sat_add)

lemma fallthrough_set: "b \<in> set (fallthrough a len) \<longleftrightarrow> b = a + 1 \<and> b < len"
  by (auto simp: fallthrough_def)

text \<open>Every address the kernel can go on to is an edge, or the end of the stream.\<close>

lemma next_pc_successor:
  assumes "a < length I" and "length I < 2 ^ 32" and "ins \<noteq> I_V2CancelScope"
    and "successors a ins I (length I) = Inr ss" and "pc' \<in> set (next_pcs ins (addr_of a))"
  shows "unat pc' \<in> set ss \<or> unat pc' = length I"
  using assms unat_next_address [OF assms(1,2)]
  by (cases ins) (auto simp: add_targets_Inr fallthrough_set elim!: try_resE split: option.splits)

lemma successors_inside:
  assumes "successors a ins I len = Inr ss" and "b \<in> set ss"
  shows "b < len"
  using assms
  by (cases ins) (auto simp: add_targets_Inr fallthrough_set elim!: try_resE split: option.splits)

section \<open>Heights\<close>

lemma height_check_Inr:
  "height_check a ins h = Inr h' \<Longrightarrow> stack_effect ins = (pops, pushes) \<Longrightarrow> pops \<le> h \<and> h' = h - pops + pushes"
  by (auto simp: height_check_def Let_def not_less split: if_splits instr.splits)

lemma height_edges:
  assumes closed: "flow_closed (height_emit I) H" and h: "H a = Some h" and a: "a < length I"
  obtains h' ss where "height_check a (I ! a) h = Inr h'" "successors a (I ! a) I (length I) = Inr ss"
    "\<And>b. b \<in> set ss \<Longrightarrow> H b = Some h'"
proof -
  have "\<forall>item \<in> set (height_emit I a h). \<exists>a' st'. item = Inr (a', st') \<and> H a' = Some st'"
    using closed h unfolding flow_closed_def by blast
  with a that show thesis
    by (cases "height_check a (I ! a) h"; cases "successors a (I ! a) I (length I)")
      (auto simp: height_emit_def)
qed

section \<open>Control stacks\<close>

lemma next_edge_items:
  "(\<forall>item \<in> set (next_edge len a st). P item) \<longleftrightarrow> (a + 1 < len \<longrightarrow> P (Inr (a + 1, st)))"
  by (auto simp: next_edge_def fallthrough_def)

lemma edges_of_items:
  "(\<forall>item \<in> set (edges_of r f). \<exists>a' st'. item = Inr (a', st') \<and> M a' = Some st') \<longleftrightarrow>
     (\<exists>v. r = Inr v \<and> (\<forall>item \<in> set (f v). \<exists>a' st'. item = Inr (a', st') \<and> M a' = Some st'))"
  by (cases r) (auto simp: edges_of_def)

lemma pop_expecting_Inr:
  "pop_expecting a st k = Inr st' \<longleftrightarrow> (\<exists>tok. st = st' @ [tok] \<and> tok_kind tok = k)"
  by (cases st rule: rev_cases) (auto simp: pop_expecting_def)

lemmas control_words = step_guard_r_def step_arm_timer_def step_timer_cycle_def step_arm_error_def
  step_race_close_def step_join_def step_cancel_scope_def

lemma control_step_next:
  assumes items: "\<forall>item \<in> set (control_step I a st ins). \<exists>a' st'. item = Inr (a', st') \<and> M a' = Some st'"
    and a: "a < length I" "length I < 2 ^ 32"
    and "scope_effect ins = (pops, pushes)" and "ins \<noteq> I_V2CancelScope"
    and pc': "pc' \<in> set (next_pcs ins (addr_of a))"
  shows "unat pc' = length I \<or> (\<exists>st'. M (unat pc') = Some st' \<and> length st' + pops = length st + pushes)"
proof (cases "control_step I a st ins = edges_of (successors a ins I (length I)) (map (\<lambda>a. Inr (a, st)))
    \<and> scope_effect ins = (0, 0)")
  case True
  then show ?thesis
    using items assms(4) next_pc_successor [OF a assms(5) _ pc'] by (auto simp: edges_of_items)
next
  case False
  then show ?thesis
    using assms unat_next_address [OF a]
    by (cases ins)
      (auto simp: next_edge_items edges_of_items ball_Un control_words pop_expecting_Inr split: if_splits option.splits)
qed

lemma control_step_needs:
  assumes items: "\<forall>item \<in> set (control_step I a st ins). \<exists>a' st'. item = Inr (a', st') \<and> M a' = Some st'"
  shows "scopes_needed ins \<le> length st"
  using assms
  by (cases ins)
    (auto simp: next_edge_items edges_of_items control_words pop_expecting_Inr vec_last_def Suc_le_eq split: if_splits option.splits)


lemma control_items:
  assumes closed: "flow_closed (control_emit I) M" and st: "M a = Some st"
    and a: "a < length I" "length I < 2 ^ 32"
  shows "\<forall>item \<in> set (control_step I a st (I ! a)). \<exists>a' st'. item = Inr (a', st') \<and> M a' = Some st'"
proof -
  have "\<forall>item \<in> set (control_emit I a st). \<exists>a' st'. item = Inr (a', st') \<and> M a' = Some st'"
    using closed st unfolding flow_closed_def by blast
  then show ?thesis
    using a unat_next_address(1) [OF a] by (simp add: control_emit_def require_address_def)
qed

section \<open>Fibers on track\<close>

text \<open>A fiber is on track when its address has an entry in both walks and the heights of its two
  stacks are the ones the walks computed there.\<close>

definition on_track :: "instr list \<Rightarrow> fiber \<Rightarrow> bool" where
  "on_track I f =
     (case (height_walk I, control_walk I) of
        (Inr (H, _), Inr (M, _)) \<Rightarrow>
          (case (bt_get H (unat (fb_pc f)), bt_get M (unat (fb_pc f))) of
             (Some h, Some st) \<Rightarrow> length (fb_stack f) = unat h \<and> length (fb_control_stack f) = length st
           | _ \<Rightarrow> False)
      | _ \<Rightarrow> False)"

text \<open>The two words whose effect the verifier does not follow: \<open>V2CancelScope\<close>, a dead end of the
  static graph, and \<open>ExecNative\<close> with operands, which the interpreter never pops.\<close>

fun tracked_word :: "instr \<Rightarrow> bool" where
  "tracked_word I_V2CancelScope = False"
| "tracked_word (I_ExecNative _ argc retc) = (argc = 0 \<and> retc = 0)"
| "tracked_word _ = True"

lemma on_trackE:
  assumes "on_track I f"
  obtains H hl M cl h st where "height_walk I = Inr (H, hl)" "control_walk I = Inr (M, cl)"
    "bt_get H (unat (fb_pc f)) = Some h" "bt_get M (unat (fb_pc f)) = Some st"
    "length (fb_stack f) = unat h" "length (fb_control_stack f) = length st"
    "flow_closed (height_emit I) (bt_get H)" "flow_closed (control_emit I) (bt_get M)"
    "unat (fb_pc f) < length I"
proof -
  from assms obtain H hl M cl h st where w: "height_walk I = Inr (H, hl)" "control_walk I = Inr (M, cl)"
    and e: "bt_get H (unat (fb_pc f)) = Some h" "bt_get M (unat (fb_pc f)) = Some st"
    and l: "length (fb_stack f) = unat h" "length (fb_control_stack f) = length st"
    by (auto simp: on_track_def split: sum.splits prod.splits option.splits)
  note hw = w(1) [unfolded height_walk_Inr] and cw = w(2) [unfolded control_walk_Inr]
  have "dom (bt_get H) \<subseteq> {..<length I}"
    using heights.walk_fixpoint(4) [OF _ hw] by auto
  then have "unat (fb_pc f) < length I" using e(1) by auto
  with w e l heights.walk_fixpoint(1) [OF _ hw] controls.walk_fixpoint(1) [OF _ cw] that show thesis by simp
qed

lemma on_track_by:
  assumes "height_walk I = Inr (H, hl)" "control_walk I = Inr (M, cl)"
    "bt_get H (unat (fb_pc f)) = Some h" "bt_get M (unat (fb_pc f)) = Some st"
    "length (fb_stack f) = unat h" "length (fb_control_stack f) = length st"
  shows "on_track I f"
  using assms by (simp add: on_track_def)

lemma tracked_push: "tracked_word ins \<Longrightarrow> stack_effect ins = (pops, pushes) \<Longrightarrow> pushes = 0 \<or> pushes = 1"
  by (cases ins) auto

lemma height_grows:
  assumes tracked: "list_all tracked_word I" and "Inr (b, h') \<in> set (height_emit I a h)"
  shows "unat h' \<le> Suc (unat h)"
proof -
  obtain pops pushes where eff: "stack_effect (I ! a) = (pops, pushes)" by fastforce
  from assms(2) have a: "a < length I" and "height_check a (I ! a) h = Inr h'"
    by (auto simp: height_emit_def split: if_splits sum.splits elim!: try_resE)
  from height_check_Inr [OF this(2) eff] have "pops \<le> h" "h' = h - pops + pushes" by auto
  moreover have "pushes = 0 \<or> pushes = 1"
    using tracked_push [OF _ eff] tracked a by (simp add: list_all_length)
  ultimately show ?thesis
    by (auto simp: unat_word_ariths unat_sub_if' word_le_nat_alt intro: le_trans [OF mod_less_eq_dividend])
qed

lemma height_le_length:
  assumes "list_all tracked_word I" and "height_walk I = Inr (H, hl)" and "bt_get H a = Some h"
  shows "unat h \<le> length I"
  using heights.walk_rank [of "[0]" I 0 _ H hl unat a h] height_grows [OF assms(1)] assms(2,3)
  by (simp add: height_walk_Inr)

lemma on_track_step:
  assumes track: "on_track (wf_instructions w) (tk_fiber ts)"
    and tracked: "list_all tracked_word (wf_instructions w)" and len: "Suc (length (wf_instructions w)) < 2 ^ 32"
    and step: "tick_step x w s cx ts = Inr (Next ts')"
  shows "on_track (wf_instructions w) (tk_fiber ts') \<or> unat (fb_pc (tk_fiber ts')) = length (wf_instructions w)"
proof -
  let ?I = "wf_instructions w" and ?f = "tk_fiber ts" and ?f' = "tk_fiber ts'"
  let ?a = "unat (fb_pc ?f)"
  let ?ins = "?I ! ?a"
  obtain pops pushes where eff: "stack_effect ?ins = (pops, pushes)" by fastforce
  obtain cpops cpushes where ceff: "scope_effect ?ins = (cpops, cpushes)" by fastforce
  from track obtain H hl M cl h st where t: "height_walk ?I = Inr (H, hl)" "control_walk ?I = Inr (M, cl)"
    "bt_get H ?a = Some h" "bt_get M ?a = Some st"
    "length (fb_stack ?f) = unat h" "length (fb_control_stack ?f) = length st"
    "flow_closed (height_emit ?I) (bt_get H)" "flow_closed (control_emit ?I) (bt_get M)"
    and a: "?a < length ?I"
    by (rule on_trackE)
  have len': "length ?I < 2 ^ 32" using len by simp
  have tr: "tracked_word ?ins" using tracked a by (simp add: list_all_length)
  then have nc: "?ins \<noteq> I_V2CancelScope" by auto
  have ex: "exec_instr x w s cx ?ins ts = Inr (Next ts')"
    using step a by (simp add: tick_step_def vec_get_def)
  have pc: "addr_of ?a = fb_pc ?f" by (simp add: addr_of_def)
  have next_pc: "fb_pc ?f' \<in> set (next_pcs ?ins (addr_of ?a))"
    using exec_next_pc [OF ex] by (simp add: pc)
  from height_edges [OF t(7,3) a] obtain h' ss where hc: "height_check ?a ?ins h = Inr h'"
    and ss: "successors ?a ?ins ?I (length ?I) = Inr ss" "\<And>b. b \<in> set ss \<Longrightarrow> bt_get H b = Some h'"
    by blast
  have h': "pops \<le> h" "h' = h - pops + pushes" using height_check_Inr [OF hc eff] by auto
  have "unat h \<le> length ?I" by (rule height_le_length [OF tracked t(1,3)])
  then have unat_h': "unat h' + unat pops = unat h + unat pushes"
    using h' tracked_push [OF tr eff] len
    by (auto simp: unat_word_ariths unat_sub_if' word_le_nat_alt)
  have ops: "length (fb_stack ?f') + unat pops = length (fb_stack ?f) + unat pushes"
    using exec_next_operands [OF ex nc _ eff] tr by fastforce
  have scopes: "length (fb_control_stack ?f') + cpops = length (fb_control_stack ?f) + cpushes"
    using exec_next_scopes [OF ex nc ceff] by blast
  show ?thesis
  proof (cases "unat (fb_pc ?f') = length ?I")
    case False
    then have "bt_get H (unat (fb_pc ?f')) = Some h'"
      using next_pc_successor [OF a len' nc ss(1) next_pc] ss(2) by blast
    moreover obtain st' where "bt_get M (unat (fb_pc ?f')) = Some st'"
        "length st' + cpops = length st + cpushes"
      using control_step_next [OF control_items [OF t(8,4) a len'] a len' ceff nc next_pc] False by blast
    ultimately have "on_track ?I ?f'"
      using t ops scopes unat_h' by (intro on_track_by [OF t(1,2)]) auto
    then show ?thesis ..
  qed simp
qed

lemma on_track_no_underflow:
  assumes track: "on_track (wf_instructions w) (tk_fiber ts)" and len: "length (wf_instructions w) < 2 ^ 32"
  shows "tick_step x w s cx ts \<noteq> Inl (StackUnderflow word)"
proof
  let ?I = "wf_instructions w" and ?f = "tk_fiber ts"
  let ?a = "unat (fb_pc ?f)"
  assume step: "tick_step x w s cx ts = Inl (StackUnderflow word)"
  from track obtain H hl M cl h st where t: "height_walk ?I = Inr (H, hl)" "control_walk ?I = Inr (M, cl)"
    "bt_get H ?a = Some h" "bt_get M ?a = Some st"
    "length (fb_stack ?f) = unat h" "length (fb_control_stack ?f) = length st"
    "flow_closed (height_emit ?I) (bt_get H)" "flow_closed (control_emit ?I) (bt_get M)"
    and a: "?a < length ?I"
    by (rule on_trackE)
  obtain pops pushes where eff: "stack_effect (?I ! ?a) = (pops, pushes)" by fastforce
  obtain h' where "height_check ?a (?I ! ?a) h = Inr h'" by (rule height_edges [OF t(7,3) a])
  then have "pops \<le> h" using height_check_Inr [OF _ eff] by simp
  then have "unat pops \<le> length (fb_stack ?f)" using t(5) by (simp add: word_le_nat_alt)
  moreover have "scopes_needed (?I ! ?a) \<le> length (fb_control_stack ?f)"
    using control_step_needs [OF control_items [OF t(8,4) a len]] t(6) by simp
  moreover have "exec_instr x w s cx (?I ! ?a) ts = Inl (StackUnderflow word)"
    using step a by (simp add: tick_step_def vec_get_def)
  ultimately show False using exec_underflow [of x w s cx "?I ! ?a" ts word] eff by simp
qed

end
