(* ===== verification/VerifierLimits.thy ===== *)
theory VerifierLimits
  imports VerifierLaws
begin

text \<open>
  The limits that the walks compute bound the stacks of every entry, and the check V-11 accepts a
  program exactly when every reachable instruction has a path to a terminal one. One unit of fuel per
  instruction is enough for every walk.
\<close>

section \<open>Limits\<close>

lemma max_stack_account:
  "stack_effect (I ! a) = (pops, pushes) \<Longrightarrow>
   hl_max_stack (height_account I a h acc) = max (hl_max_stack acc) (h - pops + pushes)"
  by (simp add: height_account_def Let_def split: instr.splits)

lemma max_stack_log:
  "hl_max_stack acc \<le> hl_max_stack (fold (\<lambda>(a, h). height_account I a h) log acc) \<and>
   ((a, h) \<in> set log \<longrightarrow> stack_effect (I ! a) = (pops, pushes) \<longrightarrow>
      h - pops + pushes \<le> hl_max_stack (fold (\<lambda>(a, h). height_account I a h) log acc))"
proof (induction log arbitrary: acc)
  case (Cons p log)
  obtain b k where p: "p = (b, k)" by fastforce
  obtain q r where eff: "stack_effect (I ! b) = (q, r)" by fastforce
  show ?case
    using Cons.IH [of "height_account I b k acc"] max_stack_account [OF eff, of k acc] eff
    by (auto simp: p)
qed simp

lemma max_depth_log:
  "cl_max_control_depth acc \<le> cl_max_control_depth (fold (\<lambda>(a, st). control_account I a st) log acc) \<and>
   ((a, st) \<in> set log \<longrightarrow>
      of_nat (length st) \<le> cl_max_control_depth (fold (\<lambda>(a, st). control_account I a st) log acc))"
proof (induction log arbitrary: acc)
  case (Cons p log)
  then show ?case
    using Cons.IH [of "control_account I (fst p) (snd p) acc"] by (auto simp: control_account_def Let_def split: prod.splits)
qed simp

lemma height_le_max_stack:
  assumes "height_walk I = Inr (H, hl)" and "bt_get H a = Some h"
  shows "h \<le> hl_max_stack hl"
proof -
  note w = assms(1) [unfolded height_walk_Inr]
  from heights.walk_fixpoint(4) [OF _ w] obtain log where
    log: "\<And>a st. (a, st) \<in> set log \<longleftrightarrow> bt_get H a = Some st" "dom (bt_get H) \<subseteq> {..<length I}"
    and hl: "hl = fold (\<lambda>(a, h). height_account I a h) log
      \<lparr>hl_reachable_end = False, hl_max_stack = 0, hl_max_fibers = 1, hl_loop_multiplier = 1\<rparr>"
    by auto
  have reach: "flow_reach (height_emit I) ((\<lambda>a. (a, 0)) ` set [0]) a h"
    using heights.walk_fixpoint(3) [OF _ w] assms(2) by simp
  then show ?thesis
  proof cases
    case root
    then show ?thesis by simp
  next
    case (edge b k)
    have b: "bt_get H b = Some k"
      using heights.walk_fixpoint(3) [OF _ w] edge(1) by simp
    obtain q r where eff: "stack_effect (I ! b) = (q, r)" by fastforce
    have "height_check b (I ! b) k = Inr h"
      using edge(2) by (auto simp: height_emit_def split: if_splits sum.splits elim!: try_resE)
    then have "h = k - q + r" using height_check_Inr [OF _ eff] by blast
    then show ?thesis
      using max_stack_log [of _ I log b k q r] log(1) b eff unfolding hl by blast
  qed
qed

lemma forward_edge_item: "Inr (b, st') \<in> set (forward_edge a e st t) \<longleftrightarrow> st' = st \<and> b = unat t \<and> a < unat t"
  by (auto simp: forward_edge_def check_forward_def)

lemma pop_shorter: "pop_expecting a st k = Inr st' \<Longrightarrow> length st' \<le> Suc (length st)"
  by (auto simp: pop_expecting_Inr)

lemma control_grows: "Inr (b, st') \<in> set (control_emit I a st) \<Longrightarrow> length st' \<le> Suc (length st)"
  by (cases "I ! a")
    (auto simp: control_emit_def control_words edges_of_def next_edge_def forward_edge_item dest!: pop_shorter
      split: sum.splits if_splits option.splits)

lemma depth_le_max:
  assumes "control_walk I = Inr (M, cl)" and "bt_get M a = Some st" and "length I < 2 ^ 32"
  shows "length st \<le> unat (cl_max_control_depth cl)"
proof -
  note w = assms(1) [unfolded control_walk_Inr]
  from controls.walk_fixpoint(4) [OF _ w] obtain log where
    log: "\<And>a st. (a, st) \<in> set log \<longleftrightarrow> bt_get M a = Some st"
    and cl: "cl = fold (\<lambda>(a, st). control_account I a st) log
      \<lparr>cl_max_control_depth = 0, cl_max_barriers = 0, cl_max_records = 0\<rparr>"
    by auto
  have "length st \<le> length I"
    using controls.walk_rank [of "[0]" I "[]" _ M cl length a st] control_grows w assms(2) by simp
  then have "unat (of_nat (length st) :: u32) = length st"
    using assms(3) by (simp add: unat_of_nat)
  then show ?thesis
    using max_depth_log [of _ I log a st] log assms(2) unfolding cl by (metis word_le_nat_alt)
qed

section \<open>Terminal reachability\<close>

definition cfg_edge :: "instr list \<Rightarrow> nat \<Rightarrow> nat \<Rightarrow> bool" where
  "cfg_edge I a b \<longleftrightarrow> a < length I \<and> (\<exists>ss. successors a (I ! a) I (length I) = Inr ss \<and> b \<in> set ss)"

lemma cfg_reach_inside: "(cfg_edge I)\<^sup>*\<^sup>* 0 a \<Longrightarrow> I \<noteq> [] \<Longrightarrow> a < length I"
  by (induction rule: rtranclp_induct) (auto simp: cfg_edge_def dest: successors_inside)

lemma forward_emit_edge: "Inr (b, ()) \<in> set (forward_emit I a ()) \<longleftrightarrow> cfg_edge I a b"
  by (auto simp: forward_emit_def cfg_edge_def split: sum.splits)

lemma flow_reach_unit:
  assumes "\<And>a b. Inr (b, ()) \<in> set (emit a ()) \<longleftrightarrow> edge a b"
  shows "flow_reach emit ((\<lambda>a. (a, ())) ` R) b () \<longleftrightarrow> (\<exists>a \<in> R. edge\<^sup>*\<^sup>* a b)"
proof
  have "flow_reach emit ((\<lambda>a. (a, ())) ` R) b u \<Longrightarrow> \<exists>a \<in> R. edge\<^sup>*\<^sup>* a b" for u
    by (induction rule: flow_reach.induct) (auto simp: assms intro: rtranclp.rtrancl_into_rtrancl)
  then show "flow_reach emit ((\<lambda>a. (a, ())) ` R) b () \<Longrightarrow> \<exists>a \<in> R. edge\<^sup>*\<^sup>* a b" .
next
  have "edge\<^sup>*\<^sup>* a b \<Longrightarrow> a \<in> R \<Longrightarrow> flow_reach emit ((\<lambda>a. (a, ())) ` R) b ()" for a
    by (induction rule: rtranclp_induct) (auto simp: assms [symmetric] intro: flow_reach.root flow_reach.edge)
  then show "\<exists>a \<in> R. edge\<^sup>*\<^sup>* a b \<Longrightarrow> flow_reach emit ((\<lambda>a. (a, ())) ` R) b ()" by blast
qed


lemma forward_walk_Inr:
  "forward_walk I = Inr r \<longleftrightarrow> forwards.walk I () [0] bt_empty = Some (Inr r)"
  by (simp add: forward_walk_def forwards.walk_def run_walk_Inr)

lemma reverse_walk_Inr:
  "reverse_walk len fe roots = Inr r \<longleftrightarrow> reverses.walk len fe () roots () = Some (Inr r)"
  by (simp only: reverse_walk_def reverses.walk_def run_walk_Inr)

text \<open>Every reachable instruction has successors.\<close>

definition edges_valid :: "instr list \<Rightarrow> bool" where
  "edges_valid I \<longleftrightarrow> (\<forall>a. (cfg_edge I)\<^sup>*\<^sup>* 0 a \<longrightarrow> (\<exists>ss. successors a (I ! a) I (length I) = Inr ss))"

lemma forward_walk_reaches:
  assumes "forward_walk I = Inr (reached, fe)"
  shows "bt_contains reached a \<longleftrightarrow> (cfg_edge I)\<^sup>*\<^sup>* 0 a"
proof -
  note w = assms [unfolded forward_walk_Inr]
  have "bt_contains reached a \<longleftrightarrow> bt_get reached a = Some ()"
    by (simp add: bt_contains_def)
  also have "\<dots> \<longleftrightarrow> flow_reach (forward_emit I) ((\<lambda>a. (a, ())) ` {0}) a ()"
    using forwards.walk_fixpoint(3) [OF _ w] by simp
  also have "\<dots> \<longleftrightarrow> (cfg_edge I)\<^sup>*\<^sup>* 0 a"
    using flow_reach_unit [of "forward_emit I" "cfg_edge I" "{0}" a] forward_emit_edge by simp
  finally show ?thesis .
qed

lemma forward_walk_accepts: "(\<exists>r. forward_walk I = Inr r) \<longleftrightarrow> I \<noteq> [] \<and> edges_valid I"
proof
  assume "\<exists>r. forward_walk I = Inr r"
  then obtain reached fe where fw: "forward_walk I = Inr (reached, fe)" by fastforce
  note w = fw [unfolded forward_walk_Inr]
  have "\<exists>ss. successors a (I ! a) I (length I) = Inr ss" if "(cfg_edge I)\<^sup>*\<^sup>* 0 a" for a
  proof -
    have "bt_get reached a = Some ()"
      using that forward_walk_reaches [OF fw] by (simp add: bt_contains_def)
    then have "\<forall>item \<in> set (forward_emit I a ()). \<exists>a' st'. item = Inr (a', st')"
      using forwards.walk_fixpoint(1) [OF _ w] unfolding flow_closed_def by fastforce
    then show ?thesis
      by (cases "successors a (I ! a) I (length I)") (auto simp: forward_emit_def split: if_splits)
  qed
  moreover have "I \<noteq> []"
    using w by (auto simp: forwards.walk_def forward_emit_def flow_emit_def flow_roots_get)
  ultimately show "I \<noteq> [] \<and> edges_valid I" by (simp add: edges_valid_def)
next
  assume v: "I \<noteq> [] \<and> edges_valid I"
  let ?M = "\<lambda>a. if (cfg_edge I)\<^sup>*\<^sup>* 0 a then Some () else None"
  have "flow_closed (forward_emit I) ?M"
    unfolding flow_closed_def
  proof (intro allI impI ballI)
    fix a u item
    assume "?M a = Some u" and item: "item \<in> set (forward_emit I a u)"
    then have a: "(cfg_edge I)\<^sup>*\<^sup>* 0 a" by (simp split: if_splits)
    then obtain ss where ss: "successors a (I ! a) I (length I) = Inr ss" using v by (auto simp: edges_valid_def)
    have "a < length I" using cfg_reach_inside [OF a] v by simp
    then obtain b where "b \<in> set ss" "item = Inr (b, ())"
      using item ss by (auto simp: forward_emit_def)
    moreover have "cfg_edge I a b" using \<open>a < length I\<close> ss calculation(1) by (auto simp: cfg_edge_def)
    then have "(cfg_edge I)\<^sup>*\<^sup>* 0 b" using a by (rule rtranclp.rtrancl_into_rtrancl [rotated])
    ultimately show "\<exists>a' st'. item = Inr (a', st') \<and> ?M a' = Some st'" by auto
  qed
  then have "\<exists>M. flow_closed (forward_emit I) M \<and> (\<forall>a \<in> set [0]. M a = Some ())"
    by (intro exI [of _ ?M]) simp
  then show "\<exists>r. forward_walk I = Inr r"
    unfolding forward_walk_Inr by (rule iffD2 [OF forwards.walk_accepts_iff, rotated]) simp
qed

lemma forward_account_get:
  "bt_get (forward_account I b u m) a =
     (case successors a (I ! a) I (length I) of Inr ss \<Rightarrow> if a = b then Some ss else bt_get m a | Inl _ \<Rightarrow> bt_get m a)"
  by (cases "a = b") (auto simp: forward_account_def bt_get_insert split: sum.splits)

lemma forward_log_get:
  "bt_get (fold (\<lambda>(a, st). forward_account I a st) log m) a =
     (case successors a (I ! a) I (length I) of
        Inr ss \<Rightarrow> if (a, ()) \<in> set log then Some ss else bt_get m a | Inl _ \<Rightarrow> bt_get m a)"
proof (induction log arbitrary: m)
  case (Cons p log)
  then show ?case
    by (cases p; cases "successors a (I ! a) I (length I)") (auto simp: forward_account_get)
qed (simp split: sum.splits)

lemma forward_walk_edges:
  assumes "forward_walk I = Inr (reached, fe)"
  shows "bt_get fe a = Some ss \<longleftrightarrow> (cfg_edge I)\<^sup>*\<^sup>* 0 a \<and> successors a (I ! a) I (length I) = Inr ss"
proof -
  note w = assms [unfolded forward_walk_Inr]
  from forwards.walk_fixpoint(4) [OF _ w] obtain log where
    log: "\<And>a st. (a, st) \<in> set log \<longleftrightarrow> bt_get reached a = Some st"
    and fe: "fe = fold (\<lambda>(a, st). forward_account I a st) log bt_empty"
    by auto
  have "(a, ()) \<in> set log \<longleftrightarrow> (cfg_edge I)\<^sup>*\<^sup>* 0 a"
    using forward_walk_reaches [OF assms, of a] log by (simp add: bt_contains_def)
  then show ?thesis
    by (simp add: fe forward_log_get split: sum.splits)
qed

text \<open>An edge of the reverse graph is an edge walked forward, turned around.\<close>

lemma reverse_emit_edge:
  assumes "forward_walk I = Inr (reached, fe)"
  shows "Inr (b, ()) \<in> set (reverse_emit (length I) fe a ()) \<longleftrightarrow>
    a < length I \<and> b < length I \<and> (cfg_edge I)\<^sup>*\<^sup>* 0 b \<and> cfg_edge I b a"
proof -
  have "b \<in> set (reverse_edges (length I) fe a) \<longleftrightarrow> b < length I \<and> (\<exists>ss. bt_get fe b = Some ss \<and> a \<in> set ss)"
    by (cases "bt_get fe b") (force simp: reverse_edges_def unwrap_or_def)+
  then show ?thesis
    using forward_walk_edges [OF assms, of b] by (auto simp: reverse_emit_def cfg_edge_def)
qed

lemma reverse_walk_accepts:
  assumes "distinct roots" and "set roots \<subseteq> {..<len}"
  shows "\<exists>r. reverse_walk len fe roots = Inr r"
proof -
  let ?M = "\<lambda>a. if a < len then Some () else None"
  have "flow_closed (reverse_emit len fe) ?M"
    by (auto simp: flow_closed_def reverse_emit_def reverse_edges_def split: if_splits)
  then have "\<exists>M. flow_closed (reverse_emit len fe) M \<and> (\<forall>a \<in> set roots. M a = Some ())"
    using assms(2) by (intro exI [of _ ?M]) auto
  then show ?thesis
    unfolding reverse_walk_Inr by (rule iffD2 [OF reverses.walk_accepts_iff [OF assms(1)]])
qed

lemma reverse_walk_reaches:
  assumes fw: "forward_walk I = Inr (reached, fe)" and "distinct roots"
    and rw: "reverse_walk (length I) fe roots = Inr (reaching, u)" and roots: "\<forall>b \<in> set roots. (cfg_edge I)\<^sup>*\<^sup>* 0 b"
    and I: "I \<noteq> []" and a: "(cfg_edge I)\<^sup>*\<^sup>* 0 a"
  shows "bt_contains reaching a \<longleftrightarrow> (\<exists>b \<in> set roots. (cfg_edge I)\<^sup>*\<^sup>* a b)"
proof -
  let ?R = "\<lambda>a b. a < length I \<and> b < length I \<and> (cfg_edge I)\<^sup>*\<^sup>* 0 b \<and> cfg_edge I b a"
  have "bt_contains reaching a \<longleftrightarrow> bt_get reaching a = Some ()"
    by (simp add: bt_contains_def)
  also have "\<dots> \<longleftrightarrow> flow_reach (reverse_emit (length I) fe) ((\<lambda>a. (a, ())) ` set roots) a ()"
    by (rule reverses.walk_fixpoint(3) [OF assms(2) rw [unfolded reverse_walk_Inr]])
  also have "\<dots> \<longleftrightarrow> (\<exists>b \<in> set roots. ?R\<^sup>*\<^sup>* b a)"
    by (rule flow_reach_unit) (rule reverse_emit_edge [OF fw])
  also have "\<dots> \<longleftrightarrow> (\<exists>b \<in> set roots. (cfg_edge I)\<^sup>*\<^sup>* a b)"
  proof -
    have turned: "?R\<^sup>*\<^sup>* b c \<Longrightarrow> (cfg_edge I)\<^sup>*\<^sup>* c b" for b c
      by (induction rule: rtranclp_induct) (auto intro: converse_rtranclp_into_rtranclp)
    have straight: "(cfg_edge I)\<^sup>*\<^sup>* c b \<Longrightarrow> (cfg_edge I)\<^sup>*\<^sup>* 0 c \<Longrightarrow> ?R\<^sup>*\<^sup>* b c" for b c
    proof (induction rule: converse_rtranclp_induct)
      case (step c d)
      then have d: "(cfg_edge I)\<^sup>*\<^sup>* 0 d" by simp
      then have "?R d c" using step(1,4) cfg_reach_inside [OF _ I] by auto
      then show ?case using step.IH [OF d] by (rule rtranclp.rtrancl_into_rtrancl [rotated])
    qed simp
    show ?thesis using turned straight [OF _ a] by blast
  qed
  finally show ?thesis .
qed

lemma terminal_roots_set:
  assumes "forward_walk I = Inr (reached, fe)"
  shows "b \<in> set (terminal_roots I reached) \<longleftrightarrow>
    b < length I \<and> (cfg_edge I)\<^sup>*\<^sup>* 0 b \<and> is_terminal_instr (I ! b)"
  using forward_walk_reaches [OF assms] by (auto simp: terminal_roots_def)

lemma verify_terminal_reachability_iff:
  "verify_terminal_reachability I = Inr () \<longleftrightarrow> I = [] \<or> edges_valid I \<and>
     (\<forall>a. (cfg_edge I)\<^sup>*\<^sup>* 0 a \<longrightarrow> (\<exists>b. (cfg_edge I)\<^sup>*\<^sup>* a b \<and> is_terminal_instr (I ! b)))"
proof (cases "I = [] \<or> \<not> edges_valid I")
  case True
  moreover have "verify_terminal_reachability I \<noteq> Inr ()" if "I \<noteq> []" "\<not> edges_valid I"
    using forward_walk_accepts [of I] that
    by (cases "forward_walk I") (auto simp: verify_terminal_reachability_def)
  ultimately show ?thesis by (auto simp: verify_terminal_reachability_def)
next
  case False
  then have I: "I \<noteq> []" "edges_valid I" by auto
  obtain reached fe where fw: "forward_walk I = Inr (reached, fe)"
    using forward_walk_accepts [of I] I by fastforce
  let ?roots = "terminal_roots I reached"
  have roots: "distinct ?roots" "set ?roots \<subseteq> {..<length I}"
    by (auto simp: terminal_roots_def)
  obtain reaching u where rw: "reverse_walk (length I) fe ?roots = Inr (reaching, u)"
    using reverse_walk_accepts [OF roots, of fe] by fastforce
  have reaching: "bt_contains reaching a \<longleftrightarrow> (\<exists>b. (cfg_edge I)\<^sup>*\<^sup>* a b \<and> is_terminal_instr (I ! b))"
    if a: "(cfg_edge I)\<^sup>*\<^sup>* 0 a" for a
  proof -
    have "b < length I \<and> (cfg_edge I)\<^sup>*\<^sup>* 0 b" if "(cfg_edge I)\<^sup>*\<^sup>* a b" for b
      using rtranclp_trans [OF a that] cfg_reach_inside [OF _ I(1)] by blast
    then show ?thesis
      using reverse_walk_reaches [OF fw roots(1) rw _ I(1) a] terminal_roots_set [OF fw] by blast
  qed
  show ?thesis
    using I reaching cfg_reach_inside [OF _ I(1)] forward_walk_reaches [OF fw]
    by (auto simp: verify_terminal_reachability_def fw rw res_simps split: if_splits)
qed

section \<open>The fuel is never exhausted\<close>

lemma add_targets_finished: "add_targets a len d ts \<noteq> Inl WalkNotFinished"
proof -
  have "fold_res (\<lambda>target result. try_res (require_address target len (addr_of a) d)
      (\<lambda>_. Inr (result @ [unat target]))) ts acc \<noteq> Inl WalkNotFinished" for acc
    by (induction ts arbitrary: acc) (auto simp: require_address_def)
  then show ?thesis by (simp add: add_targets_def)
qed

lemma race_scan_finished: "race_scan c I n ts \<noteq> Inl WalkNotFinished"
  by (induction c I n ts rule: race_scan.induct) (auto split: instr.splits)

lemma successors_finished: "successors a ins I len \<noteq> Inl WalkNotFinished"
  by (cases ins)
    (auto simp: try_res_Inl add_targets_finished race_arm_targets_def race_scan_finished split: option.splits)

lemma height_check_finished: "height_check a ins h \<noteq> Inl WalkNotFinished"
  by (auto simp: height_check_def Let_def split: if_splits prod.splits instr.splits)

lemma height_emit_finished: "Inl WalkNotFinished \<notin> set (height_emit I a h)"
  by (auto simp: height_emit_def try_res_Inl height_check_finished successors_finished split: sum.splits)

lemma pop_finished: "pop_expecting a st k \<noteq> Inl WalkNotFinished"
  by (auto simp: pop_expecting_def violation_def split: option.splits)

lemma control_emit_finished: "Inl WalkNotFinished \<notin> set (control_emit I a st)"
  using successors_finished pop_finished
  by (cases "I ! a")
    (auto simp: control_emit_def require_address_def control_words violation_def edges_of_def next_edge_def
      forward_edge_def check_forward_def race_arm_targets_def race_scan_finished try_res_Inl add_targets_finished
      split: sum.splits if_splits option.splits)

lemma forward_emit_finished: "Inl WalkNotFinished \<notin> set (forward_emit I a u)"
  using successors_finished by (auto simp: forward_emit_def violation_def split: sum.splits)

lemma reverse_emit_finished: "Inl WalkNotFinished \<notin> set (reverse_emit len fe a u)"
  by (auto simp: reverse_emit_def violation_def)

lemma run_walk_finished:
  "\<exists>v. r = Some v \<Longrightarrow> r \<noteq> Some (Inl WalkNotFinished) \<Longrightarrow> run_walk r \<noteq> Inl WalkNotFinished"
  by (auto simp: run_walk_def)

lemma walk_errors_finished:
  "\<not> (\<exists>a b s s'. WalkNotFinished = height_conflict a b s s')"
  "\<not> (\<exists>a b s s'. WalkNotFinished = control_conflict a b s s')"
  "\<not> (\<exists>a b s s'. WalkNotFinished = mark_conflict a b s s')"
  "\<not> (\<exists>a. WalkNotFinished = height_missing a)"
  by (simp_all add: height_conflict_def control_conflict_def mark_conflict_def height_missing_def violation_def)

lemma walks_finish:
  "height_walk I \<noteq> Inl WalkNotFinished"
  "control_walk I \<noteq> Inl WalkNotFinished"
  "forward_walk I \<noteq> Inl WalkNotFinished"
  "distinct roots \<Longrightarrow> reverse_walk len fe roots \<noteq> Inl WalkNotFinished"
proof -
  show "height_walk I \<noteq> Inl WalkNotFinished"
    unfolding height_walk_def heights.walk_def [symmetric]
    by (rule run_walk_finished [OF heights.walk_returns])
      (use height_emit_finished walk_errors_finished in \<open>auto simp only: heights.walk_def dest!: flow_loop_Inl\<close>, simp)
  show "control_walk I \<noteq> Inl WalkNotFinished"
    unfolding control_walk_def controls.walk_def [symmetric]
    by (rule run_walk_finished [OF controls.walk_returns])
      (use control_emit_finished walk_errors_finished in \<open>auto simp only: controls.walk_def dest!: flow_loop_Inl\<close>, simp)
  show "forward_walk I \<noteq> Inl WalkNotFinished"
    unfolding forward_walk_def forwards.walk_def [symmetric]
    by (rule run_walk_finished [OF forwards.walk_returns])
      (use forward_emit_finished walk_errors_finished in \<open>auto simp only: forwards.walk_def dest!: flow_loop_Inl\<close>, simp)
  show "reverse_walk len fe roots \<noteq> Inl WalkNotFinished" if "distinct roots"
    unfolding reverse_walk_def reverses.walk_def [symmetric]
    by (rule run_walk_finished [OF reverses.walk_returns [OF that]])
      (use reverse_emit_finished walk_errors_finished in \<open>auto simp only: reverses.walk_def dest!: flow_loop_Inl\<close>)
qed

lemma for_res_finished: "(\<And>a. f a \<noteq> Inl e) \<Longrightarrow> for_res f as \<noteq> Inl e"
  by (induction as) (auto simp: try_res_Inl)

lemma side_tables_finished: "check_side_tables I md \<noteq> Inl WalkNotFinished"
proof -
  have "check_table I d p r ks \<noteq> Inl WalkNotFinished" for d p r ks
    unfolding check_table_def by (rule for_res_finished) (simp add: require_address_def)
  moreover have "for_res (check_references md) ps \<noteq> Inl WalkNotFinished" for ps
    by (rule for_res_finished) (auto simp: check_references_def Let_def split: prod.splits instr.splits)
  moreover have "for_res (\<lambda>address. require_address address n address d) ks \<noteq> Inl WalkNotFinished" for n d ks
    by (rule for_res_finished) (simp add: require_address_def)
  ultimately show ?thesis
    unfolding check_side_tables_def by (auto simp: try_res_Inl split: if_splits)
qed

lemma terminal_finished: "verify_terminal_reachability I \<noteq> Inl WalkNotFinished"
proof -
  have "distinct (terminal_roots I r)" for r by (simp add: terminal_roots_def)
  moreover have "for_res (\<lambda>a. if P a then Inl (violation a (V11_NoTerminal (I ! a))) else Inr ()) as
      \<noteq> Inl WalkNotFinished" for P as
    by (rule for_res_finished) (simp add: violation_def)
  ultimately show ?thesis
    using walks_finish unfolding verify_terminal_reachability_def by (auto simp: try_res_Inl Let_def split: if_splits)
qed

lemma verify_program_finished: "verify_program I md \<noteq> Inl WalkNotFinished"
  using side_tables_finished walks_finish terminal_finished
  by (auto simp: verify_program_def verify_v2_control_stack_def try_res_Inl split: if_splits)

end
