(* ===== verification/VerifierTheorems.thy ===== *)
theory VerifierTheorems
  imports VerifierLimits Samples
begin

text \<open>
  The properties of the artifact verifier, alone and together with the interpreter: acceptance
  means a consistent assignment of abstract control stacks, the walks end, V-11 is exact, and a fiber
  of a verified program stays on the heights that the verifier computed, as long as the program
  has no \<open>V2CancelScope\<close> and no native call with operands or results. Three accepted programs show where
  the verifier does not look.
\<close>

lemmas verify_eval =
  verify_program_def check_side_tables_def check_table_def check_references_def require_address_def
  height_walk_def height_emit_def height_check_def height_account_def height_conflict_def guard_fibers_def
  add_targets_def fallthrough_def race_arm_targets_def addr_of_def run_walk_def sat_mul_def
  flow_roots_def flow_emit_def flow_propagate_def
  verify_v2_control_stack_def control_walk_def control_emit_def control_account_def control_words
  next_edge_def forward_edge_def check_forward_def edges_of_def token_at_def pop_expecting_def
  fibre_multiplicity_def fork_arity_def is_barrier_def loop_multiplier_u32_def is_guard_kind_def
  arms_code_def is_arm_word_def is_arm_timer_def
  verify_terminal_reachability_def forward_walk_def forward_emit_def forward_account_def
  reverse_walk_def reverse_emit_def reverse_edges_def terminal_roots_def is_terminal_instr_def
  bt_contains_def unwrap_or_def

section \<open>The verifier\<close>

text \<open>
  C34. The control-stack verifier accepts a program exactly when the addresses can be given
  abstract control stacks, the empty one at the entry, such that no instruction violates a rule
  V-1 to V-5, V-8 or V-10 at its stack and every edge leads to an address with the stack the
  edge produces.
\<close>

theorem control_stacks_consistent:
  "(\<exists>limits. verify_v2_control_stack I loop_multiplier = Inr limits) \<longleftrightarrow>
     (\<exists>M. flow_closed (control_emit I) M \<and> M 0 = Some [])"
proof -
  have "(\<exists>limits. verify_v2_control_stack I loop_multiplier = Inr limits) \<longleftrightarrow> (\<exists>r. control_walk I = Inr r)"
    by (cases "control_walk I") (auto simp: verify_v2_control_stack_def)
  also have "\<dots> \<longleftrightarrow> (\<exists>M. flow_closed (control_emit I) M \<and> M 0 = Some [])"
    unfolding control_walk_Inr by (subst controls.walk_accepts_iff) simp_all
  finally show ?thesis .
qed

text \<open>
  C36. Verification ends: every walk visits an address at most once, so one unit of fuel per
  instruction and one more is enough, and \<open>verify_program\<close> never stops for lack of fuel.
\<close>

theorem verify_program_terminates: "verify_program I metadata \<noteq> Inl WalkNotFinished"
  by (rule verify_program_finished)

text \<open>
  C35. V-11 is exact: a non-empty program passes \<open>verify_terminal_reachability\<close> exactly when the
  edges of every reachable instruction are inside the program and every reachable instruction has
  a path to a terminal one.
\<close>

theorem terminal_reachability_exact:
  assumes "I \<noteq> []"
  shows "verify_terminal_reachability I = Inr () \<longleftrightarrow> edges_valid I \<and>
     (\<forall>a. (cfg_edge I)\<^sup>*\<^sup>* 0 a \<longrightarrow> (\<exists>b. (cfg_edge I)\<^sup>*\<^sup>* a b \<and> is_terminal_instr (I ! b)))"
  using verify_terminal_reachability_iff [of I] assms by simp

theorem terminal_reachability_exact_witness:
  "\<exists>b. (cfg_edge prog_wait)\<^sup>*\<^sup>* 0 b \<and> is_terminal_instr (prog_wait ! b)"
proof -
  have "prog_wait \<noteq> []" by (simp add: prog_wait_def)
  moreover have "verify_terminal_reachability prog_wait = Inr ()"
    by (simp add: prog_wait_def verify_eval sample_eval)
  ultimately show ?thesis using terminal_reachability_exact [of prog_wait] by blast
qed

text \<open>
  An accepted artifact is pinned by its bytes: \<open>verify\<close> accepts a byte string only if it is the
  canonical serialisation of the envelope it yields, whose version is the current one and whose
  limits are the ones the verifier computes, and the artifact hash is the hash of these bytes.
\<close>

lemma accepted_artifact_is_canonical:
  assumes "verify_artifact x to_json from_json bs = Inr w"
  shows "to_json (wf_envelope w) = Inr bs \<and> wf_hash w = x_blake3 x bs
    \<and> ae_abi_version (wf_envelope w) = CURRENT_ARTIFACT_ABI
    \<and> verify_program (wf_instructions w) (wf_metadata w) = Inr (wf_limits w)"
  using assms
  by (auto simp: verify_artifact_def from_verified_envelope_def map_err_Inr elim!: try_resE split: if_splits)

definition wait_limits :: verified_limits where
  "wait_limits = \<lparr>max_stack = 1, max_fibers = 1, max_steps = 3, max_control_depth = 0,
     max_barriers = 0, max_records = 0\<rparr>"

definition wait_envelope :: artifact_envelope where
  "wait_envelope = \<lparr>ae_abi_version = 1, ae_compiler_version = ''c'', ae_instructions = prog_wait,
     ae_metadata = metadata0, ae_limits = wait_limits\<rparr>"

definition wait_workflow :: executable_workflow where
  "wait_workflow = \<lparr>wf_envelope = wait_envelope, wf_hash = x_blake3 x0 ''artifact''\<rparr>"

lemma wait_verified: "verify_program prog_wait metadata0 = Inr wait_limits"
  by (simp add: prog_wait_def wait_limits_def verify_eval sample_eval)

section \<open>The verifier and the interpreter\<close>

lemma on_track_start:
  assumes "verify_program I metadata = Inr limits"
  shows "on_track I (fiber_new i 0)"
proof -
  from assms obtain H hl M cl where w: "height_walk I = Inr (H, hl)" "control_walk I = Inr (M, cl)"
    by (auto simp: verify_program_def verify_v2_control_stack_def elim!: try_resE split: if_splits prod.splits)
  have "bt_get H 0 = Some 0" using heights.walk_fixpoint(2) [OF _ w(1) [unfolded height_walk_Inr]] by simp
  moreover have "bt_get M 0 = Some []"
    using controls.walk_fixpoint(2) [OF _ w(2) [unfolded control_walk_Inr]] by simp
  ultimately show ?thesis using w by (simp add: on_track_def fiber_new_def)
qed




lemma verified_limits_of:
  assumes "verify_program I metadata = Inr l" and "height_walk I = Inr (H, hl)" and "control_walk I = Inr (M, cl)"
  shows "max_stack l = hl_max_stack hl" and "max_control_depth l = cl_max_control_depth cl"
  using assms by (auto simp: verify_program_def verify_v2_control_stack_def elim!: try_resE split: if_splits)

text \<open>
  C33. The limits of the verifier are enough: a fiber on the computed heights passes the Ring 3
  checks of its address and of both its stacks against the limits of the artifact.
\<close>

theorem on_track_within_limits:
  assumes "verify_program (wf_instructions w) metadata = Inr (wf_limits w)"
    and "length (wf_instructions w) < 2 ^ 32" and "on_track (wf_instructions w) f"
  shows "ring3_check_fiber w f = Inr ()"
proof -
  let ?I = "wf_instructions w"
  from assms(3) obtain H hl M cl h st where t: "height_walk ?I = Inr (H, hl)" "control_walk ?I = Inr (M, cl)"
    "bt_get H (unat (fb_pc f)) = Some h" "bt_get M (unat (fb_pc f)) = Some st"
    "length (fb_stack f) = unat h" "length (fb_control_stack f) = length st" "unat (fb_pc f) < length ?I"
    by (rule on_trackE)
  show ?thesis
    using verified_limits_of [OF assms(1) t(1,2)] height_le_max_stack [OF t(1,3)] depth_le_max [OF t(2,4) assms(2)] t(5-7)
    by (simp add: ring3_check_fiber_def word_le_nat_alt)
qed

theorem on_track_within_limits_witness: "ring3_check_fiber wait_workflow (fiber_new 7 0) = Inr ()"
  using on_track_within_limits [of wait_workflow metadata0 "fiber_new 7 0"] wait_verified on_track_start [OF wait_verified]
  by (simp add: wait_workflow_def wait_envelope_def) (simp add: prog_wait_def)

section \<open>Where the verifier does not look\<close>

text \<open>A workflow whose limits are the ones the verifier computes for its program.\<close>

definition limited_workflow :: "instr list \<Rightarrow> verified_limits \<Rightarrow> executable_workflow" where
  "limited_workflow program limits = \<lparr>wf_envelope = \<lparr>ae_abi_version = 1, ae_compiler_version = ''c'',
     ae_instructions = program, ae_metadata = metadata0, ae_limits = limits\<rparr>, wf_hash = hash0\<rparr>"

text \<open>
  A guarded task with a catch-all error arm. The handler of the arm, at address 6, closes a guard
  that is not open there.
\<close>

definition prog_handler :: "instr list" where
  "prog_handler = [I_V2Guard 5, I_V2GuardArmError None 6, I_ExecNative 0 0 0, I_V2GuardEnd, I_End, I_End,
     I_V2GuardEnd, I_End]"

definition handler_limits :: verified_limits where
  "handler_limits = \<lparr>max_stack = 0, max_fibers = 2, max_steps = 8, max_control_depth = 1,
     max_barriers = 0, max_records = 1\<rparr>"

lemmas handler_words =
  exec_guard_def exec_guard_arm_error_def exec_native_def exec_guard_end_def exec_guard_close_def
  pop_handle_def next_id_def open_record_def park_on_job_def 

definition snapshot_after :: "snapshot \<Rightarrow> transition \<Rightarrow> snapshot" where
  "snapshot_after s t = (let (fibers, table) = derive_post_transition_frame s t in
     s\<lparr>sn_instance := tr_next_snapshot t, sn_fibers := fibers, sn_concurrency_table := table\<rparr>)"

definition handler_workflow :: executable_workflow where
  "handler_workflow = limited_workflow prog_handler handler_limits"

definition working7 :: "ext \<Rightarrow> deterministic_context \<Rightarrow> fiber" where
  "working7 x cx = fiber7\<lparr>fb_pc := 2, fb_control_stack := [derived_id x cx 0],
     fb_wait := W_Job (job_key_of x 1 (node_label handler_workflow 2) 2 0)\<rparr>"

definition working_guard :: "ext \<Rightarrow> deterministic_context \<Rightarrow> concurrency_record" where
  "working_guard x cx = (guard_record True (derived_id x cx 0) 5 0)
     \<lparr>rec_members := bs_insert 7 (bs_of_list []), rec_error_routes := [(None, 6)]\<rparr>"

definition working_snapshot where
  "working_snapshot x cx = snapshot0 [working7 x cx] (ct_insert (working_guard x cx) bt_empty)"

lemma bt_insert_again: "bt_insert k v (bt_insert k v' m) = bt_insert k v m"
  by (intro bt_eqI) (simp add: bt_get_insert)

lemma handler_parks:
  "\<exists>t. apply_tick x handler_workflow (snapshot0 [fiber7] bt_empty) (Cmd_Tick None) cx = Inr t
     \<and> snapshot_after (snapshot0 [fiber7] bt_empty) t = working_snapshot x cx"
  by (simp add: prog_handler_def handler_limits_def handler_workflow_def limited_workflow_def sample_eval handler_words
    arm_error_route_def snapshot_after_def working_snapshot_def working7_def working_guard_def ct_insert_def bt_insert_again)

lemma working_cancel:
  "cancel_scope (working_snapshot x cx) (derived_id x cx 0) = Inr ([derived_id x cx 0], [7])"
  by (simp add: working_snapshot_def sample_eval cancel_scope_def scope_fuel_def scope_children_def scope_next_def
    scope_direct_leaves_def working7_def List.map_filter_def bs_list_def bs_of_list_def)

lemma upserts_fold: "(\<And>a ch. ch_fibers_upsert (f a ch) = ch_fibers_upsert ch) \<Longrightarrow>
  ch_fibers_upsert (fold f as ch) = ch_fibers_upsert ch"
  by (induction as arbitrary: ch) simp_all

lemma upserts_kept [simp]:
  "ch_fibers_upsert (push_delete i ch) = ch_fibers_upsert ch"
  "ch_fibers_upsert (push_event e ch) = ch_fibers_upsert ch"
  "ch_fibers_upsert (push_job_mutation jm ch) = ch_fibers_upsert ch"
  "ch_fibers_upsert (push_mutation cm ch) = ch_fibers_upsert ch"
  "ch_fibers_upsert (push_upsert f ch) = ch_fibers_upsert ch @ [f]"
  "ch_fibers_upsert (ack_job_key k ch) = ch_fibers_upsert ch"
  "ch_fibers_upsert changes_default = []"
  by (simp_all add: push_defs ack_job_key_def)

lemma upserts_folds [simp]:
  "ch_fibers_upsert (fold push_delete is ch) = ch_fibers_upsert ch"
  "ch_fibers_upsert (fold push_job_mutation ms ch) = ch_fibers_upsert ch"
  "ch_fibers_upsert (fold (\<lambda>r. push_mutation (g r)) rs ch) = ch_fibers_upsert ch"
  "ch_fibers_upsert (v2_reconcile_ancestor_membership s ops ex ch) = ch_fibers_upsert ch"
  by (simp_all add: upserts_fold v2_reconcile_ancestor_membership_def Let_def)

lemma fiber_new_pc: "fb_pc (fiber_new i a) = a"
  by (simp add: fiber_new_def)

lemma working_rejected:
  "\<exists>t. apply_job_failure x w (working_snapshot x cx) (Cmd_EffectFailed effect_id (job_key_of x 1 (node_label handler_workflow 2) 2 0)
     (BusinessRejection code) message retry attempt) cx' = Inr t \<and> 
     tr_fibers_upsert t = [fiber_new (derived_id x cx' 0) 6]"
proof -
  let ?s = "working_snapshot x cx" and ?h = "derived_id x cx 0"
  have s: "bt_values (sn_fibers ?s) = [working7 x cx]" "ct_get (sn_concurrency_table ?s) ?h = Some (working_guard x cx)"
    "sn_instance ?s = instance0"
    by (simp_all add: working_snapshot_def ct_insert_def ct_get_def sample_eval working_guard_def)
  show ?thesis using s
    by (simp add: apply_job_failure_def failed_fiber_def matched_error_route_def innermost_guard_def route_for_def is_guard_def
     fail_job_routed_def v2_trigger_guard_changes_with_target_def working_cancel handler_stack_of_def unwrap_or_def
     working_guard_def working7_def guard_record_def record_new_def instance0_def Let_def fiber_new_def)
qed


text \<open>
  C37. The handler of an error arm is not verified. A program is accepted, with the limits that the
  verifier computes for it, although the handler that its guard arms closes a scope that is not
  open; the control-stack walk does not visit the handler. The kernel does start a fiber there: run
  from its entry the program parks on a job inside the guard, a business rejection of that job with
  any code starts a fiber at the handler, and every tick of that fiber fails with a stack underflow.
\<close>

theorem error_handler_not_verified:
  "verify_program (wf_instructions handler_workflow) (wf_metadata handler_workflow) = Inr (wf_limits handler_workflow)
    \<and> (\<exists>stacks limits. control_walk (wf_instructions handler_workflow) = Inr (stacks, limits) \<and> bt_get stacks 6 = None)
    \<and> (\<exists>t f key. apply_tick x handler_workflow (snapshot0 [fiber7] bt_empty) (Cmd_Tick None) cx = Inr t
        \<and> bt_get (sn_fibers (snapshot_after (snapshot0 [fiber7] bt_empty) t)) 7 = Some f \<and> fb_wait f = W_Job key
        \<and> (\<exists>t' g. apply_job_failure x handler_workflow (snapshot_after (snapshot0 [fiber7] bt_empty) t)
               (Cmd_EffectFailed effect_id key (BusinessRejection code) message retry attempt) cx' = Inr t'
             \<and> tr_fibers_upsert t' = [g] \<and> fb_pc g = 6
             \<and> tick_loop (Suc n) x handler_workflow s cx'' (tick_start s g) = Inl (StackUnderflow ''V2GuardEnd'')))"
proof -
  let ?key = "job_key_of x 1 (node_label handler_workflow 2) 2 0"
  obtain t where t: "apply_tick x handler_workflow (snapshot0 [fiber7] bt_empty) (Cmd_Tick None) cx = Inr t"
    "snapshot_after (snapshot0 [fiber7] bt_empty) t = working_snapshot x cx" using handler_parks by blast
  obtain t' where t': "apply_job_failure x handler_workflow (working_snapshot x cx)
      (Cmd_EffectFailed effect_id ?key (BusinessRejection code) message retry attempt) cx' = Inr t'"
    "tr_fibers_upsert t' = [fiber_new (derived_id x cx' 0) 6]" using working_rejected by blast
  have "bt_get (sn_fibers (working_snapshot x cx)) 7 = Some (working7 x cx)" "fb_wait (working7 x cx) = W_Job ?key"
    by (simp_all add: working_snapshot_def sample_eval working7_def)
  moreover have "tick_loop (Suc n) x handler_workflow s cx'' (tick_start s (fiber_new (derived_id x cx' 0) 6)) =
      Inl (StackUnderflow ''V2GuardEnd'')"
    by (simp add: handler_workflow_def limited_workflow_def prog_handler_def sample_eval handler_words)
  moreover have "verify_program (wf_instructions handler_workflow) (wf_metadata handler_workflow) = Inr (wf_limits handler_workflow)"
    "\<exists>stacks limits. control_walk (wf_instructions handler_workflow) = Inr (stacks, limits) \<and> bt_get stacks 6 = None"
    by (simp_all add: handler_workflow_def limited_workflow_def handler_limits_def prog_handler_def verify_eval sample_eval)
  ultimately show ?thesis using t t' by (metis fiber_new_pc)
qed

text \<open>
  A program that cancels its own scope. \<open>successors\<close> gives \<open>V2CancelScope\<close> no edge, but the
  interpreter runs on behind it.
\<close>

definition prog_cancel :: "instr list" where
  "prog_cancel = [I_PushBool False, I_BrIf 5, I_V2GuardR, I_V2CancelScope, I_Pop, I_End]"

text \<open>The session stack of the sample read back from its serialised form.\<close>

definition x1 :: ext where
  "x1 = x0\<lparr>x_session_parse := (\<lambda>text. if text = ''session'' then Some (pi_session_stack instance0) else None)\<rparr>"

definition cancel_limits :: verified_limits where
  "cancel_limits = \<lparr>max_stack = 1, max_fibers = 1, max_steps = 6, max_control_depth = 1,
     max_barriers = 0, max_records = 1\<rparr>"

definition cancel_workflow :: executable_workflow where
  "cancel_workflow = limited_workflow prog_cancel cancel_limits"

lemma cancel_verified:
  "verify_program prog_cancel metadata0 = Inr cancel_limits"
  "\<exists>heights limits. height_walk prog_cancel = Inr (heights, limits) \<and> bt_get heights 4 = None"
  by (simp_all add: prog_cancel_def verify_eval sample_eval cancel_limits_def word_le_nat_alt)

lemma cancel_words: 
  "wf_instructions cancel_workflow = prog_cancel" "wf_metadata cancel_workflow = metadata0"
  "wf_limits cancel_workflow = cancel_limits"
  by (simp_all add: cancel_workflow_def limited_workflow_def prog_cancel_def)

lemma scope_cancelled: "exec_cancel_scope x s ts = Inr r \<Longrightarrow>
   \<exists>ts'. r = Next ts' \<and> fb_pc (tk_fiber ts') = sat_add (fb_pc (tk_fiber ts)) 1 \<and> fb_stack (tk_fiber ts') = fb_stack (tk_fiber ts)"
  by (auto simp: exec_cancel_scope_def pop_handle_def advance_def bump_pc_def upd_changes_def elim!: try_resE split: option.splits)

lemmas cancel_eval = prog_cancel_def limited_workflow_def cancel_workflow_def sample_eval exec_branch_def exec_guard_r_def
  exec_cancel_scope_def exec_pop_def pop_handle_def next_id_def open_record_def

definition cancel_open :: "deterministic_context \<Rightarrow> tick_state" where
  "cancel_open cx = (tick_start (snapshot0 [fiber7] bt_empty) fiber7)\<lparr>tk_ordinal := 1,
    tk_fiber := fiber7\<lparr>fb_pc := 3, fb_control_stack := [derived_id x1 cx 0]\<rparr>,
    tk_changes := push_event (Ev_V2GuardROpened (derived_id x1 cx 0) 7)
       (push_delta (CS_Push 7 (derived_id x1 cx 0))
       (push_mutation (CM_Insert ((guard_r_record x1 instance0 (derived_id x1 cx 0) 2)\<lparr>rec_members := bs_insert 7 (bs_of_list [])\<rparr>)) changes_default))\<rparr>"
lemma cancel_opened:
  "tick_loop (Suc (Suc (Suc n))) x1 cancel_workflow (snapshot0 [fiber7] bt_empty) cx (tick_start (snapshot0 [fiber7] bt_empty) fiber7) = 
   tick_loop n x1 cancel_workflow (snapshot0 [fiber7] bt_empty) cx (cancel_open cx)"
  by (simp add: cancel_eval cancel_open_def guard_r_record_def)

lemma x1_session: "x_session_parse x1 (x_session_print x1 session) = Some (pi_session_stack instance0)"
  by (simp add: x1_def x0_def)

lemma opened_cancelled:
  "\<exists>ts. tick_step x1 cancel_workflow (snapshot0 [fiber7] bt_empty) cx (cancel_open cx) = Inr (Next ts)
     \<and> fb_pc (tk_fiber ts) = 4 \<and> fb_stack (tk_fiber ts) = []"
  by (simp add: cancel_eval cancel_open_def guard_r_record_def v2_rollback_guard_scope_def rollback_fields_def x1_session
    fetch_record_in_transition_def fetch_step_def cancel_scope_def scope_fuel_def scope_children_def
    scope_direct_leaves_def scope_next_def ct_get_def List.map_filter_def bs_list_def bs_of_list_def)

lemma cancelled_pop:
  "fb_pc (tk_fiber ts) = 4 \<Longrightarrow> fb_stack (tk_fiber ts) = [] \<Longrightarrow>
     tick_step x cancel_workflow s cx ts = Inl (StackUnderflow ''Pop'')"
  by (simp add: cancel_eval)

text \<open>
  C38. The instruction behind \<open>V2CancelScope\<close> is not verified. A program is accepted, with the
  limits that the verifier computes for it, although the height walk does not visit the
  instruction behind its \<open>V2CancelScope\<close>; the kernel reaches it, as the fiber that cancels its scope
  goes on at the next address, and the first tick of the program fails with a stack underflow.
\<close>

theorem cancel_scope_successor_not_verified:
  "verify_program (wf_instructions cancel_workflow) (wf_metadata cancel_workflow) = Inr (wf_limits cancel_workflow)
    \<and> (\<exists>heights limits. height_walk (wf_instructions cancel_workflow) = Inr (heights, limits) \<and> bt_get heights 4 = None)
    \<and> apply_tick x1 cancel_workflow (snapshot0 [fiber7] bt_empty) (Cmd_Tick None) cx = Inl (StackUnderflow ''Pop'')"
proof -
  let ?s = "snapshot0 [fiber7] bt_empty"
  obtain ts where ts: "tick_step x1 cancel_workflow ?s cx (cancel_open cx) = Inr (Next ts)"
    "fb_pc (tk_fiber ts) = 4" "fb_stack (tk_fiber ts) = []" using opened_cancelled by blast
  have "tick_loop (Suc (Suc (Suc (Suc (Suc 1))))) x1 cancel_workflow ?s cx (tick_start ?s fiber7) = Inl (StackUnderflow ''Pop'')"
    unfolding cancel_opened by (simp add: ts cancelled_pop [OF ts(2,3)])
  moreover have "select_fiber ?s None = Inr 7" "bt_get (sn_fibers ?s) 7 = Some fiber7" "fb_wait fiber7 = W_Running"
      "pi_state (sn_instance ?s) = PS_Running"
    by (simp_all add: sample_eval)
  then have "apply_tick x1 cancel_workflow ?s (Cmd_Tick None) cx =
      tick_loop (unat (max_steps cancel_limits)) x1 cancel_workflow ?s cx (tick_start ?s fiber7)"
    by (simp add: apply_tick_def cancel_words)
  moreover have "unat (max_steps cancel_limits) = Suc (Suc (Suc (Suc (Suc 1))))"
    by (simp add: cancel_limits_def)
  ultimately have "apply_tick x1 cancel_workflow ?s (Cmd_Tick None) cx = Inl (StackUnderflow ''Pop'')"
    by metis
  then show ?thesis using cancel_verified by (simp add: cancel_words)
qed

definition prog_route :: "instr list" where
  "prog_route = [I_RoutePayload [\<lparr>rb_placeholder = ''p'', rb_expected_value = ''v'', rb_target = 0\<rparr>] (Some 1), I_End]"

definition matching_snapshot :: snapshot where
  "matching_snapshot = (snapshot0 [fiber7] bt_empty)\<lparr>sn_instance := instance0
     \<lparr>pi_placeholder_values := Some (J_Object [(''p'', J_String ''v'')])\<rparr>\<rparr>"

lemma route_step:
  "tick_step x (workflow0 prog_route) s cx (tick_start matching_snapshot fiber7) =
     Inr (Next (tick_start matching_snapshot fiber7))"
  by (simp add: prog_route_def matching_snapshot_def sample_eval exec_route_payload_def placeholder_matches_def
      json_get_def canonical_json_scalar_def or_else_def goto_def)

text \<open>
  C39. A backward payload route is accepted: a program with a route to its own address passes the
  verifier, although it has no counter, and while the placeholder matches the interpreter goes
  round until the step limit, whatever the limit is.
\<close>

theorem backward_route_accepted:
  "(\<exists>limits. verify_program prog_route metadata0 = Inr limits)
    \<and> tick_loop n x (workflow0 prog_route) s cx (tick_start matching_snapshot fiber7) =
        Inl (StepLimitExceeded (max_steps (wf_limits (workflow0 prog_route))))"
proof -
  have "\<exists>limits. verify_program prog_route metadata0 = Inr limits"
    by (simp add: prog_route_def verify_eval sample_eval)
  moreover have "tick_loop n x (workflow0 prog_route) s cx (tick_start matching_snapshot fiber7) =
        Inl (StepLimitExceeded (max_steps (wf_limits (workflow0 prog_route))))"
    by (induction n) (simp_all add: route_step)
  ultimately show ?thesis by simp
qed

end
