(* ===== verification/StoreState.thy ===== *)
theory StoreState
  imports Replay Verifier "HOL-Library.Product_Lexorder"
begin

text \<open>
  The state of the in-memory store (\<open>bpmn-lite-store/src/store_memory.rs\<close>, \<open>Inner\<close>), the registry
  of pending invocations (\<open>pending.rs\<close>), claims and errors. A \<open>HashMap\<close> is an ordered map here:
  its iteration order is unspecified in Rust, and the model iterates in key order; the code
  sorts or keys the result wherever the order matters to it. What a call reads from its host,
  the two clocks, fresh identifiers and the range check of \<open>chrono\<close>, is the record \<open>host\<close>, one
  reading per call. Tables that only the design tools use are left out.
\<close>

section \<open>Maps\<close>

text \<open>\<open>HashMap::retain\<close> and a loop over \<open>values_mut\<close>.\<close>

lift_definition bt_retain :: "('k::linorder \<Rightarrow> 'v \<Rightarrow> bool) \<Rightarrow> ('k, 'v) btree \<Rightarrow> ('k, 'v) btree"
  is "\<lambda>P. filter (\<lambda>(k, v). P k v)"
proof -
  fix P :: "'k \<Rightarrow> 'v \<Rightarrow> bool" and xs :: "('k \<times> 'v) list"
  show "al_wf xs \<Longrightarrow> al_wf (filter (\<lambda>(k, v). P k v) xs)" by (induction xs) auto
qed

lift_definition bt_map_values :: "('k::linorder \<Rightarrow> 'v \<Rightarrow> 'w) \<Rightarrow> ('k, 'v) btree \<Rightarrow> ('k, 'w) btree"
  is "\<lambda>f. map (\<lambda>(k, v). (k, f k v))"
  by (simp add: al_wf_def case_prod_beta comp_def)

definition bt_or_default :: "('k::linorder, 'v) btree \<Rightarrow> 'k \<Rightarrow> 'v \<Rightarrow> 'v" where
  "bt_or_default m k d = unwrap_or (bt_get m k) d"

lemma map_of_retain:
  "al_wf xs \<Longrightarrow> map_of (filter (\<lambda>(k, v). P k v) xs) k =
     (case map_of xs k of Some v \<Rightarrow> if P k v then Some v else None | None \<Rightarrow> None)"
proof (induction xs)
  case (Cons p xs)
  then have "map_of xs (fst p) = None" by (force simp: map_of_eq_None_iff)
  with Cons show ?case by (cases p) auto
qed simp

lemma bt_get_retain [btree_simps]:
  "bt_get (bt_retain P m) k = (case bt_get m k of Some v \<Rightarrow> if P k v then Some v else None | None \<Rightarrow> None)"
proof -
  have "bt_entries (bt_retain P m) = filter (\<lambda>(k, v). P k v) (bt_entries m)" by transfer simp
  then show ?thesis by (simp add: bt_get_def map_of_retain)
qed

lemma bt_get_map_values [btree_simps]: "bt_get (bt_map_values f m) k = map_option (f k) (bt_get m k)"
proof -
  have "map_of (map (\<lambda>(k, v). (k, f k v)) xs) k = map_option (f k) (map_of xs k)" for xs
    by (induction xs) auto
  moreover have "bt_entries (bt_map_values f m) = map (\<lambda>(k, v). (k, f k v)) (bt_entries m)" by transfer simp
  ultimately show ?thesis by (simp add: bt_get_def)
qed

section \<open>The host\<close>

type_synonym instant = nat     \<comment> \<open>nanoseconds of the monotonic clock\<close>
type_synonym datetime = i64    \<comment> \<open>\<open>DateTime<Utc>\<close>, by its milliseconds\<close>
type_synonym tenant_id = string

record host =
  h_now_ms :: i64                               \<comment> \<open>\<open>now_ms()\<close>\<close>
  h_instant :: instant                          \<comment> \<open>\<open>Instant::now()\<close>\<close>
  h_fresh :: "nat \<Rightarrow> uuid"                      \<comment> \<open>the n-th \<open>Uuid::now_v7()\<close> of the call\<close>
  h_timestamp_millis :: "i64 \<Rightarrow> datetime option" \<comment> \<open>\<open>DateTime::from_timestamp_millis\<close>\<close>

abbreviation i64_le :: "i64 \<Rightarrow> i64 \<Rightarrow> bool" where
  "i64_le a b \<equiv> sint a \<le> sint b"

abbreviation i64_less :: "i64 \<Rightarrow> i64 \<Rightarrow> bool" where
  "i64_less a b \<equiv> sint a < sint b"

section \<open>Claims and errors\<close>

record claim =
  cl_tenant_id :: tenant_id
  cl_instance_id :: uuid
  cl_expected_revision :: u64
  cl_fence :: u64
  cl_lease_token :: string

datatype claim_error =
    Claim_Invalid string
  | Claim_Integrity string

text \<open>The text of an integrity error is a message of the store, or the \<open>Display\<close> of the error it wraps.\<close>

datatype integrity_reason =
    IR_Text string
  | IR_Table concurrency_validation_error
  | IR_Envelope persistence_error

datatype commit_error =
    CE_Conflict
  | CE_StaleFence
  | CE_Integrity integrity_reason

datatype commit_outcome =
    Committed u64
  | IdempotentNoOp

section \<open>Pending invocations\<close>

record pending_invocation =
  pv_tenant_id :: tenant_id
  pv_callout_id :: uuid
  pv_process_instance_id :: uuid
  pv_node_id :: string
  pv_target_domain :: string
  pv_verb_id :: string
  pv_idempotency_key :: uuid
  pv_execution_id :: "uuid option"
  pv_submitted_at :: datetime
  pv_ack_received_at :: "datetime option"
  pv_timeout_at :: "datetime option"

type_synonym pending_store = "(uuid, pending_invocation) btree"

datatype insert_outcome = Inserted | Duplicate

definition pending_insert :: "pending_invocation \<Rightarrow> pending_store \<Rightarrow> insert_outcome \<times> pending_store" where
  "pending_insert r p =
     (if bt_contains p (pv_callout_id r) then (Duplicate, p)
      else if list_ex (\<lambda>e. pv_idempotency_key e = pv_idempotency_key r) (bt_values p) then (Duplicate, p)
      else (Inserted, bt_insert (pv_callout_id r) r p))"

definition record_ack ::
  "tenant_id \<Rightarrow> uuid \<Rightarrow> uuid \<Rightarrow> datetime \<Rightarrow> pending_store \<Rightarrow> pending_store option" where
  "record_ack tenant callout_id execution_id at p =
     (case bt_get p callout_id of
        Some row \<Rightarrow>
          if pv_tenant_id row = tenant
          then Some (bt_insert callout_id
                 (row\<lparr>pv_execution_id := Some execution_id, pv_ack_received_at := Some at\<rparr>) p)
          else None
      | None \<Rightarrow> None)"

definition row_by_execution :: "tenant_id \<Rightarrow> uuid \<Rightarrow> pending_store \<Rightarrow> (uuid \<times> pending_invocation) option" where
  "row_by_execution tenant execution_id p =
     find (\<lambda>(_, v). pv_tenant_id v = tenant \<and> pv_execution_id v = Some execution_id) (bt_entries p)"

definition take_by_execution_id ::
  "tenant_id \<Rightarrow> uuid \<Rightarrow> pending_store \<Rightarrow> pending_invocation option \<times> pending_store" where
  "take_by_execution_id tenant execution_id p =
     (case row_by_execution tenant execution_id p of
        Some (k, v) \<Rightarrow> (Some v, bt_remove k p)
      | None \<Rightarrow> (None, p))"

definition lookup_by_execution_id :: "tenant_id \<Rightarrow> uuid \<Rightarrow> pending_store \<Rightarrow> pending_invocation option" where
  "lookup_by_execution_id tenant execution_id p = map_option snd (row_by_execution tenant execution_id p)"

definition lookup_by_callout_id :: "tenant_id \<Rightarrow> uuid \<Rightarrow> pending_store \<Rightarrow> pending_invocation option" where
  "lookup_by_callout_id tenant callout_id p =
     (case bt_get p callout_id of
        Some row \<Rightarrow> if pv_tenant_id row = tenant then Some row else None
      | None \<Rightarrow> None)"

definition list_for_process :: "tenant_id \<Rightarrow> uuid \<Rightarrow> pending_store \<Rightarrow> pending_invocation list" where
  "list_for_process tenant i p =
     filter (\<lambda>r. pv_tenant_id r = tenant \<and> pv_process_instance_id r = i) (bt_values p)"

section \<open>The tables\<close>

datatype memory_timer_state = MT_Armed | MT_Consumed | MT_Cancelled

record memory_timer =
  mt_tenant_id :: tenant_id
  mt_instance_id :: uuid
  mt_fiber_id :: uuid
  mt_due_at :: u64
  mt_kind :: timer_kind
  mt_repeat_spec :: "timer_repeat_spec option"
  mt_state :: memory_timer_state
  mt_claim :: "(string \<times> uuid \<times> u64) option"

datatype memory_effect_state = ME_Pending | ME_Dispatching | ME_Accepted | ME_Terminal

datatype effect_response =
    ER_FfiSuccess bytes "string option"
  | ER_FfiNoMatch
  | ER_Failed error_class string u32

record memory_effect =
  me_tenant_id :: tenant_id
  me_instance_id :: uuid
  me_effect :: durable_effect
  me_state :: memory_effect_state
  me_claim :: "(string \<times> uuid \<times> u64) option"
  me_response :: "effect_response option"
  me_attempt :: u32
  me_policy_version :: u32

datatype memory_activation_status = MA_Ready | MA_Claimed | MA_DeadLettered

record memory_activation =
  ma_tenant_id :: tenant_id
  ma_instance_id :: uuid
  ma_command_id :: uuid
  ma_command_kind :: string
  ma_command :: command
  ma_status :: memory_activation_status
  ma_available_at_ms :: i64
  ma_priority :: "32 word"
  ma_seq :: u64
  ma_claim :: "(string \<times> string \<times> i64) option"   \<comment> \<open>owner, token, expiry\<close>
  ma_attempt_count :: u32

type_synonym message_key = "string \<times> string \<times> string \<times> string"

record inner =
  in_instances :: "(uuid, process_instance) btree"
  in_fibers :: "(uuid \<times> uuid, fiber) btree"
  in_join_counters :: "(uuid \<times> join_id, u16) btree"
  in_dedupe :: "(string, job_completion \<times> instant) btree"
  in_message_buffer :: "(message_key, buffered_message) btree"
  in_message_buffer_claims :: "(message_key, string \<times> i64) btree"
  in_message_buffer_consumed :: "message_key bset"
  in_job_queue :: "job_activation list"
  in_inflight_jobs :: "(string, job_activation \<times> instant) btree"
  in_dead_letter :: "(u32 \<times> string, bytes \<times> u64) btree"
  in_events :: "(uuid, (u64 \<times> runtime_event) list) btree"
  in_event_seq :: "(uuid, u64) btree"
  in_payload_history :: "(uuid \<times> hash32, string) btree"
  in_incidents :: "(uuid, incident list) btree"
  in_concurrency_tables :: "(uuid, concurrency_table) btree"
  in_transition_leases :: "(uuid, string \<times> instant \<times> u64 \<times> string) btree"  \<comment> \<open>owner, expiry, fence, token\<close>
  in_revisions :: "(uuid, u64) btree"
  in_durable_effects :: "(effect_id, memory_effect) btree"
  in_timers :: "(effect_id, memory_timer) btree"
  in_outbox :: "(uuid, string \<times> string \<times> bytes \<times> uuid \<times> uuid) btree"
  in_starts :: "(string \<times> uuid, uuid) btree"
  in_snapshots :: "(uuid, snapshot_envelope) btree"
  in_journals :: "(uuid, journal_record list) btree"
  in_activations :: "(uuid, memory_activation) btree"
  in_activation_dedupe :: "(string \<times> uuid, uuid) btree"
  in_activation_seq_counter :: u64

definition inner_new :: inner where
  "inner_new = \<lparr>in_instances = bt_empty, in_fibers = bt_empty, in_join_counters = bt_empty,
     in_dedupe = bt_empty, in_message_buffer = bt_empty, in_message_buffer_claims = bt_empty,
     in_message_buffer_consumed = bt_empty, in_job_queue = [], in_inflight_jobs = bt_empty,
     in_dead_letter = bt_empty, in_events = bt_empty, in_event_seq = bt_empty,
     in_payload_history = bt_empty, in_incidents = bt_empty, in_concurrency_tables = bt_empty,
     in_transition_leases = bt_empty, in_revisions = bt_empty, in_durable_effects = bt_empty,
     in_timers = bt_empty, in_outbox = bt_empty, in_starts = bt_empty, in_snapshots = bt_empty,
     in_journals = bt_empty, in_activations = bt_empty, in_activation_dedupe = bt_empty,
     in_activation_seq_counter = 0\<rparr>"

record memory_store =
  ms_inner :: inner
  ms_pending :: pending_store

section \<open>Shared operations\<close>

definition activation_command_id_for_runnable :: "ext \<Rightarrow> uuid \<Rightarrow> u64 \<Rightarrow> uuid" where
  "activation_command_id_for_runnable x instance_id revision =
     from_hash (x_blake3 x (''bpmn-lite/activation/runnable/v1'' @ be_bytes 16 instance_id @ be_bytes 8 revision))"

definition compute_instance_integrity_hash :: "ext \<Rightarrow> process_instance \<Rightarrow> hash32" where
  "compute_instance_integrity_hash x i =
     x_blake3 x (be_bytes 16 (pi_instance_id i) @ ''|'' @ pi_tenant_id i @ ''|''
       @ pi_bytecode_version i @ ''|'' @ write_u64 (pi_created_at i) @ ''|'' @ pi_process_key i @ ''|''
       @ be_bytes 16 (pi_entry_id i) @ ''|'' @ be_bytes 16 (pi_runbook_id i) @ ''|''
       @ (case pi_plan_hash i of Some h \<Rightarrow> ''|'' @ h | None \<Rightarrow> []))"

text \<open>Appending to the event log of an instance, under its next sequence number.\<close>

definition append_event :: "uuid \<Rightarrow> runtime_event \<Rightarrow> inner \<Rightarrow> inner" where
  "append_event instance_id event w =
     (let seq = bt_or_default (in_event_seq w) instance_id 0 + 1
      in w\<lparr>in_event_seq := bt_insert instance_id seq (in_event_seq w),
           in_events := bt_insert instance_id
             (bt_or_default (in_events w) instance_id [] @ [(seq, event)]) (in_events w)\<rparr>)"

definition enqueue_activation_locked ::
  "host \<Rightarrow> tenant_id \<Rightarrow> uuid \<Rightarrow> uuid \<Rightarrow> string \<Rightarrow> command \<Rightarrow> u64 option \<Rightarrow> inner \<Rightarrow> bool \<times> inner" where
  "enqueue_activation_locked h tenant instance_id command_id command_kind cmd available_at_ms w =
     (if bt_contains (in_activation_dedupe w) (tenant, command_id) then (False, w)
      else
        let activation_id = h_fresh h 0;
            seq = in_activation_seq_counter w
        in (True, w\<lparr>in_activation_seq_counter := seq + 1,
             in_activations := bt_insert activation_id
               \<lparr>ma_tenant_id = tenant, ma_instance_id = instance_id, ma_command_id = command_id,
                ma_command_kind = command_kind, ma_command = cmd, ma_status = MA_Ready,
                ma_available_at_ms = unwrap_or available_at_ms (h_now_ms h), ma_priority = 0, ma_seq = seq,
                ma_claim = None, ma_attempt_count = 0\<rparr> (in_activations w),
             in_activation_dedupe := bt_insert (tenant, command_id) activation_id (in_activation_dedupe w)\<rparr>))"

end
