(* ===== verification/StoreCommit.thy ===== *)
theory StoreCommit
  imports StoreState
begin

text \<open>
  \<open>MemoryStore::commit_transition\<close>, \<open>claim_instance_for_transition\<close> and
  \<open>release_instance_transition\<close> (\<open>store_memory.rs\<close>). The commit writes its tables in place, under
  the lock of the store, in the order of the source: a failing write returns the error together
  with the state reached, \<open>Inl (error, state)\<close>, so that what an error leaves behind is visible.
\<close>

section \<open>Pending invocations of a transition\<close>

definition pending_of_write ::
  "host \<Rightarrow> tenant_id \<Rightarrow> pending_invocation_write \<Rightarrow> commit_error + pending_invocation" where
  "pending_of_write h tenant p =
     (let millis = (\<lambda>v text. ok_or (h_timestamp_millis h v) (CE_Integrity (IR_Text text)));
          millis_opt = (\<lambda>v text. case v of None \<Rightarrow> Inr None | Some a \<Rightarrow> try_res (millis a text) (\<lambda>d. Inr (Some d)))
      in try_res (millis (pw_submitted_at p) ''invalid submitted_at'') (\<lambda>submitted_at.
         try_res (millis_opt (pw_ack_received_at p) ''invalid ack_received_at'') (\<lambda>ack_received_at.
         try_res (millis_opt (pw_timeout_at p) ''invalid timeout_at'') (\<lambda>timeout_at.
         Inr \<lparr>pv_tenant_id = tenant, pv_callout_id = pw_callout_id p,
              pv_process_instance_id = pw_process_instance_id p, pv_node_id = pw_node_id p,
              pv_target_domain = pw_target_domain p, pv_verb_id = pw_verb_id p,
              pv_idempotency_key = pw_idempotency_key p, pv_execution_id = pw_execution_id p,
              pv_submitted_at = submitted_at, pv_ack_received_at = ack_received_at,
              pv_timeout_at = timeout_at\<rparr>))))"

definition commit_pending ::
  "host \<Rightarrow> tenant_id \<Rightarrow> transition \<Rightarrow> pending_store \<Rightarrow> (commit_error \<times> pending_store) + pending_store" where
  "commit_pending h tenant t p =
     try_res (for_res (\<lambda>execution_id.
         if lookup_by_execution_id tenant execution_id p = None then Inl (CE_Conflict, p) else Inr ())
       (tr_pending_take t)) (\<lambda>_.
     try_res (fold_res (\<lambda>pw p.
         case pending_of_write h tenant pw of
           Inl e \<Rightarrow> Inl (e, p)
         | Inr r \<Rightarrow> Inr (snd (pending_insert r p)))
       (tr_pending_invocations t) p) (\<lambda>p.
     fold_res (\<lambda>execution_id p.
         case take_by_execution_id tenant execution_id p of
           (None, p) \<Rightarrow> Inl (CE_Conflict, p)
         | (Some _, p) \<Rightarrow> Inr p)
       (tr_pending_take t) p))"

section \<open>Checks before the first write\<close>

text \<open>A commit is refused, or it is a repetition and does nothing.\<close>

datatype early_return = Refused commit_error | AlreadyDone

definition is_start :: "claim \<Rightarrow> inner \<Rightarrow> bool" where
  "is_start c w \<longleftrightarrow>
     \<not> bt_contains (in_instances w) (cl_instance_id c) \<and> cl_expected_revision c = 0 \<and> cl_fence c = 0"

definition current_fence :: "uuid \<Rightarrow> inner \<Rightarrow> u64" where
  "current_fence instance_id w =
     (case bt_get (in_transition_leases w) instance_id of Some (_, _, fence, _) \<Rightarrow> fence | None \<Rightarrow> 0)"

definition refuse :: "string \<Rightarrow> early_return + 'a" where
  "refuse text = Inl (Refused (CE_Integrity (IR_Text text)))"

definition check_claim :: "claim \<Rightarrow> inner \<Rightarrow> early_return + unit" where
  "check_claim c w =
     (if is_start c w then Inr ()
      else
        case bt_get (in_instances w) (cl_instance_id c) of
          None \<Rightarrow> refuse ''instance not found''
        | Some current \<Rightarrow>
            if pi_tenant_id current \<noteq> cl_tenant_id c then refuse ''claim tenant does not own instance''
            else if current_fence (cl_instance_id c) w \<noteq> cl_fence c then Inl (Refused CE_StaleFence)
            else if bt_or_default (in_revisions w) (cl_instance_id c) 0 \<noteq> cl_expected_revision c
              then Inl (Refused CE_Conflict)
            else Inr ())"

definition check_start :: "claim \<Rightarrow> transition \<Rightarrow> inner \<Rightarrow> early_return + unit" where
  "check_start c t w =
     (case tr_start_dedupe t of
        None \<Rightarrow> Inr ()
      | Some cmd \<Rightarrow>
          if sc_tenant_id cmd \<noteq> cl_tenant_id c \<or> sc_instance_id cmd \<noteq> cl_instance_id c
             \<or> sc_artifact_hash cmd \<noteq> pi_bytecode_version (tr_next_snapshot t)
             \<or> sc_initial_payload_hash cmd \<noteq> pi_domain_payload_hash (tr_next_snapshot t)
            then refuse ''start command lineage does not match initial snapshot''
          else if bt_contains (in_starts w) (cl_tenant_id c, sc_idempotency_key cmd) then Inl AlreadyDone
          else Inr ())"

definition message_key_of :: "buffered_message \<Rightarrow> message_key" where
  "message_key_of m = (bm_tenant_id m, bm_message_name m, bm_correlation_key m, bm_msg_id m)"

fun check_message :: "inner \<Rightarrow> buffered_message_mutation \<Rightarrow> early_return + unit" where
  "check_message w (BM_Insert m) =
     (if bt_contains (in_message_buffer w) (message_key_of m)
         \<or> bs_contains (in_message_buffer_consumed w) (message_key_of m) then Inl AlreadyDone else Inr ())"
| "check_message w (BM_Deliver m) =
     (if bt_contains (in_message_buffer w) (message_key_of m)
         \<or> bs_contains (in_message_buffer_consumed w) (message_key_of m) then Inl AlreadyDone else Inr ())"
| "check_message w (BM_Consume m) =
     (case bt_get (in_message_buffer_claims w) (message_key_of (cm_message m)) of
        Some (token, _) \<Rightarrow> if token = cm_claim_token m then Inr () else Inl (Refused CE_Conflict)
      | None \<Rightarrow> Inl (Refused CE_Conflict))"
| "check_message w (BM_Release _) = Inr ()"

definition timer_claim_matches :: "memory_timer \<Rightarrow> uuid \<Rightarrow> bool" where
  "timer_claim_matches timer token = (case mt_claim timer of Some (_, t, _) \<Rightarrow> t = token | None \<Rightarrow> False)"

definition check_timer_claim :: "claim \<Rightarrow> inner \<Rightarrow> effect_id \<Rightarrow> uuid \<Rightarrow> early_return + unit" where
  "check_timer_claim c w timer_id claim_token =
     (case bt_get (in_timers w) timer_id of
        None \<Rightarrow> Inl AlreadyDone
      | Some timer \<Rightarrow>
          if mt_state timer \<noteq> MT_Armed \<or> mt_tenant_id timer \<noteq> cl_tenant_id c
             \<or> mt_instance_id timer \<noteq> cl_instance_id c \<or> \<not> timer_claim_matches timer claim_token
          then Inl AlreadyDone else Inr ())"

fun check_timer :: "claim \<Rightarrow> inner \<Rightarrow> timer_mutation \<Rightarrow> early_return + unit" where
  "check_timer c w (TM_Consume timer_id claim_token) = check_timer_claim c w timer_id claim_token"
| "check_timer c w (TM_Rearm timer_id claim_token _ _) = check_timer_claim c w timer_id claim_token"
| "check_timer c w (TM_CancelRace _ _ _) = Inr ()"
| "check_timer c w (TM_V2CancelRace _ _ _) = Inr ()"

definition commit_checks :: "claim \<Rightarrow> transition \<Rightarrow> inner \<Rightarrow> early_return + unit" where
  "commit_checks c t w =
     try_res (check_claim c w) (\<lambda>_.
     if pi_tenant_id (tr_next_snapshot t) \<noteq> cl_tenant_id c
        \<or> pi_instance_id (tr_next_snapshot t) \<noteq> cl_instance_id c
       then refuse ''claim and transition aggregate identity differ''
     else
       try_res (map_err (\<lambda>e. Refused (CE_Integrity (IR_Table e)))
         (validate_mutations (bt_or_default (in_concurrency_tables w) (cl_instance_id c) bt_empty)
            (tr_concurrency_mutations t))) (\<lambda>_.
       try_res (check_start c t w) (\<lambda>_.
       try_res (for_res (\<lambda>d. if bt_contains (in_dedupe w) (dw_key d) then Inl AlreadyDone else Inr ())
         (tr_dedupe t)) (\<lambda>_.
       try_res (for_res (check_message w) (tr_buffered_messages t)) (\<lambda>_.
       for_res (check_timer c w) (tr_timer_mutations t))))))"

section \<open>The writes\<close>

text \<open>The instance as it is stored: overridden state, a fresh integrity hash, and the quarantine
  state that the store already has.\<close>

definition stored_instance :: "ext \<Rightarrow> claim \<Rightarrow> transition \<Rightarrow> inner \<Rightarrow> process_instance" where
  "stored_instance x c t w =
     (let inst = tr_next_snapshot t;
          inst = (case tr_state_override t of Some st \<Rightarrow> inst\<lparr>pi_state := st\<rparr> | None \<Rightarrow> inst);
          inst = inst\<lparr>pi_integrity_hash := Some (compute_instance_integrity_hash x inst)\<rparr>
      in case bt_get (in_instances w) (cl_instance_id c) of
           Some existing \<Rightarrow> inst\<lparr>pi_quarantine_state := pi_quarantine_state existing\<rparr>
         | None \<Rightarrow> inst)"

definition write_instance :: "claim \<Rightarrow> transition \<Rightarrow> process_instance \<Rightarrow> inner \<Rightarrow> inner" where
  "write_instance c t inst w =
     w\<lparr>in_instances := bt_insert (cl_instance_id c) inst (in_instances w),
       in_starts := (case tr_start_dedupe t of
           Some cmd \<Rightarrow> bt_insert (cl_tenant_id c, sc_idempotency_key cmd) (cl_instance_id c) (in_starts w)
         | None \<Rightarrow> in_starts w),
       in_payload_history := bt_insert (cl_instance_id c, pi_domain_payload_hash inst)
         (pi_domain_payload inst) (in_payload_history w)\<rparr>"

definition write_fibers :: "uuid \<Rightarrow> transition \<Rightarrow> inner \<Rightarrow> inner" where
  "write_fibers i t w =
     w\<lparr>in_fibers := fold (\<lambda>fiber_id. bt_remove (i, fiber_id)) (tr_fibers_delete t)
        (fold (\<lambda>f. bt_insert (i, fb_id f) f) (tr_fibers_upsert t) (in_fibers w))\<rparr>"

fun write_join :: "uuid \<Rightarrow> join_mutation \<Rightarrow> inner \<Rightarrow> inner" where
  "write_join i (JnM_Arrive j) w =
     w\<lparr>in_join_counters := bt_insert (i, j) (bt_or_default (in_join_counters w) (i, j) 0 + 1) (in_join_counters w)\<rparr>"
| "write_join i (JnM_Reset j) w = w\<lparr>in_join_counters := bt_insert (i, j) 0 (in_join_counters w)\<rparr>"

definition remove_queued :: "string \<Rightarrow> inner \<Rightarrow> inner" where
  "remove_queued job_key w = w\<lparr>in_job_queue := filter (\<lambda>j. ja_job_key j \<noteq> job_key) (in_job_queue w)\<rparr>"

definition remove_job :: "string \<Rightarrow> inner \<Rightarrow> inner" where
  "remove_job job_key w =
     remove_queued job_key (w\<lparr>in_inflight_jobs := bt_remove job_key (in_inflight_jobs w)\<rparr>)"

definition enqueue_job :: "job_activation \<Rightarrow> inner \<Rightarrow> inner" where
  "enqueue_job job w =
     (if list_ex (\<lambda>e. ja_job_key e = ja_job_key job) (in_job_queue w)
         \<or> bt_contains (in_inflight_jobs w) (ja_job_key job) then w
      else w\<lparr>in_job_queue := in_job_queue w @ [job]\<rparr>)"

text \<open>Taking a claimed job out of flight. A claim that does not match puts it back.\<close>

definition take_claimed ::
  "host \<Rightarrow> string \<Rightarrow> string \<Rightarrow> string \<Rightarrow> inner \<Rightarrow> (commit_error \<times> inner) + job_activation \<times> inner" where
  "take_claimed h job_key worker_id claim_token w =
     (case bt_get (in_inflight_jobs w) job_key of
        None \<Rightarrow> Inl (CE_Conflict, w)
      | Some (job, _) \<Rightarrow>
          let removed = w\<lparr>in_inflight_jobs := bt_remove job_key (in_inflight_jobs w)\<rparr> in
          if ja_worker_id job \<noteq> worker_id \<or> ja_claim_token job \<noteq> claim_token
          then Inl (CE_Conflict, removed\<lparr>in_inflight_jobs :=
                 bt_insert (ja_job_key job) (job, h_instant h) (in_inflight_jobs removed)\<rparr>)
          else Inr (job, removed))"

fun write_job :: "host \<Rightarrow> job_mutation \<Rightarrow> inner \<Rightarrow> (commit_error \<times> inner) + inner" where
  "write_job h (JM_AckClaimed job_key worker_id claim_token) w =
     try_res (take_claimed h job_key worker_id claim_token w) (\<lambda>(_, w). Inr (remove_queued job_key w))"
| "write_job h (JM_RetryClaimed job_key worker_id claim_token error_class _ not_before_ms) w =
     try_res (take_claimed h job_key worker_id claim_token w) (\<lambda>(job, w).
       let job = job\<lparr>ja_worker_id := [], ja_claim_token := [], ja_claim_expires_at := None,
             ja_not_before := Some not_before_ms, ja_failure_count := sat_add (ja_failure_count job) 1,
             ja_retries_remaining := sat_sub (ja_retries_remaining job) 1,
             ja_orch_flags := bt_insert ''last_error_class'' (V_Str (of_nat (length error_class))) (ja_orch_flags job)\<rparr>
       in Inr (w\<lparr>in_job_queue := in_job_queue w @ [job]\<rparr>))"
| "write_job h (JM_DeadLetterClaimed job_key worker_id claim_token _ _ _) w =
     try_res (take_claimed h job_key worker_id claim_token w) (\<lambda>(_, w). Inr w)"
| "write_job h (JM_Cancel job_key) w = Inr (remove_job job_key w)"

definition cancel_timer :: "memory_timer \<Rightarrow> memory_timer" where
  "cancel_timer timer = timer\<lparr>mt_state := MT_Cancelled, mt_claim := None\<rparr>"

definition write_cleanup :: "uuid \<Rightarrow> terminal_cleanup \<Rightarrow> inner \<Rightarrow> inner" where
  "write_cleanup i tc w =
     (let w = (if tc_delete_all_fibers tc
           then w\<lparr>in_fibers := bt_retain (\<lambda>(i', _) _. i' \<noteq> i) (in_fibers w),
                  in_timers := bt_map_values (\<lambda>_ timer.
                    if mt_instance_id timer = i \<and> mt_state timer = MT_Armed then cancel_timer timer else timer)
                    (in_timers w)\<rparr>
           else w);
          w = (if tc_delete_all_joins tc
           then w\<lparr>in_join_counters := bt_retain (\<lambda>(i', _) _. i' \<noteq> i) (in_join_counters w)\<rparr> else w)
      in if tc_cancel_jobs tc
         then w\<lparr>in_job_queue := filter (\<lambda>job. ja_process_instance_id job \<noteq> i) (in_job_queue w),
                in_inflight_jobs := bt_retain (\<lambda>_ (job, _). ja_process_instance_id job \<noteq> i) (in_inflight_jobs w)\<rparr>
         else w)"

fun upsert_incident :: "incident \<Rightarrow> incident list \<Rightarrow> incident list" where
  "upsert_incident inc [] = [inc]"
| "upsert_incident inc (e # es) =
     (if inc_incident_id e = inc_incident_id inc then inc # es else e # upsert_incident inc es)"

definition write_incident :: "uuid \<Rightarrow> incident \<Rightarrow> inner \<Rightarrow> inner" where
  "write_incident i inc w =
     w\<lparr>in_incidents := bt_insert i (upsert_incident inc (bt_or_default (in_incidents w) i [])) (in_incidents w)\<rparr>"

fun write_message :: "buffered_message_mutation \<Rightarrow> inner \<Rightarrow> inner" where
  "write_message (BM_Insert m) w =
     w\<lparr>in_message_buffer := bt_insert (message_key_of m) m (in_message_buffer w)\<rparr>"
| "write_message (BM_Deliver m) w =
     w\<lparr>in_message_buffer_consumed := bs_insert (message_key_of m) (in_message_buffer_consumed w)\<rparr>"
| "write_message (BM_Release m) w =
     w\<lparr>in_message_buffer_claims := bt_remove (message_key_of (cm_message m)) (in_message_buffer_claims w)\<rparr>"
| "write_message (BM_Consume m) w =
     (let key = message_key_of (cm_message m) in
      w\<lparr>in_message_buffer := bt_remove key (in_message_buffer w),
        in_message_buffer_claims := bt_remove key (in_message_buffer_claims w),
        in_message_buffer_consumed := bs_insert key (in_message_buffer_consumed w)\<rparr>)"

fun write_outbox :: "outbox_write \<Rightarrow> inner \<Rightarrow> inner" where
  "write_outbox (OutboxWrite i target_domain target_endpoint payload idempotency_key callout_id) w =
     (if bt_contains (in_outbox w) i then w
      else w\<lparr>in_outbox := bt_insert i (target_domain, target_endpoint, payload, idempotency_key, callout_id) (in_outbox w)\<rparr>)"

fun write_effect :: "claim \<Rightarrow> durable_effect \<Rightarrow> inner \<Rightarrow> (commit_error \<times> inner) + inner" where
  "write_effect c (DE_ScheduleTimer timer_id fiber_id due_at kind repeat_spec) w =
     (case bt_get (in_timers w) timer_id of
        Some existing \<Rightarrow>
          if mt_tenant_id existing \<noteq> cl_tenant_id c \<or> mt_instance_id existing \<noteq> cl_instance_id c
             \<or> mt_fiber_id existing \<noteq> fiber_id \<or> mt_kind existing \<noteq> kind
          then Inl (CE_Integrity (IR_Text ''deterministic timer identity collision''), w)
          else Inr w
      | None \<Rightarrow>
          Inr (w\<lparr>in_timers := bt_insert timer_id
            \<lparr>mt_tenant_id = cl_tenant_id c, mt_instance_id = cl_instance_id c, mt_fiber_id = fiber_id,
             mt_due_at = due_at, mt_kind = kind, mt_repeat_spec = repeat_spec, mt_state = MT_Armed,
             mt_claim = None\<rparr> (in_timers w)\<rparr>))"
| "write_effect c (DE_Invoke effect_id fiber_id pc operation template_id input idempotency_key) w =
     (let effect = DE_Invoke effect_id fiber_id pc operation template_id input idempotency_key in
      case bt_get (in_durable_effects w) effect_id of
        Some existing \<Rightarrow>
          if me_tenant_id existing \<noteq> cl_tenant_id c \<or> me_instance_id existing \<noteq> cl_instance_id c
             \<or> me_effect existing \<noteq> effect
          then Inl (CE_Integrity (IR_Text ''deterministic effect identity collision''), w)
          else Inr w
      | None \<Rightarrow>
          Inr (w\<lparr>in_durable_effects := bt_insert effect_id
            \<lparr>me_tenant_id = cl_tenant_id c, me_instance_id = cl_instance_id c, me_effect = effect,
             me_state = ME_Pending, me_claim = None, me_response = None, me_attempt = 0,
             me_policy_version = 1\<rparr> (in_durable_effects w)\<rparr>))"

fun write_effect_mutation :: "claim \<Rightarrow> effect_mutation \<Rightarrow> inner \<Rightarrow> (commit_error \<times> inner) + inner" where
  "write_effect_mutation c (EM_Terminal effect_id _) w =
     (case bt_get (in_durable_effects w) effect_id of
        None \<Rightarrow> Inl (CE_Conflict, w)
      | Some effect \<Rightarrow>
          if me_tenant_id effect \<noteq> cl_tenant_id c \<or> me_instance_id effect \<noteq> cl_instance_id c
          then Inl (CE_Conflict, w)
          else Inr (w\<lparr>in_durable_effects := bt_insert effect_id
                 (effect\<lparr>me_state := ME_Terminal, me_claim := None, me_response := None\<rparr>)
                 (in_durable_effects w)\<rparr>))"

definition update_timer :: "effect_id \<Rightarrow> (memory_timer \<Rightarrow> memory_timer) \<Rightarrow> inner \<Rightarrow> inner" where
  "update_timer timer_id f w =
     (case bt_get (in_timers w) timer_id of
        Some timer \<Rightarrow> w\<lparr>in_timers := bt_insert timer_id (f timer) (in_timers w)\<rparr>
      | None \<Rightarrow> w)"

definition cancel_race_timers ::
  "uuid \<Rightarrow> uuid \<Rightarrow> (timer_kind \<Rightarrow> bool) \<Rightarrow> effect_id \<Rightarrow> inner \<Rightarrow> inner" where
  "cancel_race_timers i fiber_id same_race exc w =
     w\<lparr>in_timers := bt_map_values (\<lambda>timer_id timer.
         if timer_id \<noteq> exc \<and> mt_instance_id timer = i \<and> mt_fiber_id timer = fiber_id
            \<and> same_race (mt_kind timer) \<and> mt_state timer = MT_Armed
         then cancel_timer timer else timer) (in_timers w)\<rparr>"

fun write_timer :: "uuid \<Rightarrow> timer_mutation \<Rightarrow> inner \<Rightarrow> inner" where
  "write_timer i (TM_Consume timer_id _) w =
     update_timer timer_id (\<lambda>timer. timer\<lparr>mt_state := MT_Consumed, mt_claim := None\<rparr>) w"
| "write_timer i (TM_Rearm timer_id _ due_at repeat_spec) w =
     update_timer timer_id (\<lambda>timer. timer\<lparr>mt_due_at := due_at, mt_repeat_spec := Some repeat_spec,
       mt_state := MT_Armed, mt_claim := None\<rparr>) w"
| "write_timer i (TM_CancelRace fiber_id race_id exc) w =
     cancel_race_timers i fiber_id (\<lambda>k. case k of TK_Race current _ _ _ _ _ _ \<Rightarrow> current = race_id | _ \<Rightarrow> False) exc w"
| "write_timer i (TM_V2CancelRace fiber_id record_id exc) w =
     cancel_race_timers i fiber_id (\<lambda>k. case k of TK_V2Race current _ \<Rightarrow> current = record_id | _ \<Rightarrow> False) exc w"

definition push_journal :: "uuid \<Rightarrow> journal_record \<Rightarrow> inner \<Rightarrow> inner" where
  "push_journal i entry w =
     w\<lparr>in_journals := bt_insert i (bt_or_default (in_journals w) i [] @ [entry]) (in_journals w)\<rparr>"

definition hash_envelope :: "ext \<Rightarrow> snapshot_envelope \<Rightarrow> inner \<Rightarrow> (commit_error \<times> inner) + hash32" where
  "hash_envelope x e w = map_err (\<lambda>err. (CE_Integrity (IR_Envelope err), w)) (state_hash x e)"

definition zero_hash :: hash32 where
  "zero_hash = replicate 32 CHR 0x00"

fun write_child :: "ext \<Rightarrow> child_start \<Rightarrow> inner \<Rightarrow> (commit_error \<times> inner) + inner" where
  "write_child x (ChildStart inst root_fiber start_event _) w =
     (let child_id = pi_instance_id inst;
          w = w\<lparr>in_instances := bt_insert child_id inst (in_instances w),
                in_revisions := bt_insert child_id (bt_or_default (in_revisions w) child_id 0) (in_revisions w),
                in_fibers := bt_insert (child_id, fb_id root_fiber) root_fiber (in_fibers w)\<rparr>;
          w = append_event child_id start_event w;
          envelope = snapshot_envelope_new CURRENT_ARTIFACT_ABI (pi_bytecode_version inst) 0
            (persisted_new inst [root_fiber] bt_empty [] bt_empty [])
      in try_res (hash_envelope x envelope w) (\<lambda>child_state_hash.
         let cmd = command_envelope_new (for_transition x child_id 0 (- 1)) (pi_created_at inst)
               (JC_Administrative ''child_start'')
         in Inr (push_journal child_id
              (journal_record_new cmd (- 1) 0 (pi_bytecode_version inst) zero_hash child_state_hash [start_event] [])
              (w\<lparr>in_snapshots := bt_insert child_id envelope (in_snapshots w)\<rparr>))))"

text \<open>Everything up to the new revision.\<close>

definition write_tables ::
  "ext \<Rightarrow> host \<Rightarrow> claim \<Rightarrow> transition \<Rightarrow> process_instance \<Rightarrow> inner \<Rightarrow> (commit_error \<times> inner) + inner" where
  "write_tables x h c t inst w =
     (let i = cl_instance_id c;
          w = write_fibers i t (write_instance c t inst w);
          w = fold (write_join i) (tr_join_mutations t) w;
          w = fold enqueue_job (tr_jobs_enqueue t) w;
          w = fold remove_job (tr_jobs_ack t) w
      in try_res (fold_res (write_job h) (tr_job_mutations t) w) (\<lambda>w.
         let w = write_cleanup i (tr_terminal_cleanup t) w;
             w = fold (\<lambda>d w. w\<lparr>in_dedupe := bt_insert (dw_key d) (dw_completion d, h_instant h) (in_dedupe w)\<rparr>) (tr_dedupe t) w;
             w = fold (write_incident i) (tr_incidents t) w;
             w = fold write_message (tr_buffered_messages t) w;
             w = fold write_outbox (tr_outbox t) w
         in try_res (fold_res (write_effect c) (tr_effects t) w) (\<lambda>w.
            try_res (fold_res (write_effect_mutation c) (tr_effect_mutations t) w) (\<lambda>w.
            try_res (fold_res (write_child x) (tr_child_starts t) (fold (write_timer i) (tr_timer_mutations t) w)) (\<lambda>w.
            Inr (fold (append_event i) (tr_events t) w))))))"

section \<open>Revision, snapshot and journal\<close>

definition fibers_of :: "uuid \<Rightarrow> inner \<Rightarrow> fiber list" where
  "fibers_of i w = map snd (filter (\<lambda>((i', _), _). i' = i) (bt_entries (in_fibers w)))"

definition join_counts_of :: "uuid \<Rightarrow> inner \<Rightarrow> (join_id, u16) btree" where
  "join_counts_of i w =
     bt_of_list (map (\<lambda>((_, j), n). (j, n)) (filter (\<lambda>((i', _), _). i' = i) (bt_entries (in_join_counters w))))"

definition commit_command :: "ext \<Rightarrow> uuid \<Rightarrow> u64 \<Rightarrow> process_instance \<Rightarrow> transition \<Rightarrow> command_envelope" where
  "commit_command x i new_revision inst t =
     (case tr_command_envelope t of
        Some cmd \<Rightarrow> cmd
      | None \<Rightarrow>
          case tr_start_dedupe t of
            None \<Rightarrow> command_envelope_new (for_transition x i new_revision (- 1)) (pi_created_at inst)
              (JC_Administrative ''fixture_or_admin_commit'')
          | Some start \<Rightarrow> command_envelope_new (sc_idempotency_key start) (sc_logical_time start) (JC_Start start))"

definition write_envelope ::
  "ext \<Rightarrow> claim \<Rightarrow> bool \<Rightarrow> transition \<Rightarrow> process_instance \<Rightarrow> inner \<Rightarrow> (commit_error \<times> inner) + u64 \<times> inner" where
  "write_envelope x c start t inst w =
     (let i = cl_instance_id c;
          new_revision = (if start then 0 else cl_expected_revision c + 1);
          table = fold apply_concurrency_mutation (tr_concurrency_mutations t)
            (bt_or_default (in_concurrency_tables w) i bt_empty);
          w = w\<lparr>in_revisions := bt_insert i new_revision (in_revisions w),
                in_concurrency_tables := bt_insert i table (in_concurrency_tables w)\<rparr>;
          envelope = snapshot_envelope_new CURRENT_ARTIFACT_ABI (pi_bytecode_version inst) new_revision
            (persisted_new inst (fibers_of i w) (join_counts_of i w) (bt_or_default (in_incidents w) i []) table [])
      in try_res (hash_envelope x envelope w) (\<lambda>hash.
         try_res (if start then Inr (- 1)
                  else ok_or (i64_try_from (cl_expected_revision c))
                    (CE_Integrity (IR_Text ''revision exceeds signed journal range''), w)) (\<lambda>prior_revision.
         let prior_state_hash = (case bt_get (in_snapshots w) i of
               Some prior \<Rightarrow> (case state_hash x prior of Inr p \<Rightarrow> p | Inl _ \<Rightarrow> zero_hash)
             | None \<Rightarrow> zero_hash);
             journal = journal_record_new (commit_command x i new_revision inst t) prior_revision new_revision
               (pi_bytecode_version inst) prior_state_hash hash (tr_events t) (tr_effects t)
         in Inr (new_revision, push_journal i journal
              (w\<lparr>in_snapshots := bt_insert i envelope (in_snapshots w)\<rparr>)))))"

definition finish_lease :: "ext \<Rightarrow> host \<Rightarrow> claim \<Rightarrow> process_instance \<Rightarrow> u64 \<Rightarrow> inner \<Rightarrow> inner" where
  "finish_lease x h c inst new_revision w =
     (if pi_state inst \<noteq> PS_Running
         \<or> \<not> list_ex (\<lambda>f. fb_wait f = W_Running) (fibers_of (cl_instance_id c) w)
      then w\<lparr>in_transition_leases := bt_remove (cl_instance_id c) (in_transition_leases w)\<rparr>
      else snd (enqueue_activation_locked h (cl_tenant_id c) (cl_instance_id c)
             (activation_command_id_for_runnable x (cl_instance_id c) new_revision) ''tick'' (Cmd_Tick None) None w))"

section \<open>The commit\<close>

definition commit_inner ::
  "ext \<Rightarrow> host \<Rightarrow> claim \<Rightarrow> transition \<Rightarrow> inner \<Rightarrow> (commit_error + commit_outcome) \<times> inner" where
  "commit_inner x h c t w =
     (case commit_checks c t w of
        Inl (Refused e) \<Rightarrow> (Inl e, w)
      | Inl AlreadyDone \<Rightarrow> (Inr IdempotentNoOp, w)
      | Inr () \<Rightarrow>
          let start = is_start c w;
              inst = stored_instance x c t w
          in case try_res (write_tables x h c t inst w) (write_envelope x c start t inst) of
               Inl (e, w') \<Rightarrow> (Inl e, w')
             | Inr (new_revision, w') \<Rightarrow> (Inr (Committed new_revision), finish_lease x h c inst new_revision w'))"

definition commit_transition ::
  "ext \<Rightarrow> host \<Rightarrow> claim \<Rightarrow> transition \<Rightarrow> memory_store \<Rightarrow> (commit_error + commit_outcome) \<times> memory_store" where
  "commit_transition x h c t m =
     (case commit_pending h (cl_tenant_id c) t (ms_pending m) of
        Inl (e, p) \<Rightarrow> (Inl e, m\<lparr>ms_pending := p\<rparr>)
      | Inr p \<Rightarrow>
          (case commit_inner x h c t (ms_inner m) of
             (outcome, w) \<Rightarrow> (outcome, m\<lparr>ms_inner := w, ms_pending := p\<rparr>)))"

section \<open>Leases\<close>

definition check_heads :: "ext \<Rightarrow> tenant_id \<Rightarrow> uuid \<Rightarrow> process_instance \<Rightarrow> inner \<Rightarrow> string + unit" where
  "check_heads x tenant i inst w =
     (let revision = bt_or_default (in_revisions w) i 0 in
      try_res (ok_or (bt_get (in_snapshots w) i) ''missing snapshot envelope'') (\<lambda>snap.
      try_res (ok_or (case bt_get (in_journals w) i of Some rs \<Rightarrow> vec_last rs | None \<Rightarrow> None) ''missing journal head'') (\<lambda>journal.
      if se_revision snap \<noteq> revision \<or> pi_instance_id (ps_instance (se_state snap)) \<noteq> i
         \<or> pi_tenant_id (ps_instance (se_state snap)) \<noteq> tenant
         \<or> pi_bytecode_version (ps_instance (se_state snap)) \<noteq> pi_bytecode_version inst
         \<or> jr_new_revision journal \<noteq> revision \<or> jr_artifact_hash journal \<noteq> pi_bytecode_version inst
        then Inl ''snapshot and journal head diverge''
      else
        try_res (map_err persistence_error_text (state_hash x snap)) (\<lambda>hash.
        if jr_state_hash journal \<noteq> hash then Inl ''snapshot and journal head diverge'' else Inr ()))))"

definition grant_lease ::
  "ext \<Rightarrow> host \<Rightarrow> tenant_id \<Rightarrow> uuid \<Rightarrow> string \<Rightarrow> u64 \<Rightarrow> inner \<Rightarrow> (claim_error + claim option) \<times> inner" where
  "grant_lease x h tenant i owner lease_ms w =
     (let lease = bt_get (in_transition_leases w) i;
          now = h_instant h;
          lease_until = now + unat lease_ms * 1000000;
          fresh = x_uuid_string x (h_fresh h 0);
          grant = (\<lambda>fence token.
            (Inr (Some \<lparr>cl_tenant_id = tenant, cl_instance_id = i,
                cl_expected_revision = bt_or_default (in_revisions w) i 0, cl_fence = fence, cl_lease_token = token\<rparr>),
             w\<lparr>in_transition_leases := bt_insert i (owner, lease_until, fence, token) (in_transition_leases w)\<rparr>));
          advance = (\<lambda>previous_fence.
            case checked_add previous_fence 1 of
              None \<Rightarrow> (Inl (Claim_Invalid ''transition fence overflow''), w)
            | Some fence \<Rightarrow> grant fence fresh)
      in case lease of
           Some (current_owner, expires_at, fence, token) \<Rightarrow>
             if current_owner \<noteq> owner \<and> expires_at > now then (Inr None, w)
             else if current_owner = owner \<and> expires_at > now then grant fence token
             else advance fence
         | None \<Rightarrow> advance 0)"

definition claim_instance_for_transition ::
  "ext \<Rightarrow> host \<Rightarrow> tenant_id \<Rightarrow> uuid \<Rightarrow> string \<Rightarrow> u64 \<Rightarrow> inner \<Rightarrow> (claim_error + claim option) \<times> inner" where
  "claim_instance_for_transition x h tenant i owner lease_ms w =
     (case bt_get (in_instances w) i of
        None \<Rightarrow> (Inr None, w)
      | Some inst \<Rightarrow>
          if pi_tenant_id inst \<noteq> tenant then (Inr None, w)
          else
            case check_heads x tenant i inst w of
              Inl reason \<Rightarrow>
                (Inl (Claim_Integrity reason),
                 w\<lparr>in_instances := bt_insert i (inst\<lparr>pi_quarantine_state := Some ''replay_integrity_violation''\<rparr>) (in_instances w),
                   in_transition_leases := bt_remove i (in_transition_leases w)\<rparr>)
            | Inr () \<Rightarrow> grant_lease x h tenant i owner lease_ms w)"

definition release_instance_transition :: "tenant_id \<Rightarrow> uuid \<Rightarrow> string \<Rightarrow> inner \<Rightarrow> inner" where
  "release_instance_transition tenant i lease_token w =
     (case (bt_get (in_instances w) i, bt_get (in_transition_leases w) i) of
        (Some inst, Some (_, _, _, current_token)) \<Rightarrow>
          if pi_tenant_id inst = tenant \<and> current_token = lease_token
          then w\<lparr>in_transition_leases := bt_remove i (in_transition_leases w)\<rparr> else w
      | _ \<Rightarrow> w)"

end
