(* ===== verification/StoreQueues.thy ===== *)
theory StoreQueues
  imports StoreCommit Canonical
begin

text \<open>
  The other operations of the in-memory store (\<open>store_memory.rs\<close>): reads, the job queue, buffered
  messages, maintenance, timers, effects and activations, and the retry decision of an effect
  (\<open>transition.rs\<close>). Each takes the state and returns it with its result.
\<close>

section \<open>Reads\<close>

definition load_instance :: "tenant_id \<Rightarrow> uuid \<Rightarrow> inner \<Rightarrow> process_instance option" where
  "load_instance tenant i w =
     (case bt_get (in_instances w) i of
        Some inst \<Rightarrow> if pi_tenant_id inst = tenant then Some inst else None
      | None \<Rightarrow> None)"

definition load_fiber :: "tenant_id \<Rightarrow> uuid \<Rightarrow> uuid \<Rightarrow> inner \<Rightarrow> fiber option" where
  "load_fiber tenant i fiber_id w =
     (if load_instance tenant i w = None then None else bt_get (in_fibers w) (i, fiber_id))"

definition load_fibers :: "tenant_id \<Rightarrow> uuid \<Rightarrow> inner \<Rightarrow> fiber list" where
  "load_fibers tenant i w = (if load_instance tenant i w = None then [] else fibers_of i w)"

definition load_incidents :: "tenant_id \<Rightarrow> uuid \<Rightarrow> inner \<Rightarrow> incident list" where
  "load_incidents tenant i w =
     (if load_instance tenant i w = None then [] else bt_or_default (in_incidents w) i [])"

definition join_get :: "tenant_id \<Rightarrow> uuid \<Rightarrow> join_id \<Rightarrow> inner \<Rightarrow> u16" where
  "join_get tenant i j w =
     (if load_instance tenant i w = None then 0 else bt_or_default (in_join_counters w) (i, j) 0)"

definition dedupe_get :: "string \<Rightarrow> inner \<Rightarrow> job_completion option" where
  "dedupe_get key w = map_option fst (bt_get (in_dedupe w) key)"

definition lookup_start_instance :: "tenant_id \<Rightarrow> uuid \<Rightarrow> inner \<Rightarrow> uuid option" where
  "lookup_start_instance tenant idempotency_key w = bt_get (in_starts w) (tenant, idempotency_key)"

definition load_snapshot_envelope :: "tenant_id \<Rightarrow> uuid \<Rightarrow> inner \<Rightarrow> snapshot_envelope option" where
  "load_snapshot_envelope tenant i w =
     (case bt_get (in_snapshots w) i of
        Some e \<Rightarrow> if pi_tenant_id (ps_instance (se_state e)) = tenant then Some e else None
      | None \<Rightarrow> None)"

definition read_journal :: "tenant_id \<Rightarrow> uuid \<Rightarrow> u64 option \<Rightarrow> inner \<Rightarrow> journal_record list" where
  "read_journal tenant i after_revision w =
     (if load_instance tenant i w = None then []
      else filter (\<lambda>r. case after_revision of Some revision \<Rightarrow> jr_new_revision r > revision | None \<Rightarrow> True)
        (bt_or_default (in_journals w) i []))"

definition read_events :: "tenant_id \<Rightarrow> uuid \<Rightarrow> u64 \<Rightarrow> inner \<Rightarrow> (u64 \<times> runtime_event) list" where
  "read_events tenant i from_seq w =
     (if load_instance tenant i w = None then []
      else filter (\<lambda>(seq, _). seq \<ge> from_seq) (bt_or_default (in_events w) i []))"

definition load_payload_version :: "tenant_id \<Rightarrow> uuid \<Rightarrow> hash32 \<Rightarrow> inner \<Rightarrow> string option" where
  "load_payload_version tenant i hash w =
     (if load_instance tenant i w = None then None else bt_get (in_payload_history w) (i, hash))"

definition list_running_instances :: "tenant_id \<Rightarrow> inner \<Rightarrow> uuid list" where
  "list_running_instances tenant w =
     map fst (filter (\<lambda>(_, inst). is_schedulable (pi_state inst) \<and> pi_tenant_id inst = tenant
        \<and> pi_quarantine_state inst = None) (bt_entries (in_instances w)))"

definition claim_running_instances :: "tenant_id \<Rightarrow> nat \<Rightarrow> inner \<Rightarrow> uuid list" where
  "claim_running_instances tenant limit w = take limit (list_running_instances tenant w)"

section \<open>The job queue\<close>

fun dequeue_loop ::
  "ext \<Rightarrow> host \<Rightarrow> string list \<Rightarrow> nat \<Rightarrow> tenant_id \<Rightarrow> string \<Rightarrow> i64 \<Rightarrow> job_activation list
     \<Rightarrow> job_activation list \<Rightarrow> job_activation list \<Rightarrow> inner \<Rightarrow> job_activation list \<times> inner" where
  "dequeue_loop x h task_types max_jobs tenant worker_id claim_expires_at [] result remaining w =
     (result, w\<lparr>in_job_queue := remaining\<rparr>)"
| "dequeue_loop x h task_types max_jobs tenant worker_id claim_expires_at (job # queue) result remaining w =
     (let job_tenant = map_option pi_tenant_id (bt_get (in_instances w) (ja_process_instance_id job));
          due = (case ja_not_before job of Some not_before \<Rightarrow> i64_le not_before (h_now_ms h) | None \<Rightarrow> True)
      in if length result < max_jobs \<and> job_tenant = Some tenant \<and> due \<and> ja_task_type job \<in> set task_types
         then
           let job = job\<lparr>ja_tenant_id := tenant, ja_worker_id := worker_id,
                 ja_claim_token := x_uuid_string x (h_fresh h (length result)),
                 ja_claim_expires_at := Some claim_expires_at, ja_attempt_count := ja_attempt_count job + 1\<rparr>
           in dequeue_loop x h task_types max_jobs tenant worker_id claim_expires_at queue (result @ [job]) remaining
                (w\<lparr>in_inflight_jobs := bt_insert (ja_job_key job) (job, h_instant h) (in_inflight_jobs w)\<rparr>)
         else dequeue_loop x h task_types max_jobs tenant worker_id claim_expires_at queue result (remaining @ [job]) w)"

definition dequeue_jobs ::
  "ext \<Rightarrow> host \<Rightarrow> string list \<Rightarrow> nat \<Rightarrow> tenant_id \<Rightarrow> string \<Rightarrow> u64 \<Rightarrow> inner \<Rightarrow> job_activation list \<times> inner" where
  "dequeue_jobs x h task_types max_jobs tenant worker_id lease_ms w =
     dequeue_loop x h task_types max_jobs tenant worker_id (h_now_ms h + lease_ms) (in_job_queue w) [] [] w"

definition validate_job_claim :: "host \<Rightarrow> string \<Rightarrow> string \<Rightarrow> string \<Rightarrow> inner \<Rightarrow> bool" where
  "validate_job_claim h job_key worker_id claim_token w =
     (case bt_get (in_inflight_jobs w) job_key of
        Some (job, _) \<Rightarrow> ja_worker_id job = worker_id \<and> ja_claim_token job = claim_token
          \<and> (case ja_claim_expires_at job of Some expires_at \<Rightarrow> i64_less (h_now_ms h) expires_at | None \<Rightarrow> False)
      | None \<Rightarrow> False)"

text \<open>A stale job goes back to the queue while it has a retry left; otherwise it is dropped.\<close>

definition reclaim_job :: "string \<Rightarrow> inner \<Rightarrow> inner" where
  "reclaim_job key w =
     (case bt_get (in_inflight_jobs w) key of
        None \<Rightarrow> w
      | Some (job, _) \<Rightarrow>
          let w = w\<lparr>in_inflight_jobs := bt_remove key (in_inflight_jobs w)\<rparr>;
              previous_worker_id = (if ja_worker_id job = [] then None else Some (ja_worker_id job));
              w = (if ja_retries_remaining job > 1
                   then w\<lparr>in_job_queue := in_job_queue w @
                     [job\<lparr>ja_retries_remaining := ja_retries_remaining job - 1,
                          ja_failure_count := ja_failure_count job + 1, ja_worker_id := [], ja_claim_token := [],
                          ja_claim_expires_at := None\<rparr>]\<rparr>
                   else w)
          in append_event (ja_process_instance_id job) (Ev_JobReclaimed key previous_worker_id) w)"

definition reclaim_stale_jobs :: "host \<Rightarrow> inner \<Rightarrow> u32 \<times> inner" where
  "reclaim_stale_jobs h w =
     (let stale = map fst (filter (\<lambda>(_, job, _).
            case ja_claim_expires_at job of Some expires_at \<Rightarrow> i64_less expires_at (h_now_ms h) | None \<Rightarrow> False)
            (bt_entries (in_inflight_jobs w)))
      in (of_nat (length stale), fold reclaim_job stale w))"

section \<open>Messages and caches\<close>

fun value_key :: "val \<Rightarrow> string" where
  "value_key (V_Bool b) = ''b:'' @ (if b then ''true'' else ''false'')"
| "value_key (V_I64 n) = ''i:'' @ dec_i64 n"
| "value_key (V_Str n) = ''s:'' @ dec_u n"
| "value_key (V_Ref n) = ''r:'' @ dec_u n"
| "value_key (V_Array vs) = ''a:'' @ hex_bytes (encode_value (V_Array vs))"

definition dead_letter_put :: "u32 \<Rightarrow> val \<Rightarrow> bytes \<Rightarrow> u64 \<Rightarrow> inner \<Rightarrow> inner" where
  "dead_letter_put name corr_key payload ttl_ms w =
     w\<lparr>in_dead_letter := bt_insert (name, value_key corr_key) (payload, ttl_ms) (in_dead_letter w)\<rparr>"

definition dead_letter_take :: "u32 \<Rightarrow> val \<Rightarrow> inner \<Rightarrow> bytes option \<times> inner" where
  "dead_letter_take name corr_key w =
     (map_option fst (bt_get (in_dead_letter w) (name, value_key corr_key)),
      w\<lparr>in_dead_letter := bt_remove (name, value_key corr_key) (in_dead_letter w)\<rparr>)"

text \<open>\<open>Iterator::min_by_key\<close>: the first of the minimal elements.\<close>

definition min_by_key :: "('a \<Rightarrow> int) \<Rightarrow> 'a list \<Rightarrow> 'a option" where
  "min_by_key f xs =
     (case xs of [] \<Rightarrow> None | y # ys \<Rightarrow> Some (foldl (\<lambda>a b. if f b < f a then b else a) y ys))"

definition claim_buffered_message ::
  "ext \<Rightarrow> host \<Rightarrow> tenant_id \<Rightarrow> string \<Rightarrow> string \<Rightarrow> u64 \<Rightarrow> inner \<Rightarrow> claimed_buffered_message option \<times> inner" where
  "claim_buffered_message x h tenant message_name correlation_key claim_ms w =
     (let now = h_now_ms h;
          candidates = filter (\<lambda>((t, n, c, i), msg). t = tenant \<and> n = message_name \<and> c = correlation_key
              \<and> i64_less now (bm_expires_at msg)
              \<and> (case bt_get (in_message_buffer_claims w) (t, n, c, i) of
                   Some (_, claim_until) \<Rightarrow> i64_le claim_until now | None \<Rightarrow> True))
            (bt_entries (in_message_buffer w))
      in case min_by_key (\<lambda>(_, msg). sint (bm_received_at msg)) candidates of
           None \<Rightarrow> (None, w)
         | Some (key, message) \<Rightarrow>
             let token = x_uuid_string x (h_fresh h 0); claim_until = now + claim_ms
             in (Some \<lparr>cm_message = message, cm_claim_token = token, cm_claim_until = claim_until\<rparr>,
                 w\<lparr>in_message_buffer_claims := bt_insert key (token, claim_until) (in_message_buffer_claims w)\<rparr>))"

definition reclaim_stale_buffered_message_claims :: "host \<Rightarrow> inner \<Rightarrow> u32 \<times> inner" where
  "reclaim_stale_buffered_message_claims h w =
     (let claims = bt_retain (\<lambda>_ (_, claim_until). i64_less (h_now_ms h) claim_until) (in_message_buffer_claims w)
      in (of_nat (bt_len (in_message_buffer_claims w) - bt_len claims), w\<lparr>in_message_buffer_claims := claims\<rparr>))"

definition expire_message :: "message_key \<Rightarrow> inner \<Rightarrow> inner" where
  "expire_message key w =
     (let w = (case bt_get (in_message_buffer w) key of
            None \<Rightarrow> w
          | Some msg \<Rightarrow>
              let w = w\<lparr>in_message_buffer := bt_remove key (in_message_buffer w)\<rparr> in
              case bm_process_instance_id msg of
                Some i \<Rightarrow> append_event i (Ev_BufferedMessageExpired (bm_message_name msg) (bm_correlation_key msg) (bm_msg_id msg)) w
              | None \<Rightarrow> w)
      in w\<lparr>in_message_buffer_claims := bt_remove key (in_message_buffer_claims w)\<rparr>)"

definition prune_expired_messages :: "host \<Rightarrow> inner \<Rightarrow> u32 \<times> inner" where
  "prune_expired_messages h w =
     (let expired = map fst (filter (\<lambda>(_, msg). i64_le (bm_expires_at msg) (h_now_ms h)) (bt_entries (in_message_buffer w)));
          w' = fold expire_message expired w
      in (of_nat (bt_len (in_message_buffer w) - bt_len (in_message_buffer w')), w'))"

definition prune_dedupe_cache :: "host \<Rightarrow> u64 \<Rightarrow> inner \<Rightarrow> u32 \<times> inner" where
  "prune_dedupe_cache h older_than_ms w =
     (let kept = bt_retain (\<lambda>_ (_, created_at). h_instant h - created_at \<le> unat older_than_ms * 1000000) (in_dedupe w)
      in (of_nat (bt_len (in_dedupe w) - bt_len kept), w\<lparr>in_dedupe := kept\<rparr>))"

section \<open>Timers\<close>

definition timer_claimable :: "tenant_id \<Rightarrow> u64 \<Rightarrow> memory_timer \<Rightarrow> bool" where
  "timer_claimable tenant now timer \<longleftrightarrow>
     mt_tenant_id timer = tenant \<and> mt_state timer = MT_Armed \<and> mt_due_at timer \<le> now
     \<and> (case mt_claim timer of Some (_, _, until) \<Rightarrow> until \<le> now | None \<Rightarrow> True)"

definition claim_timer_row :: "string \<Rightarrow> u64 \<Rightarrow> effect_id \<Rightarrow> uuid \<Rightarrow> inner \<Rightarrow> claimed_timer list \<times> inner" where
  "claim_timer_row owner claim_until timer_id claim_token w =
     (case bt_get (in_timers w) timer_id of
        None \<Rightarrow> ([], w)
      | Some timer \<Rightarrow>
          ([\<lparr>tm_tenant_id = mt_tenant_id timer, tm_timer_id = timer_id, tm_instance_id = mt_instance_id timer,
             tm_fiber_id = mt_fiber_id timer, tm_due_at = mt_due_at timer, tm_kind = mt_kind timer,
             tm_repeat_spec = mt_repeat_spec timer, tm_claim_token = claim_token\<rparr>],
           w\<lparr>in_timers := bt_insert timer_id (timer\<lparr>mt_claim := Some (owner, claim_token, claim_until)\<rparr>) (in_timers w)\<rparr>))"

fun claim_each :: "('k \<Rightarrow> uuid \<Rightarrow> inner \<Rightarrow> 'c list \<times> inner) \<Rightarrow> (nat \<Rightarrow> uuid) \<Rightarrow> nat \<Rightarrow> 'k list \<Rightarrow> inner \<Rightarrow> 'c list \<times> inner" where
  "claim_each f fresh n [] w = ([], w)"
| "claim_each f fresh n (k # ks) w =
     (let (cs, w) = f k (fresh n) w; (ds, w) = claim_each f fresh (Suc n) ks w in (cs @ ds, w))"

definition claim_due_timers ::
  "host \<Rightarrow> tenant_id \<Rightarrow> string \<Rightarrow> u64 \<Rightarrow> nat \<Rightarrow> u64 \<Rightarrow> inner \<Rightarrow> claimed_timer list \<times> inner" where
  "claim_due_timers h tenant owner now limit lease_ms w =
     (let due = map (\<lambda>(timer_id, timer). (mt_due_at timer, timer_id))
            (filter (\<lambda>(_, timer). timer_claimable tenant now timer) (bt_entries (in_timers w)))
      in claim_each (claim_timer_row owner (sat_add now lease_ms)) (h_fresh h) 0 (map snd (take limit (sort due))) w)"

definition release_timer_claim :: "claimed_timer \<Rightarrow> inner \<Rightarrow> inner" where
  "release_timer_claim timer w =
     update_timer (tm_timer_id timer) (\<lambda>current.
       if timer_claim_matches current (tm_claim_token timer) then current\<lparr>mt_claim := None\<rparr> else current) w"

section \<open>Effects\<close>

record claimed_effect =
  cf_tenant_id :: tenant_id
  cf_instance_id :: uuid
  cf_effect :: durable_effect
  cf_claim_token :: uuid
  cf_attempt :: u32
  cf_policy_version :: u32

definition effect_claimable :: "tenant_id \<Rightarrow> u64 \<Rightarrow> memory_effect \<Rightarrow> bool" where
  "effect_claimable tenant now effect \<longleftrightarrow>
     me_tenant_id effect = tenant \<and> me_state effect \<noteq> ME_Terminal \<and> me_response effect = None
     \<and> (case me_claim effect of Some (_, _, until) \<Rightarrow> until \<le> now | None \<Rightarrow> True)"

definition claim_effect_row :: "string \<Rightarrow> u64 \<Rightarrow> effect_id \<Rightarrow> uuid \<Rightarrow> inner \<Rightarrow> claimed_effect list \<times> inner" where
  "claim_effect_row owner claim_until effect_id claim_token w =
     (case bt_get (in_durable_effects w) effect_id of
        None \<Rightarrow> ([], w)
      | Some effect \<Rightarrow>
          ([\<lparr>cf_tenant_id = me_tenant_id effect, cf_instance_id = me_instance_id effect, cf_effect = me_effect effect,
             cf_claim_token = claim_token, cf_attempt = me_attempt effect, cf_policy_version = me_policy_version effect\<rparr>],
           w\<lparr>in_durable_effects := bt_insert effect_id
               (effect\<lparr>me_state := ME_Dispatching, me_claim := Some (owner, claim_token, claim_until)\<rparr>)
               (in_durable_effects w)\<rparr>))"

definition claim_pending_effects ::
  "host \<Rightarrow> tenant_id \<Rightarrow> string \<Rightarrow> u64 \<Rightarrow> nat \<Rightarrow> u64 \<Rightarrow> inner \<Rightarrow> claimed_effect list \<times> inner" where
  "claim_pending_effects h tenant owner now limit lease_ms w =
     (let ids = map fst (filter (\<lambda>(_, effect). effect_claimable tenant now effect) (bt_entries (in_durable_effects w)))
      in claim_each (claim_effect_row owner (sat_add now lease_ms)) (h_fresh h) 0 (take limit (sort ids)) w)"

definition effect_claim_matches :: "memory_effect \<Rightarrow> claimed_effect \<Rightarrow> bool" where
  "effect_claim_matches current effect =
     (case me_claim current of Some (_, token, _) \<Rightarrow> token = cf_claim_token effect | None \<Rightarrow> False)"

definition put_effect :: "claimed_effect \<Rightarrow> memory_effect \<Rightarrow> inner \<Rightarrow> inner" where
  "put_effect effect current w =
     w\<lparr>in_durable_effects := bt_insert (durable_effect_id (cf_effect effect)) current (in_durable_effects w)\<rparr>"

definition record_effect_response :: "claimed_effect \<Rightarrow> effect_response \<Rightarrow> inner \<Rightarrow> bool \<times> inner" where
  "record_effect_response effect response w =
     (case bt_get (in_durable_effects w) (durable_effect_id (cf_effect effect)) of
        None \<Rightarrow> (False, w)
      | Some current \<Rightarrow>
          if me_response current \<noteq> None \<or> \<not> effect_claim_matches current effect then (False, w)
          else (True, put_effect effect
                 (current\<lparr>me_response := Some response, me_state := ME_Accepted, me_claim := None\<rparr>) w))"

definition load_effect_responses ::
  "tenant_id \<Rightarrow> nat \<Rightarrow> inner \<Rightarrow> (uuid \<times> durable_effect \<times> effect_response) list" where
  "load_effect_responses tenant limit w =
     take limit (map (\<lambda>(_, effect). (me_instance_id effect, me_effect effect, the (me_response effect)))
       (sort_key (\<lambda>(_, effect). durable_effect_id (me_effect effect))
         (filter (\<lambda>(_, effect). me_tenant_id effect = tenant \<and> me_response effect \<noteq> None)
           (bt_entries (in_durable_effects w)))))"

definition release_effect_claim :: "claimed_effect \<Rightarrow> inner \<Rightarrow> inner" where
  "release_effect_claim effect w =
     (case bt_get (in_durable_effects w) (durable_effect_id (cf_effect effect)) of
        None \<Rightarrow> w
      | Some current \<Rightarrow>
          if effect_claim_matches current effect
          then put_effect effect (current\<lparr>me_state := ME_Pending, me_claim := None\<rparr>) w else w)"

datatype retry_decision = RD_At u32 u64 | RD_Exhausted | RD_Terminal

definition from_le_bytes :: "bytes \<Rightarrow> u64" where
  "from_le_bytes bs = foldr (\<lambda>c w. of_char c + 256 * w) bs 0"

definition retry_policy_decision ::
  "ext \<Rightarrow> retry_policy \<Rightarrow> u32 \<Rightarrow> u64 option \<Rightarrow> error_class \<Rightarrow> u64 \<Rightarrow> uuid \<Rightarrow> retry_decision" where
  "retry_policy_decision x p attempt retry_hint cls logical_time command_id =
     (if cls \<noteq> Transient then RD_Terminal
      else
        let next_attempt = sat_add attempt 1 in
        if next_attempt > rp_max_attempts p then RD_Exhausted
        else
          let shift = min (unat attempt) 62;
              delay = min (sat_mul (rp_base_delay_ms p) (push_bit shift 1)) (rp_max_delay_ms p);
              jitter_seed = from_le_bytes (take 8 (content_hash x (be_bytes 16 command_id)));
              jitter_bound = delay div 4;
              jitter = (if jitter_bound = 0 then 0 else jitter_seed mod jitter_bound);
              computed_due = sat_add (sat_add logical_time delay) jitter
          in RD_At next_attempt (case retry_hint of None \<Rightarrow> computed_due | Some hint \<Rightarrow> max hint computed_due))"

datatype store_error = SE_NotFound string | SE_Integrity string

definition schedule_effect_retry :: "claimed_effect \<Rightarrow> retry_decision \<Rightarrow> inner \<Rightarrow> (store_error + unit) \<times> inner" where
  "schedule_effect_retry effect decision w =
     (case bt_get (in_durable_effects w) (durable_effect_id (cf_effect effect)) of
        None \<Rightarrow> (Inl (SE_NotFound ''effect does not exist''), w)
      | Some current \<Rightarrow>
          if \<not> effect_claim_matches current effect then (Inl (SE_Integrity ''effect dispatch lease is stale''), w)
          else
            let current = (case decision of
                  RD_At attempt _ \<Rightarrow> current\<lparr>me_attempt := attempt, me_state := ME_Pending\<rparr>
                | _ \<Rightarrow> current\<lparr>me_state := ME_Terminal\<rparr>)
            in (Inr (), put_effect effect (current\<lparr>me_claim := None\<rparr>) w))"

section \<open>Activations\<close>

record claimed_activation =
  ca_tenant_id :: tenant_id
  ca_activation_id :: uuid
  ca_instance_id :: uuid
  ca_command_id :: uuid
  ca_command_kind :: string
  ca_command :: command
  ca_attempt_count :: u32
  ca_claim_token :: string

definition claimed_row :: "uuid \<Rightarrow> memory_activation \<Rightarrow> string \<Rightarrow> claimed_activation" where
  "claimed_row activation_id a token =
     \<lparr>ca_tenant_id = ma_tenant_id a, ca_activation_id = activation_id, ca_instance_id = ma_instance_id a,
      ca_command_id = ma_command_id a, ca_command_kind = ma_command_kind a, ca_command = ma_command a,
      ca_attempt_count = ma_attempt_count a, ca_claim_token = token\<rparr>"

fun claim_activations ::
  "ext \<Rightarrow> host \<Rightarrow> string \<Rightarrow> nat \<Rightarrow> i64 \<Rightarrow> uuid list \<Rightarrow> claimed_activation list \<Rightarrow> uuid list \<Rightarrow> inner
     \<Rightarrow> claimed_activation list \<times> inner" where
  "claim_activations x h owner limit expires_at [] result batch w = (result, w)"
| "claim_activations x h owner limit expires_at (i # is) result batch w =
     (if length result \<ge> limit then (result, w)
      else
        case bt_get (in_activations w) i of
          None \<Rightarrow> claim_activations x h owner limit expires_at is result batch w
        | Some a \<Rightarrow>
            if ma_instance_id a \<in> set batch then claim_activations x h owner limit expires_at is result batch w
            else
              let token = x_uuid_string x (h_fresh h (length result));
                  a = a\<lparr>ma_status := MA_Claimed, ma_claim := Some (owner, token, expires_at),
                        ma_attempt_count := ma_attempt_count a + 1\<rparr>
              in claim_activations x h owner limit expires_at is (result @ [claimed_row i a token])
                   (ma_instance_id a # batch) (w\<lparr>in_activations := bt_insert i a (in_activations w)\<rparr>))"

definition activation_order :: "memory_activation \<Rightarrow> int \<times> int \<times> int" where
  "activation_order a = (sint (ma_priority a), sint (ma_available_at_ms a), uint (ma_seq a))"

definition claim_ready_activations ::
  "ext \<Rightarrow> host \<Rightarrow> tenant_id \<Rightarrow> string \<Rightarrow> nat \<Rightarrow> u64 \<Rightarrow> inner \<Rightarrow> claimed_activation list \<times> inner" where
  "claim_ready_activations x h tenant owner limit lease_ms w =
     (let now = h_now_ms h;
          claimed_instances = map ma_instance_id
            (filter (\<lambda>a. ma_tenant_id a = tenant \<and> ma_status a = MA_Claimed) (bt_values (in_activations w)));
          candidates = map fst (sort_key (\<lambda>(_, a). activation_order a)
            (filter (\<lambda>(_, a). ma_tenant_id a = tenant \<and> ma_status a = MA_Ready \<and> i64_le (ma_available_at_ms a) now
                \<and> ma_instance_id a \<notin> set claimed_instances) (bt_entries (in_activations w))))
      in claim_activations x h owner limit (now + lease_ms) candidates [] [] w)"

definition activation_claim_matches :: "claimed_activation \<Rightarrow> memory_activation \<Rightarrow> bool" where
  "activation_claim_matches c a \<longleftrightarrow>
     ma_status a = MA_Claimed \<and> (case ma_claim a of Some (_, token, _) \<Rightarrow> token = ca_claim_token c | None \<Rightarrow> False)"

definition update_claimed :: "claimed_activation \<Rightarrow> (memory_activation \<Rightarrow> memory_activation) \<Rightarrow> inner \<Rightarrow> inner" where
  "update_claimed c f w =
     (case bt_get (in_activations w) (ca_activation_id c) of
        Some a \<Rightarrow>
          if activation_claim_matches c a
          then w\<lparr>in_activations := bt_insert (ca_activation_id c) (f a) (in_activations w)\<rparr> else w
      | None \<Rightarrow> w)"

definition renew_activation_claim ::
  "host \<Rightarrow> claimed_activation \<Rightarrow> u64 \<Rightarrow> inner \<Rightarrow> claimed_activation option \<times> inner" where
  "renew_activation_claim h c lease_ms w =
     (case bt_get (in_activations w) (ca_activation_id c) of
        Some a \<Rightarrow>
          if activation_claim_matches c a
          then (Some (claimed_row (ca_activation_id c) a (ca_claim_token c)),
                update_claimed c (\<lambda>a. a\<lparr>ma_claim := map_option (\<lambda>(owner, token, _). (owner, token, h_now_ms h + lease_ms)) (ma_claim a)\<rparr>) w)
          else (None, w)
      | None \<Rightarrow> (None, w))"

definition release_activation_to_ready :: "host \<Rightarrow> claimed_activation \<Rightarrow> u64 option \<Rightarrow> inner \<Rightarrow> inner" where
  "release_activation_to_ready h c not_before_ms w =
     update_claimed c (\<lambda>a. a\<lparr>ma_status := MA_Ready, ma_claim := None,
       ma_available_at_ms := unwrap_or not_before_ms (h_now_ms h)\<rparr>) w"

definition consume_activation :: "claimed_activation \<Rightarrow> inner \<Rightarrow> bool \<times> inner" where
  "consume_activation c w =
     (case bt_get (in_activations w) (ca_activation_id c) of
        Some a \<Rightarrow>
          if activation_claim_matches c a
          then (True, w\<lparr>in_activations := bt_remove (ca_activation_id c) (in_activations w)\<rparr>) else (False, w)
      | None \<Rightarrow> (False, w))"

definition dead_letter_activation :: "claimed_activation \<Rightarrow> inner \<Rightarrow> inner" where
  "dead_letter_activation c w = update_claimed c (\<lambda>a. a\<lparr>ma_status := MA_DeadLettered, ma_claim := None\<rparr>) w"

definition activation_expired :: "i64 \<Rightarrow> memory_activation \<Rightarrow> bool" where
  "activation_expired now a \<longleftrightarrow>
     ma_status a = MA_Claimed \<and> (case ma_claim a of Some (_, _, expires_at) \<Rightarrow> i64_le expires_at now | None \<Rightarrow> False)"

definition reclaim_expired_activations :: "host \<Rightarrow> inner \<Rightarrow> u32 \<times> inner" where
  "reclaim_expired_activations h w =
     (let now = h_now_ms h in
      (of_nat (length (filter (activation_expired now) (bt_values (in_activations w)))),
       w\<lparr>in_activations := bt_map_values (\<lambda>_ a.
           if activation_expired now a
           then a\<lparr>ma_status := MA_Ready, ma_claim := None, ma_available_at_ms := now\<rparr> else a) (in_activations w)\<rparr>))"

section \<open>Work\<close>

text \<open>A claim, with the snapshot and the command to apply to it. A claim without a snapshot is released.\<close>

definition claim_work_for_transition ::
  "ext \<Rightarrow> host \<Rightarrow> tenant_id \<Rightarrow> uuid \<Rightarrow> string \<Rightarrow> u64 \<Rightarrow> command \<Rightarrow> inner
     \<Rightarrow> (claim_error + (claim \<times> snapshot \<times> command) option) \<times> inner" where
  "claim_work_for_transition x h tenant i owner lease_ms cmd w =
     (case claim_instance_for_transition x h tenant i owner lease_ms w of
        (Inl e, w) \<Rightarrow> (Inl e, w)
      | (Inr None, w) \<Rightarrow> (Inr None, w)
      | (Inr (Some c), w) \<Rightarrow>
          case load_snapshot_envelope tenant i w of
            None \<Rightarrow> (Inl (Claim_Integrity ''claimed instance has no snapshot''),
                     release_instance_transition tenant i (cl_lease_token c) w)
          | Some e \<Rightarrow> (Inr (Some (c, to_runtime_snapshot (se_state e), cmd)), w))"

end
