(* ===== verification/Quiet.thy ===== *)
theory Quiet
  imports Identity
begin

text \<open>
  What no command writes: the kernel leaves the static join counters, child starts, pending
  invocations and the start dedupe of a transition empty. Those parts of a transition are written
  by the engine around the kernel.
\<close>

definition quiet :: "transition \<Rightarrow> bool" where
  "quiet t \<longleftrightarrow> tr_join_mutations t = [] \<and> tr_child_starts t = [] \<and> tr_pending_invocations t = []
     \<and> tr_pending_take t = [] \<and> tr_start_dedupe t = None"

abbreviation quiet_changes :: "changes \<Rightarrow> bool" where
  "quiet_changes ch \<equiv> ch_join_mutations ch = []"

lemma quiet_finish [simp]: "quiet (finish ch inst) \<longleftrightarrow> quiet_changes ch"
  by (simp add: quiet_def finish_eq transition_new_def split: option.splits)

lemma quiet_builder [simp]:
  "quiet (transition_new i)"
  "quiet (tb_upsert_fiber f t) = quiet t" "quiet (tb_delete_fiber j t) = quiet t"
  "quiet (tb_event e t) = quiet t" "quiet (tb_effect d t) = quiet t"
  "quiet (tb_effect_mutation em t) = quiet t" "quiet (tb_timer_mutation tm t) = quiet t"
  "quiet (tb_enqueue_job a t) = quiet t" "quiet (tb_ack_job k t) = quiet t"
  "quiet (tb_job_mutation jm t) = quiet t" "quiet (tb_dedupe dw t) = quiet t"
  "quiet (tb_incident inc t) = quiet t" "quiet (tb_buffered_message bm t) = quiet t"
  "quiet (tb_terminal_cleanup tc t) = quiet t" "quiet (tb_concurrency_mutation cm t) = quiet t"
  "quiet (tb_control_stack_delta cs t) = quiet t" "quiet (with_command_envelope ce t) = quiet t"
  by (simp_all add: quiet_def builder_defs transition_new_def with_command_envelope_def)

lemma quiet_retire_all [simp]: "quiet (retire_all_armed_records s t) = quiet t"
  by (simp add: quiet_def retire_all_eq)

lemma quiet_fold: "(\<And>a ch. ch_join_mutations (f a ch) = ch_join_mutations ch) \<Longrightarrow>
  ch_join_mutations (fold f as ch) = ch_join_mutations ch"
  by (induction as arbitrary: ch) simp_all

lemma quiet_pushes [simp]:
  "ch_join_mutations (push_upsert f ch) = ch_join_mutations ch"
  "ch_join_mutations (push_delete i ch) = ch_join_mutations ch"
  "ch_join_mutations (push_event e ch) = ch_join_mutations ch"
  "ch_join_mutations (push_effect d ch) = ch_join_mutations ch"
  "ch_join_mutations (push_effect_mutation em ch) = ch_join_mutations ch"
  "ch_join_mutations (push_timer_mutation tm ch) = ch_join_mutations ch"
  "ch_join_mutations (push_enqueue j ch) = ch_join_mutations ch"
  "ch_join_mutations (push_ack k ch) = ch_join_mutations ch"
  "ch_join_mutations (push_job_mutation jm ch) = ch_join_mutations ch"
  "ch_join_mutations (push_dedupe dw ch) = ch_join_mutations ch"
  "ch_join_mutations (push_incident inc ch) = ch_join_mutations ch"
  "ch_join_mutations (push_buffered bm ch) = ch_join_mutations ch"
  "ch_join_mutations (push_mutation cm ch) = ch_join_mutations ch"
  "ch_join_mutations (push_delta cs ch) = ch_join_mutations ch"
  "ch_join_mutations changes_default = []"
  by (simp_all add: push_defs)

lemma quiet_folds [simp]:
  "ch_join_mutations (fold push_delete is ch) = ch_join_mutations ch"
  "ch_join_mutations (fold push_job_mutation ms ch) = ch_join_mutations ch"
  "ch_join_mutations (fold (\<lambda>r. push_mutation (g r)) rs ch) = ch_join_mutations ch"
  "ch_join_mutations (fold (\<lambda>h. push_delta (d h)) hs ch) = ch_join_mutations ch"
  "ch_join_mutations (v2_reconcile_ancestor_membership s ops ex ch) = ch_join_mutations ch"
  by (simp_all add: quiet_fold v2_reconcile_ancestor_membership_def Let_def)

lemma quiet_trigger:
  "v2_trigger_guard_changes_with_target x s i cx a = Inr ch \<Longrightarrow> quiet_changes ch"
  "v2_trigger_guard_changes x s i cx = Inr ch \<Longrightarrow> quiet_changes ch"
  by (auto simp: v2_trigger_guard_changes_def v2_trigger_guard_changes_with_target_def Let_def
      elim!: try_resE split: if_splits prod.splits)

lemma quiet_rollback:
  "v2_rollback_guard_scope x s g caller ch = Inr (rb, ch') \<Longrightarrow> ch_join_mutations ch' = ch_join_mutations ch"
  by (auto simp: v2_rollback_guard_scope_def Let_def elim!: try_resE split: prod.splits rollback_caller.splits)

definition step_quiet :: "step_result \<Rightarrow> bool" where
  "step_quiet r \<longleftrightarrow> (case r of Next ts \<Rightarrow> quiet_changes (tk_changes ts) | Done t \<Rightarrow> quiet t)"

lemma step_quiet_simps [simp]:
  "step_quiet (Next ts) \<longleftrightarrow> quiet_changes (tk_changes ts)" "step_quiet (Done t) \<longleftrightarrow> quiet t"
  by (simp_all add: step_quiet_def)

lemma quiet_forks:
  "fold (fork_spawn x cx p h) as (n, ms, ch, is) = (n', ms', ch', is') \<Longrightarrow> ch_join_mutations ch' = ch_join_mutations ch"
  by (induction as arbitrary: n ms ch "is") (auto simp: fork_spawn_def Let_def split: prod.splits)

lemma exec_quiet: "exec_instr x w s cx ins ts = Inr r \<Longrightarrow> quiet_changes (tk_changes ts) \<Longrightarrow> step_quiet r"
  by (cases ins)
    (auto simp: word_defs Let_def map_err_Inr quiet_forks dest!: quiet_rollback elim!: try_resE
      split: if_splits option.splits prod.splits val.splits durable_effect.splits timer_kind.splits)

lemma tick_loop_quiet: "tick_loop n x w s cx ts = Inr t \<Longrightarrow> quiet_changes (tk_changes ts) \<Longrightarrow> quiet t"
proof (induction n arbitrary: ts)
  case (Suc n)
  from Suc.prems obtain r where r: "tick_step x w s cx ts = Inr r"
    by (cases "tick_step x w s cx ts") simp_all
  then have "step_quiet r"
    using Suc.prems(2) by (auto simp: tick_step_def elim!: try_resE dest!: exec_quiet)
  then show ?case using Suc.prems Suc.IH r by (cases r) auto
qed simp

lemma apply_tick_quiet: "apply_tick x w s cmd cx = Inr t \<Longrightarrow> quiet t"
  by (auto simp: apply_tick_def tick_start_def elim!: try_resE dest!: tick_loop_quiet
      split: command.splits if_splits)

lemma quiet_rescue:
  "rescue_trigger x w s cx g a f e m n k i ch = Inr (ch', i') \<Longrightarrow> quiet_changes ch \<Longrightarrow> quiet_changes ch'"
  by (auto simp: rescue_trigger_def truncate_scope_def Let_def elim!: try_resE split: prod.splits if_splits option.splits)

lemma quiet_guard_rollback: "apply_v2_guard_timer_rollback x w s g r cx = Inr (ch, i) \<Longrightarrow> quiet_changes ch"
  by (auto simp: apply_v2_guard_timer_rollback_def Let_def truncate_scope_def elim!: try_resE
      dest!: quiet_rescue quiet_rollback split: option.splits prod.splits if_splits)

lemma apply_timer_quiet: "apply_timer x w s timer at cx = Inr t \<Longrightarrow> quiet t"
  by (auto simp: apply_timer_def fire_guard_timer_def push_race_won_def Let_def
      elim!: try_resE dest!: quiet_guard_rollback quiet_trigger
      split: if_splits timer_kind.splits option.splits wait_state.splits prod.splits)

lemma apply_ffi_quiet: "apply_ffi_completion x w s cmd = Inr t \<Longrightarrow> quiet t"
  by (auto simp: apply_ffi_completion_def push_race_won_def Let_def elim!: try_resE
      split: command.splits effect_output.splits if_splits ffi_match.splits prod.splits)

lemma apply_job_quiet: "apply_job_completion x s c = Inr t \<Longrightarrow> quiet t"
  by (auto simp: apply_job_completion_def Let_def elim!: try_resE split: if_splits option.splits)

lemma apply_message_quiet: "apply_message x w s cmd cx = Inr t \<Longrightarrow> quiet t"
  by (auto simp: apply_message_def push_race_won_def Let_def elim!: try_resE
      split: command.splits if_splits option.splits prod.splits)

lemma apply_job_failure_quiet: "apply_job_failure x w s cmd cx = Inr t \<Longrightarrow> quiet t"
  by (auto simp: apply_job_failure_def fail_job_ignored_def fail_job_retry_def fail_job_routed_def
      fail_job_rollback_def fail_job_incident_def ack_job_key_def Let_def elim!: try_resE
      dest!: quiet_rescue quiet_rollback quiet_trigger
      split: command.splits if_splits option.splits prod.splits error_class.splits)

lemma apply_cancel_quiet: "quiet (apply_cancel x s reason cx)"
  by (simp add: apply_cancel_eq quiet_def retire_all_eq transition_new_def)

lemma dispatch_quiet:
  assumes "dispatch x w s cmd cx = Inr t"
  shows "quiet t"
proof -
  have rest: "apply_terminate s cx = Inr t \<Longrightarrow> ?thesis" "apply_resolve_incident s i r cx = Inr t \<Longrightarrow> ?thesis"
    "apply_start_child_result x s k c b cx = Inr t \<Longrightarrow> ?thesis" "apply_v2_trigger_guard x s cmd' cx = Inr t \<Longrightarrow> ?thesis"
    for i r k c b cmd'
    by (auto simp: apply_terminate_def apply_resolve_incident_def apply_start_child_result_def
        apply_v2_trigger_guard_def Let_def elim!: try_resE dest!: quiet_trigger
        split: if_splits option.splits process_state.splits command.splits)
  from assms show ?thesis
    by (cases "(x, w, s, cmd, cx)" rule: dispatch.cases)
      (auto simp: apply_cancel_quiet dest: apply_tick_quiet apply_timer_quiet
        apply_ffi_quiet apply_job_quiet apply_message_quiet apply_job_failure_quiet rest)
qed

end
