(* ===== verification/StoreLaws.thy ===== *)
theory StoreLaws
  imports StoreQueues Quiet HandlerTheorems
begin

text \<open>
  What a successful commit does to the tables of an instance. \<open>stored\<close> says that the snapshot kept
  for an instance is exactly what its tables hold; \<open>commit_stored\<close> shows that a commit of a kernel
  transition keeps this, that the new snapshot is \<open>materialize_snapshot\<close> of the old one, and that
  one journal record with its hash is appended.
\<close>

section \<open>The rows of one instance\<close>

definition bt_slice :: "'a::linorder \<Rightarrow> ('a \<times> 'b::linorder, 'v) btree \<Rightarrow> ('b, 'v) btree" where
  "bt_slice i m = bt_of_list (map (\<lambda>((_, b), v). (b, v)) (filter (\<lambda>((a, _), _). a = i) (bt_entries m)))"

lemma bt_get_slice: "bt_get (bt_slice i m) b = bt_get m (i, b)"
proof -
  let ?xs = "map (\<lambda>((_, b), v). (b, v)) (filter (\<lambda>((a, _), _). a = i) (bt_entries m))"
  have slice: "map_of (map (\<lambda>((_, b), v). (b, v)) (filter (\<lambda>((a, _), _). a = i) xs)) b = map_of xs (i, b)" for xs
    by (induction xs) auto
  have "distinct (map fst xs) \<Longrightarrow> distinct (map fst (map (\<lambda>((_, b), v). (b, v)) (filter (\<lambda>((a, _), _). a = i) xs)))"
    for xs
    by (induction xs) (auto simp: image_iff split: prod.splits)
  from this [of "bt_entries m"] have "distinct (map fst ?xs)" by (simp add: al_wf_distinct)
  then show ?thesis unfolding bt_slice_def by (simp only: bt_of_list_get slice) (simp add: bt_get_def)
qed

lemma bt_slice_insert: "bt_slice i (bt_insert (i, b) v m) = bt_insert b v (bt_slice i m)"
  by (rule bt_eqI) (auto simp: fun_eq_iff bt_get_slice bt_get_insert)

lemma bt_slice_remove: "bt_slice i (bt_remove (i, b) m) = bt_remove b (bt_slice i m)"
  by (rule bt_eqI) (auto simp: fun_eq_iff bt_get_slice bt_get_remove)

lemma bt_slice_other:
  "j \<noteq> i \<Longrightarrow> bt_slice i (bt_insert (j, b) v m) = bt_slice i m"
  "j \<noteq> i \<Longrightarrow> bt_slice i (bt_remove (j, b) m) = bt_slice i m"
  "j \<noteq> i \<Longrightarrow> bt_slice i (bt_retain (\<lambda>(i', _) _. i' \<noteq> j) m) = bt_slice i m"
  by (rule bt_eqI, simp add: fun_eq_iff bt_get_slice bt_get_insert bt_get_remove bt_get_retain split: option.splits)+

lemma bt_slice_cleared: "bt_slice i (bt_retain (\<lambda>(i', _) _. i' \<noteq> i) m) = bt_empty"
  by (rule bt_eqI) (auto simp: fun_eq_iff bt_get_slice bt_get_retain split: option.splits)

lemma bt_slice_fold_insert:
  "bt_slice i (fold (\<lambda>f. bt_insert (i, k f) f) fs m) = fold (\<lambda>f. bt_insert (k f) f) fs (bt_slice i m)"
  by (induction fs arbitrary: m) (simp_all add: bt_slice_insert)

lemma bt_slice_fold_remove:
  "bt_slice i (fold (\<lambda>k. bt_remove (i, k)) ks m) = fold bt_remove ks (bt_slice i m)"
  by (induction ks arbitrary: m) (simp_all add: bt_slice_remove)

lemma join_counts_slice: "join_counts_of i w = bt_slice i (in_join_counters w)"
  by (simp add: join_counts_of_def bt_slice_def)

lemma key_fibers_slice:
  assumes "fibers_wf (bt_slice i (in_fibers w))"
  shows "key_fibers (fibers_of i w) = bt_slice i (in_fibers w)"
proof -
  have mem: "bt_get (bt_slice i (in_fibers w)) b = Some f" if "((i, b), f) \<in> set (bt_entries (in_fibers w))" for b f
    using that by (simp add: bt_get_slice bt_entries_mem)
  have "map (\<lambda>f. (fb_id f, f)) (fibers_of i w) =
      map (\<lambda>((_, b), v). (b, v)) (filter (\<lambda>((a, _), _). a = i) (bt_entries (in_fibers w)))"
    using assms mem unfolding fibers_of_def fibers_wf_iff by (auto split: prod.splits)
  then show ?thesis by (simp add: key_fibers_def bt_slice_def)
qed


section \<open>What the writes keep\<close>

definition plain :: "transition \<Rightarrow> bool" where
  "plain t \<longleftrightarrow> tr_join_mutations t = [] \<and> tr_child_starts t = []"

lemma quiet_plain: "quiet t \<Longrightarrow> plain t"
  by (simp add: quiet_def plain_def)

definition core where
  "core w = (in_instances w, in_fibers w, in_join_counters w, in_incidents w, in_concurrency_tables w,
     in_revisions w, in_snapshots w, in_journals w)"

lemma core_eqD:
  assumes "core w = core v"
  shows "in_instances w = in_instances v" "in_fibers w = in_fibers v" "in_join_counters w = in_join_counters v"
    "in_incidents w = in_incidents v" "in_concurrency_tables w = in_concurrency_tables v"
    "in_revisions w = in_revisions v" "in_snapshots w = in_snapshots v" "in_journals w = in_journals v"
  using assms by (simp_all add: core_def)

lemma fold_keep: "(\<And>a w. g (f a w) = g w) \<Longrightarrow> g (fold f as w) = g w"
  by (induction as arbitrary: w) simp_all

lemma fold_res_keep:
  "(\<And>a w w'. f a w = Inr w' \<Longrightarrow> g w' = g w) \<Longrightarrow> fold_res f as w = Inr w' \<Longrightarrow> g w' = g w"
proof (induction as arbitrary: w)
  case (Cons a as)
  from Cons.prems(2) obtain v where v: "f a w = Inr v" "fold_res f as v = Inr w'" by (auto elim!: try_resE)
  from Cons.IH [OF Cons.prems(1) v(2)] Cons.prems(1) [OF v(1)] show ?case by simp
qed simp

lemma core_keep:
  "core (remove_job k w) = core w" "core (remove_queued k w) = core w" "core (enqueue_job j w) = core w"
  "core (write_message bm w) = core w" "core (write_outbox ob w) = core w" "core (write_timer i tm w) = core w"
  "core (append_event i ev w) = core w" "core (w\<lparr>in_dedupe := dd\<rparr>) = core w"
  subgoal by (simp add: core_def remove_job_def remove_queued_def)
  subgoal by (simp add: core_def remove_queued_def)
  subgoal by (simp add: core_def enqueue_job_def)
  subgoal by (cases bm) (simp_all add: core_def Let_def)
  subgoal by (cases ob) (simp add: core_def)
  subgoal by (cases tm) (simp_all add: core_def update_timer_def cancel_race_timers_def split: option.splits)
  subgoal by (simp add: core_def append_event_def Let_def)
  subgoal by (simp add: core_def)
  done

lemma core_keep_res:
  "write_job h jm w = Inr w' \<Longrightarrow> core w' = core w"
  "write_effect c d w = Inr w' \<Longrightarrow> core w' = core w"
  "write_effect_mutation c em w = Inr w' \<Longrightarrow> core w' = core w"
  subgoal by (cases jm) (auto simp: take_claimed_def core_def remove_job_def remove_queued_def Let_def
      elim!: try_resE split: option.splits if_splits)
  subgoal by (cases d) (auto simp: core_def Let_def split: option.splits if_splits)
  subgoal by (cases em) (auto simp: core_def split: option.splits if_splits)
  done

lemma core_fold_res:
  "fold_res (write_job h) jms w = Inr w' \<Longrightarrow> core w' = core w"
  "fold_res (write_effect c) ds w = Inr w' \<Longrightarrow> core w' = core w"
  "fold_res (write_effect_mutation c) ems w = Inr w' \<Longrightarrow> core w' = core w"
  by (erule fold_res_keep [rotated]; erule core_keep_res)+

lemma core_folds:
  "core (fold remove_job ks w) = core w" "core (fold enqueue_job js w) = core w"
  "core (fold write_message bms w) = core w" "core (fold write_outbox obs w) = core w"
  "core (fold (write_timer i) tms w) = core w" "core (fold (append_event i) evs w) = core w"
  "core (fold (\<lambda>d w. w\<lparr>in_dedupe := bt_insert (dw_key d) (dw_completion d, n) (in_dedupe w)\<rparr>) dws w) = core w"
  by (rule fold_keep; rule core_keep)+

lemma core_cong:
  assumes "core w = core v"
  shows "core (write_cleanup i tc w) = core (write_cleanup i tc v)" "core (write_incident i inc w) = core (write_incident i inc v)"
  using core_eqD [OF assms] by (simp_all add: core_def write_cleanup_def write_incident_def Let_def)

lemma core_fold_incidents:
  "core w = core v \<Longrightarrow> core (fold (write_incident i) incs w) = core (fold (write_incident i) incs v)"
proof (induction incs arbitrary: w v)
  case (Cons inc incs)
  from Cons.IH [OF core_cong(2) [OF Cons.prems]] show ?case by simp
qed simp

lemma write_tables_core:
  assumes "write_tables x h c t inst w = Inr w'" and "plain t"
  shows "core w' = core (fold (write_incident (cl_instance_id c)) (tr_incidents t)
    (write_cleanup (cl_instance_id c) (tr_terminal_cleanup t) (write_fibers (cl_instance_id c) t (write_instance c t inst w))))"
proof -
  let ?i = "cl_instance_id c"
  let ?a = "write_fibers ?i t (write_instance c t inst w)"
  have q: "tr_join_mutations t = []" "tr_child_starts t = []" using assms(2) by (simp_all add: plain_def)
  from assms(1) obtain b d e where
    b: "fold_res (write_job h) (tr_job_mutations t) (fold remove_job (tr_jobs_ack t) (fold enqueue_job (tr_jobs_enqueue t) ?a)) = Inr b"
    and d: "fold_res (write_effect c) (tr_effects t) (fold write_outbox (tr_outbox t) (fold write_message (tr_buffered_messages t)
        (fold (write_incident ?i) (tr_incidents t) (fold (\<lambda>d w. w\<lparr>in_dedupe := bt_insert (dw_key d) (dw_completion d, h_instant h) (in_dedupe w)\<rparr>)
          (tr_dedupe t) (write_cleanup ?i (tr_terminal_cleanup t) b))))) = Inr d"
    and e: "fold_res (write_effect_mutation c) (tr_effect_mutations t) d = Inr e"
    and w': "Inr (fold (append_event ?i) (tr_events t) (fold (write_timer ?i) (tr_timer_mutations t) e)) = (Inr w' :: (commit_error \<times> inner) + inner)"
    unfolding write_tables_def Let_def q fold_simps(1) fold_res.simps(1) try_res_simps id_apply by (elim try_resE) (rule that)
  have b': "core b = core ?a" using core_fold_res(1) [OF b] by (simp add: core_folds)
  let ?k = "write_cleanup ?i (tr_terminal_cleanup t) b"
  have "core w' = core d" using core_fold_res(3) [OF e] w' by (auto simp: core_folds)
  also have "\<dots> = core (fold (write_incident ?i) (tr_incidents t) (fold (\<lambda>d w. w\<lparr>in_dedupe := bt_insert (dw_key d) (dw_completion d, h_instant h) (in_dedupe w)\<rparr>)
          (tr_dedupe t) ?k))"
    using core_fold_res(2) [OF d] by (simp add: core_folds)
  also have "\<dots> = core (fold (write_incident ?i) (tr_incidents t) ?k)"
    by (rule core_fold_incidents) (rule core_folds)
  also have "\<dots> = core (fold (write_incident ?i) (tr_incidents t) (write_cleanup ?i (tr_terminal_cleanup t) ?a))"
    by (rule core_fold_incidents, rule core_cong, rule b')
  finally show ?thesis .
qed

section \<open>The stored snapshot is the tables\<close>

definition instance_envelope :: "uuid \<Rightarrow> inner \<Rightarrow> process_instance \<Rightarrow> u64 \<Rightarrow> snapshot_envelope" where
  "instance_envelope i w inst revision =
     snapshot_envelope_new CURRENT_ARTIFACT_ABI (pi_bytecode_version inst) revision
       (persisted_new inst (fibers_of i w) (join_counts_of i w) (bt_or_default (in_incidents w) i [])
          (bt_or_default (in_concurrency_tables w) i bt_empty) [])"

definition stored :: "uuid \<Rightarrow> inner \<Rightarrow> snapshot_envelope \<Rightarrow> bool" where
  "stored i w e \<longleftrightarrow>
     (\<exists>inst. bt_get (in_instances w) i = Some inst \<and> e = instance_envelope i w inst (se_revision e))
     \<and> bt_get (in_snapshots w) i = Some e \<and> bt_get (in_revisions w) i = Some (se_revision e)
     \<and> fibers_wf (bt_slice i (in_fibers w))
     \<and> distinct (map inc_incident_id (bt_or_default (in_incidents w) i []))"

lemma upsert_distinct:
  assumes "distinct (map inc_incident_id l)"
  shows "distinct (map inc_incident_id (upsert_incident inc l))"
proof -
  have "inc_incident_id ` set (upsert_incident inc l) = insert (inc_incident_id inc) (inc_incident_id ` set l)" for l
    by (induction l) auto
  with assms show ?thesis by (induction l) auto
qed

lemma key_incidents_upsert:
  assumes "distinct (map inc_incident_id l)"
  shows "key_incidents (upsert_incident inc l) = bt_insert (inc_incident_id inc) inc (key_incidents l)"
proof -
  have ids: "map fst (map (\<lambda>i. (inc_incident_id i, i)) l) = map inc_incident_id l" for l by (induction l) auto
  have "map_of (map (\<lambda>i. (inc_incident_id i, i)) (upsert_incident inc l)) =
      (map_of (map (\<lambda>i. (inc_incident_id i, i)) l))(inc_incident_id inc \<mapsto> inc)" for l
    by (induction l) (auto simp: fun_eq_iff)
  then show ?thesis
    unfolding key_incidents_def using upsert_distinct [OF assms] assms
    by (intro bt_eqI ext) (simp add: bt_get_insert bt_of_list_get ids del: map_map)
qed

lemma fold_upsert:
  assumes "distinct (map inc_incident_id l)"
  shows "distinct (map inc_incident_id (fold upsert_incident incs l))"
    and "key_incidents (fold upsert_incident incs l) = fold (\<lambda>i. bt_insert (inc_incident_id i) i) incs (key_incidents l)"
  using assms by (induction incs arbitrary: l) (simp_all add: upsert_distinct key_incidents_upsert)

lemma write_incidents_eq:
  "core (fold (write_incident i) incs w) = core (w\<lparr>in_incidents :=
     (if incs = [] then in_incidents w else bt_insert i (fold upsert_incident incs (bt_or_default (in_incidents w) i [])) (in_incidents w))\<rparr>)"
proof (induction incs arbitrary: w)
  case (Cons inc incs)
  show ?case
    by (simp add: Cons.IH) (simp add: core_def write_incident_def bt_or_default_def,
       auto intro!: bt_eqI simp: bt_get_insert)
qed (simp add: core_def)

lemma write_tables_fields:
  assumes "write_tables x h c t inst w = Inr w'" and "plain t" and i: "i = cl_instance_id c"
  shows "in_instances w' = bt_insert i inst (in_instances w)"
    and "bt_slice i (in_fibers w') = (if tc_delete_all_fibers (tr_terminal_cleanup t) then bt_empty
      else fold bt_remove (tr_fibers_delete t) (fold (\<lambda>f. bt_insert (fb_id f) f) (tr_fibers_upsert t) (bt_slice i (in_fibers w))))"
    and "bt_slice i (in_join_counters w') =
      (if tc_delete_all_joins (tr_terminal_cleanup t) then bt_empty else bt_slice i (in_join_counters w))"
    and "bt_or_default (in_incidents w') i [] = fold upsert_incident (tr_incidents t) (bt_or_default (in_incidents w) i [])"
    and "in_concurrency_tables w' = in_concurrency_tables w" and "in_revisions w' = in_revisions w"
    and "in_snapshots w' = in_snapshots w" and "in_journals w' = in_journals w"
proof -
  note eq = write_tables_core [OF assms(1,2), folded i, unfolded write_incidents_eq, unfolded core_def prod.inject]
  note defs = write_cleanup_def write_fibers_def write_instance_def Let_def i [symmetric]
  from eq show "in_instances w' = bt_insert i inst (in_instances w)"
    "in_concurrency_tables w' = in_concurrency_tables w" "in_revisions w' = in_revisions w"
    "in_snapshots w' = in_snapshots w" "in_journals w' = in_journals w"
    by (simp_all add: defs)
  from eq show "bt_slice i (in_fibers w') = (if tc_delete_all_fibers (tr_terminal_cleanup t) then bt_empty
      else fold bt_remove (tr_fibers_delete t) (fold (\<lambda>f. bt_insert (fb_id f) f) (tr_fibers_upsert t) (bt_slice i (in_fibers w))))"
    by (simp add: defs bt_slice_cleared bt_slice_fold_insert bt_slice_fold_remove)
  from eq show "bt_slice i (in_join_counters w') =
      (if tc_delete_all_joins (tr_terminal_cleanup t) then bt_empty else bt_slice i (in_join_counters w))"
    by (simp add: defs bt_slice_cleared)
  from eq show "bt_or_default (in_incidents w') i [] = fold upsert_incident (tr_incidents t) (bt_or_default (in_incidents w) i [])"
    by (simp add: defs bt_or_default_def)
qed

lemma key_incidents_wf: "incidents_wf (key_incidents l)"
proof -
  have "key_incidents l = fold (\<lambda>i. bt_insert (inc_incident_id i) i) l bt_empty"
    by (simp add: key_incidents_def bt_of_list_def fold_map comp_def)
  moreover have "incidents_wf bt_empty" by (simp add: incidents_wf_iff)
  ultimately show ?thesis using incidents_wf_fold by simp
qed

lemma stored_instance_hashless:
  assumes "bt_get (in_instances w) (cl_instance_id c) = Some prior"
    and "pi_quarantine_state prior = pi_quarantine_state (tr_next_snapshot t)"
  shows "(stored_instance x c t w)\<lparr>pi_integrity_hash := None\<rparr> =
      (case tr_state_override t of Some st \<Rightarrow> (tr_next_snapshot t)\<lparr>pi_state := st\<rparr> | None \<Rightarrow> tr_next_snapshot t)\<lparr>pi_integrity_hash := None\<rparr>"
    and "pi_bytecode_version (stored_instance x c t w) = pi_bytecode_version (tr_next_snapshot t)"
  using assms by (simp_all add: stored_instance_def Let_def split: option.splits)

lemma materialize_stored:
  assumes st: "stored i w e" and tables: "write_tables x h c t inst w = Inr v" and "plain t" and i: "i = cl_instance_id c"
    and inst: "inst = stored_instance x c t w"
    and q: "pi_quarantine_state (tr_next_snapshot t) = pi_quarantine_state (ps_instance (se_state e))"
    and w': "in_fibers w' = in_fibers v" "in_join_counters w' = in_join_counters v" "in_incidents w' = in_incidents v"
      "bt_or_default (in_concurrency_tables w') i bt_empty = fold apply_concurrency_mutation (tr_concurrency_mutations t)
        (bt_or_default (in_concurrency_tables w) i bt_empty)"
  shows "instance_envelope i w' inst r = materialize_snapshot (se_state e) t CURRENT_ARTIFACT_ABI r"
    and "fibers_wf (bt_slice i (in_fibers w'))" and "distinct (map inc_incident_id (bt_or_default (in_incidents w') i []))"
proof -
  note f = write_tables_fields [OF tables assms(3) i]
  from st obtain prior where prior: "bt_get (in_instances w) i = Some prior" "e = instance_envelope i w prior (se_revision e)"
    and wf: "fibers_wf (bt_slice i (in_fibers w))" "distinct (map inc_incident_id (bt_or_default (in_incidents w) i []))"
    by (auto simp: stored_def)
  let ?F = "if tc_delete_all_fibers (tr_terminal_cleanup t) then bt_empty
      else fold bt_remove (tr_fibers_delete t) (fold (\<lambda>f. bt_insert (fb_id f) f) (tr_fibers_upsert t) (bt_slice i (in_fibers w)))"
  have F: "fibers_wf ?F"
    using fibers_wf_deltas [OF wf(1), of "tr_fibers_upsert t" "tr_fibers_delete t" "tc_delete_all_fibers (tr_terminal_cleanup t)"]
    by (simp add: apply_fiber_deltas_def)
  then show wf': "fibers_wf (bt_slice i (in_fibers w'))" using f(2) w'(1) by simp
  have incs: "bt_or_default (in_incidents w') i [] = fold upsert_incident (tr_incidents t) (bt_or_default (in_incidents w) i [])"
    using f(4) w'(3) by simp
  then show "distinct (map inc_incident_id (bt_or_default (in_incidents w') i []))"
    using fold_upsert(1) [OF wf(2)] by simp
  have state: "se_state e = persisted_new prior (fibers_of i w) (join_counts_of i w) (bt_or_default (in_incidents w) i [])
      (bt_or_default (in_concurrency_tables w) i bt_empty) []"
    by (subst prior(2)) (simp add: instance_envelope_def snapshot_envelope_new_def)
  have quar: "pi_quarantine_state prior = pi_quarantine_state (tr_next_snapshot t)"
    using q state by (simp add: persisted_new_def)
  note inst' = stored_instance_hashless [OF prior(1) [unfolded i] quar, where x = x, folded inst]
  have bv: "pi_bytecode_version (case tr_state_override t of None \<Rightarrow> tr_next_snapshot t | Some st \<Rightarrow> (tr_next_snapshot t)\<lparr>pi_state := st\<rparr>)
      = pi_bytecode_version (tr_next_snapshot t)" by (simp split: option.splits)
  have jn: "tr_join_mutations t = []" using assms(3) by (simp add: plain_def)
  show "instance_envelope i w' inst r = materialize_snapshot (se_state e) t CURRENT_ARTIFACT_ABI r"
    using inst' incs w'(1,2,4) f(2,3)
    by (simp add: instance_envelope_def materialize_snapshot_def Let_def snapshot_envelope_new_def persisted_new_def state
        key_fibers_slice [OF wf(1)] key_fibers_slice [OF wf'] join_counts_slice key_fibers_values [OF F]
        fold_upsert(2) [OF wf(2)] key_incidents_values incidents_wf_fold key_incidents_wf bv jn)
qed


lemma commit_innerE:
  assumes "commit_inner x h c t w = (Inr (Committed r), w')"
  obtains v u where "commit_checks c t w = Inr ()" "write_tables x h c t (stored_instance x c t w) w = Inr v"
    "write_envelope x c (is_start c w) t (stored_instance x c t w) v = Inr (r, u)"
    "w' = finish_lease x h c (stored_instance x c t w) r u"
  using assms unfolding commit_inner_def
  by (auto simp: Let_def split: sum.splits early_return.splits unit.splits prod.splits elim!: try_resE)

lemma core_finish_lease: "core (finish_lease x h c inst r w) = core w"
  by (simp add: core_def finish_lease_def enqueue_activation_locked_def Let_def)

definition next_tables :: "uuid \<Rightarrow> u64 \<Rightarrow> transition \<Rightarrow> inner \<Rightarrow> inner" where
  "next_tables i revision t v = v\<lparr>in_revisions := bt_insert i revision (in_revisions v),
     in_concurrency_tables := bt_insert i (fold apply_concurrency_mutation (tr_concurrency_mutations t)
       (bt_or_default (in_concurrency_tables v) i bt_empty)) (in_concurrency_tables v)\<rparr>"

lemma next_tables_simps [simp]:
  "in_snapshots (next_tables i r t v) = in_snapshots v" "in_incidents (next_tables i r t v) = in_incidents v"
  "in_instances (next_tables i r t v) = in_instances v" "in_journals (next_tables i r t v) = in_journals v"
  "in_fibers (next_tables i r t v) = in_fibers v" "in_join_counters (next_tables i r t v) = in_join_counters v"
  "in_revisions (next_tables i r t v) = bt_insert i r (in_revisions v)"
  by (simp_all add: next_tables_def)

lemma write_envelopeE:
  assumes "write_envelope x c False t inst v = Inr (r, u)" and "i = cl_instance_id c"
  obtains hash prior_hash where "r = cl_expected_revision c + 1" "i64_try_from (cl_expected_revision c) \<noteq> None"
    "state_hash x (instance_envelope i (next_tables i r t v) inst r) = Inr hash"
    "u = push_journal i (journal_record_new (commit_command x i r inst t) (cl_expected_revision c) r
         (pi_bytecode_version inst) prior_hash hash (tr_events t) (tr_effects t))
       ((next_tables i r t v)\<lparr>in_snapshots := bt_insert i (instance_envelope i (next_tables i r t v) inst r) (in_snapshots v)\<rparr>)"
proof -
  let ?r = "cl_expected_revision c + 1"
  have env: "snapshot_envelope_new CURRENT_ARTIFACT_ABI (pi_bytecode_version inst) ?r
      (persisted_new inst (fibers_of i (next_tables i ?r t v)) (join_counts_of i (next_tables i ?r t v)) (bt_or_default (in_incidents v) i [])
         (fold apply_concurrency_mutation (tr_concurrency_mutations t) (bt_or_default (in_concurrency_tables v) i bt_empty)) []) =
      instance_envelope i (next_tables i ?r t v) inst ?r"
    by (simp add: instance_envelope_def next_tables_def bt_or_default_def)
  have small: "i64_try_from n = Some p \<Longrightarrow> p = n" for n p by (simp add: i64_try_from_def split: if_splits)
  let ?e = "instance_envelope i (next_tables i ?r t v) inst ?r"
  from assms(1) obtain hash p ph where h: "state_hash x ?e = Inr hash" "i64_try_from (cl_expected_revision c) = Some p"
    "(r, u) = (?r, push_journal i (journal_record_new (commit_command x i ?r inst t) p ?r
         (pi_bytecode_version inst) ph hash (tr_events t) (tr_effects t))
       ((next_tables i ?r t v)\<lparr>in_snapshots := bt_insert i ?e (in_snapshots v)\<rparr>))"
    unfolding write_envelope_def Let_def if_False assms(2) [symmetric] next_tables_def [symmetric] next_tables_simps env hash_envelope_def
    by (elim try_resE) (rule that, simp only: map_err_Inr, simp only: ok_or_Inr, simp only: sum.inject, erule sym)
  then show ?thesis using small [OF h(2)] by (intro that [of hash ph]) auto
qed

lemma commit_stored:
  assumes st: "stored i w e" and "plain t" and i: "cl_instance_id c = i"
    and q: "pi_quarantine_state (tr_next_snapshot t) = pi_quarantine_state (ps_instance (se_state e))"
    and com: "commit_inner x h c t w = (Inr (Committed r), w')"
  obtains e' hash prior_hash where
    "e' = materialize_snapshot (se_state e) t CURRENT_ARTIFACT_ABI (se_revision e + 1)" "stored i w' e'"
    "r = se_revision e + 1" "i64_try_from (se_revision e) \<noteq> None" "state_hash x e' = Inr hash"
    "bt_or_default (in_journals w') i [] = bt_or_default (in_journals w) i [] @
      [journal_record_new (commit_command x i r (stored_instance x c t w) t) (se_revision e) r
         (pi_bytecode_version (tr_next_snapshot t)) prior_hash hash (tr_events t) (tr_effects t)]"
proof -
  let ?inst = "stored_instance x c t w"
  from com obtain v u where ok: "commit_checks c t w = Inr ()" and v: "write_tables x h c t ?inst w = Inr v"
    and u: "write_envelope x c (is_start c w) t ?inst v = Inr (r, u)" and w': "w' = finish_lease x h c ?inst r u"
    by (rule commit_innerE)
  from st obtain prior where prior: "bt_get (in_instances w) i = Some prior" "bt_get (in_revisions w) i = Some (se_revision e)"
    by (auto simp: stored_def)
  have start: "\<not> is_start c w" using prior i by (simp add: is_start_def bt_contains_def)
  have rev: "cl_expected_revision c = se_revision e"
    using ok start prior i by (auto simp: commit_checks_def check_claim_def refuse_def bt_or_default_def elim!: try_resE split: if_splits)
  note f = write_tables_fields [OF v \<open>plain t\<close> i [symmetric]]
  from u rev i start obtain hash prior_hash where r: "r = se_revision e + 1" and small: "i64_try_from (se_revision e) \<noteq> None"
    and hash: "state_hash x (instance_envelope i (next_tables i r t v) ?inst r) = Inr hash"
    and u': "u = push_journal i (journal_record_new (commit_command x i r ?inst t) (se_revision e) r
         (pi_bytecode_version ?inst) prior_hash hash (tr_events t) (tr_effects t))
       ((next_tables i r t v)\<lparr>in_snapshots := bt_insert i (instance_envelope i (next_tables i r t v) ?inst r) (in_snapshots v)\<rparr>)"
    by (auto elim!: write_envelopeE)
  let ?e = "instance_envelope i (next_tables i r t v) ?inst r"
  note m = materialize_stored [OF st v \<open>plain t\<close> i [symmetric] refl q, where w' = "next_tables i r t v"]
  have tab: "bt_or_default (in_concurrency_tables (next_tables i r t v)) i bt_empty =
      fold apply_concurrency_mutation (tr_concurrency_mutations t) (bt_or_default (in_concurrency_tables w) i bt_empty)"
    using f(5) by (simp add: next_tables_def bt_or_default_def)
  have e': "?e = materialize_snapshot (se_state e) t CURRENT_ARTIFACT_ABI (se_revision e + 1)"
    and wf: "fibers_wf (bt_slice i (in_fibers v))" "distinct (map inc_incident_id (bt_or_default (in_incidents v) i []))"
    using m tab r by simp_all
  have bv: "pi_bytecode_version ?inst = pi_bytecode_version (tr_next_snapshot t)"
    by (simp add: stored_instance_def Let_def split: option.splits)
  have c: "core w' = core u" using w' by (simp add: core_finish_lease)
  have "instance_envelope i w' ?inst r = ?e"
    using core_eqD [OF c] u' by (simp add: instance_envelope_def fibers_of_def join_counts_of_def push_journal_def)
  moreover have "se_revision ?e = r" by (simp add: instance_envelope_def snapshot_envelope_new_def)
  ultimately have "stored i w' ?e"
    using core_eqD [OF c] u' f(1) wf by (simp add: stored_def push_journal_def)
  moreover have "bt_or_default (in_journals w') i [] = bt_or_default (in_journals w) i [] @
      [journal_record_new (commit_command x i r ?inst t) (se_revision e) r
         (pi_bytecode_version (tr_next_snapshot t)) prior_hash hash (tr_events t) (tr_effects t)]"
    using core_eqD(8) [OF c] u' f(8) bv by (simp add: push_journal_def bt_or_default_def)
  ultimately show ?thesis using that e' r small hash by blast
qed

end
