(* ===== verification/StoreWrites.thy ===== *)
theory StoreWrites
  imports StoreLaws
begin

text \<open>
  The contract of the writes of a commit. A relation between states that is reflexive and
  transitive, and that every single write satisfies, relates the state before a commit to the
  state after it, whether the commit succeeds or fails half way. It is used with three relations:
  the rows of another instance are the same, the activations are the same, and the spent timers
  are the same.
\<close>

text \<open>The state a write leaves, whether it fails or not.\<close>

definition left_in :: "('e \<times> inner) + inner \<Rightarrow> inner" where
  "left_in r = (case r of Inl (_, w) \<Rightarrow> w | Inr w \<Rightarrow> w)"

lemma left_in_simps [simp]: "left_in (Inl (e, w)) = w" "left_in (Inr w) = w"
  by (simp_all add: left_in_def)

lemma envelope_errors:
  "try_res (map_err (\<lambda>err. (g err, v)) r) (\<lambda>h. try_res (if b then Inr a else ok_or p (k, v)) (\<lambda>p. Inr (f h p))) = Inl (e, u) \<Longrightarrow> u = v"
  by (cases r; cases p; cases b) simp_all

lemma commit_inner_writes:
  assumes "commit_checks c t w = Inr ()"
  shows "commit_inner x h c t w =
    (case try_res (write_tables x h c t (stored_instance x c t w) w) (write_envelope x c (is_start c w) t (stored_instance x c t w)) of
       Inl (e, w') \<Rightarrow> (Inl e, w')
     | Inr (r, w') \<Rightarrow> (Inr (Committed r), finish_lease x h c (stored_instance x c t w) r w'))"
  unfolding commit_inner_def assms Let_def sum.case unit.case by (rule refl)

lemma commit_refused_same:
  "commit_checks c t w = Inl e \<Longrightarrow> commit_inner x h c t w = (r, w') \<Longrightarrow> w' = w"
  by (cases e) (auto simp: commit_inner_def)

locale store_writes =
  fixes R :: "inner \<Rightarrow> inner \<Rightarrow> bool" and x :: ext and h :: host and c :: claim and t :: transition
  assumes same: "R w w" and trans: "R w v \<Longrightarrow> R v u \<Longrightarrow> R w u"
    and w_instance: "R w (write_instance c t inst w)"
    and w_fibers: "R w (write_fibers (cl_instance_id c) t w)"
    and w_join: "R w (write_join (cl_instance_id c) jn w)"
    and w_enqueue: "R w (enqueue_job job w)"
    and w_remove: "R w (remove_job key w)"
    and w_job: "R w (left_in (write_job h jm w))"
    and w_cleanup: "R w (write_cleanup (cl_instance_id c) tc w)"
    and w_dedupe: "R w (w\<lparr>in_dedupe := dd\<rparr>)"
    and w_incident: "R w (write_incident (cl_instance_id c) inc w)"
    and w_message: "R w (write_message bm w)"
    and w_outbox: "R w (write_outbox ob w)"
    and w_effect: "R w (left_in (write_effect c d w))"
    and w_effect_mutation: "R w (left_in (write_effect_mutation c em w))"
    and w_timer: "tm \<in> set (tr_timer_mutations t) \<Longrightarrow> R w (write_timer (cl_instance_id c) tm w)"
    and w_child: "ch \<in> set (tr_child_starts t) \<Longrightarrow> R w (left_in (write_child x ch w))"
    and w_event: "R w (append_event (cl_instance_id c) ev w)"
    and w_tables: "R w (next_tables (cl_instance_id c) n t w)"
    and w_snapshot: "R w (w\<lparr>in_snapshots := bt_insert (cl_instance_id c) e (in_snapshots w)\<rparr>)"
    and w_journal: "R w (push_journal (cl_instance_id c) rc w)"
begin

lemma try_keeps:
  assumes "R w (left_in r)" and "\<And>v. r = Inr v \<Longrightarrow> R v (left_in (f v))"
  shows "R w (left_in (try_res r f))"
proof (cases r)
  case (Inl p)
  with assms(1) show ?thesis by (cases p) simp
next
  case (Inr v)
  with assms trans show ?thesis by fastforce
qed

lemma fold_res_keeps:
  assumes "\<And>a v. a \<in> set as \<Longrightarrow> R v (left_in (f a v))"
  shows "R w (left_in (fold_res f as w))"
  using assms
proof (induction as arbitrary: w)
  case (Cons a as)
  show ?case unfolding fold_res.simps by (rule try_keeps) (use Cons in auto)
qed (simp add: same)

lemma fold_keeps:
  assumes "\<And>a v. a \<in> set as \<Longrightarrow> R v (f a v)"
  shows "R w (fold f as w)"
  using assms
proof (induction as arbitrary: w)
  case (Cons a as)
  have "R (f a w) (fold f as (f a w))" by (rule Cons.IH) (use Cons.prems in simp)
  with Cons.prems trans show ?case by fastforce
qed (simp add: same)

lemma write_tables_keeps: "R w (left_in (write_tables x h c t inst w))"
proof -
  let ?i = "cl_instance_id c"
  note step = trans [OF _ fold_keeps]
  have a: "R w (fold remove_job (tr_jobs_ack t) (fold enqueue_job (tr_jobs_enqueue t)
      (fold (write_join ?i) (tr_join_mutations t) (write_fibers ?i t (write_instance c t inst w)))))"
    by (rule step, rule step, rule step, rule trans, rule w_instance, rule w_fibers) (rule w_join w_enqueue w_remove)+
  have b: "R v (fold write_outbox (tr_outbox t) (fold write_message (tr_buffered_messages t)
      (fold (write_incident ?i) (tr_incidents t) (fold (\<lambda>d w. w\<lparr>in_dedupe := bt_insert (dw_key d) (dw_completion d, h_instant h) (in_dedupe w)\<rparr>)
        (tr_dedupe t) (write_cleanup ?i (tr_terminal_cleanup t) v)))))" for v
    by (rule step, rule step, rule step, rule step, rule w_cleanup) (rule w_dedupe w_incident w_message w_outbox)+
  show ?thesis
    unfolding write_tables_def Let_def
    by (rule try_keeps, rule trans [OF a fold_res_keeps [OF w_job]], rule try_keeps, rule trans [OF b fold_res_keeps [OF w_effect]],
        rule try_keeps, rule fold_res_keeps [OF w_effect_mutation], rule try_keeps,
        rule trans [OF fold_keeps [OF w_timer] fold_res_keeps [OF w_child]]) (simp_all add: fold_keeps w_event)
qed

lemma write_envelope_keeps:
  shows "write_envelope x c start t inst v = Inl (er, u) \<Longrightarrow> R v u"
    and "write_envelope x c start t inst v = Inr (r, u) \<Longrightarrow> R v u"
proof -
  let ?i = "cl_instance_id c"
  have s: "R v (push_journal ?i rc ((next_tables ?i n t v)\<lparr>in_snapshots := bt_insert ?i e (in_snapshots v)\<rparr>))" for n rc e
    using trans [OF w_tables trans [OF w_snapshot w_journal]] by (simp add: next_tables_simps)
  show "write_envelope x c start t inst v = Inl (er, u) \<Longrightarrow> R v u"
    unfolding write_envelope_def Let_def next_tables_def [symmetric] next_tables_simps hash_envelope_def
    by (drule envelope_errors) (simp only: w_tables)
  show "write_envelope x c start t inst v = Inr (r, u) \<Longrightarrow> R v u"
    unfolding write_envelope_def Let_def next_tables_def [symmetric] next_tables_simps hash_envelope_def
    by (elim try_resE) (simp only: sum.inject prod.inject, elim conjE, hypsubst, rule s)
qed

lemma commit_keeps:
  assumes "commit_inner x h c t w = (r, w')"
  obtains u where "R w u" and "w' = u \<or> (\<exists>inst n. w' = finish_lease x h c inst n u)"
proof (cases "commit_checks c t w")
  case (Inl e)
  from commit_refused_same [OF this assms] have "w' = w" .
  with that same show ?thesis by blast
next
  case (Inr unt)
  then have "commit_checks c t w = Inr ()" by simp
  note com = assms [unfolded commit_inner_writes [OF this]]
  define inst where "inst = stored_instance x c t w"
  note com = com [folded inst_def]
  note tables = write_tables_keeps [of w inst]
  show ?thesis
  proof (cases "write_tables x h c t inst w")
    case (Inl p)
    with tables com that show ?thesis by (cases p) simp
  next
    case (Inr v)
    with tables have v: "R w v" by simp
    show ?thesis
    proof (cases "write_envelope x c (is_start c w) t inst v")
      case (Inl p)
      then obtain er u where p: "write_envelope x c (is_start c w) t inst v = Inl (er, u)" by (cases p) auto
      with com Inr have "w' = u" by simp
      with that trans [OF v write_envelope_keeps(1) [OF p]] show ?thesis by blast
    next
      case e: (Inr p)
      then obtain n u where p: "write_envelope x c (is_start c w) t inst v = Inr (n, u)" by (cases p) auto
      with com Inr have "w' = finish_lease x h c inst n u" by simp
      with that trans [OF v write_envelope_keeps(2) [OF p]] show ?thesis by blast
    qed
  qed
qed

end

section \<open>Activations\<close>

text \<open>No write of a commit touches the activations; the commit adds one when it keeps its lease.\<close>

abbreviation same_activations :: "inner \<Rightarrow> inner \<Rightarrow> bool" where
  "same_activations w v \<equiv> in_activations v = in_activations w"

lemma activations_job: "same_activations w (left_in (write_job h jm w))"
  by (cases jm) (auto simp: take_claimed_def remove_job_def remove_queued_def Let_def split: option.splits if_splits)

lemma activations_simple:
  "same_activations w (write_join i jn w)" "same_activations w (write_message bm w)" "same_activations w (write_outbox ob w)"
  "same_activations w (left_in (write_effect c d w))" "same_activations w (left_in (write_effect_mutation c em w))"
  "same_activations w (write_timer i tm w)"
  subgoal by (cases jn) simp_all
  subgoal by (cases bm) (simp_all add: Let_def)
  subgoal by (cases ob) simp
  subgoal by (cases d) (auto simp: Let_def split: option.splits)
  subgoal by (cases em) (auto split: option.splits)
  subgoal by (cases tm) (simp_all add: update_timer_def cancel_race_timers_def split: option.splits)
  done

lemma activations_child: "same_activations w (left_in (write_child x ch w))"
  by (cases ch) (auto simp: hash_envelope_def append_event_def push_journal_def Let_def map_err_def split: sum.splits)

interpretation activation_writes: store_writes same_activations x h c t for x h c t
  by unfold_locales
     (simp_all add: activations_job activations_simple activations_child write_instance_def write_fibers_def enqueue_job_def
        remove_job_def remove_queued_def write_cleanup_def write_incident_def append_event_def next_tables_def push_journal_def Let_def)

end
