(* ===== verification/StoreFrame.thy ===== *)
theory StoreFrame
  imports StoreWrites
begin

text \<open>
  What the other operations of the store leave alone. \<open>untouched\<close> compares the rows of one
  instance before and after: no queue, timer, effect, activation or lease operation changes
  them, nor does a commit of another instance, whether it succeeds or fails half-way.
\<close>

section \<open>Operations that leave an instance alone\<close>

definition untouched :: "uuid \<Rightarrow> inner \<Rightarrow> inner \<Rightarrow> bool" where
  "untouched i w w' \<longleftrightarrow>
     bt_get (in_instances w') i = bt_get (in_instances w) i
     \<and> bt_slice i (in_fibers w') = bt_slice i (in_fibers w)
     \<and> bt_slice i (in_join_counters w') = bt_slice i (in_join_counters w)
     \<and> bt_get (in_incidents w') i = bt_get (in_incidents w) i
     \<and> bt_get (in_concurrency_tables w') i = bt_get (in_concurrency_tables w) i
     \<and> bt_get (in_revisions w') i = bt_get (in_revisions w) i
     \<and> bt_get (in_snapshots w') i = bt_get (in_snapshots w) i
     \<and> bt_get (in_journals w') i = bt_get (in_journals w) i"

lemma untouched_refl [simp]: "untouched i w w"
  by (simp add: untouched_def)

lemma untouched_trans: "untouched i w v \<Longrightarrow> untouched i v u \<Longrightarrow> untouched i w u"
  by (simp add: untouched_def)

lemma core_untouched: "core w' = core w \<Longrightarrow> untouched i w w'"
  by (simp add: untouched_def core_def)

lemma stored_untouched:
  assumes "stored i w e" and "untouched i w w'"
  shows "stored i w' e"
proof -
  from assms obtain inst where inst: "bt_get (in_instances w) i = Some inst" "e = instance_envelope i w inst (se_revision e)"
    and wf: "fibers_wf (bt_slice i (in_fibers w))" by (auto simp: stored_def)
  have "instance_envelope i w' inst r = instance_envelope i w inst r" for r
    using assms(2) wf key_fibers_slice [of i w] key_fibers_slice [of i w']
    by (simp add: instance_envelope_def untouched_def join_counts_slice persisted_new_def bt_or_default_def)
  with assms inst show ?thesis by (simp add: stored_def untouched_def bt_or_default_def)
qed

subsection \<open>Queues\<close>

lemma dequeue_loop_core:
  "dequeue_loop x h ts n tenant worker ex queue result remaining w = (r, w') \<Longrightarrow> core w' = core w"
proof (induction queue arbitrary: result remaining w)
  case (Cons job queue)
  have "core (w\<lparr>in_inflight_jobs := m\<rparr>) = core w" for m by (simp add: core_def)
  then show ?case using Cons.prems Cons.IH by (auto simp: Let_def split: if_splits)
qed (auto simp: core_def)

lemma reclaim_core: "core (reclaim_job k w) = core w"
  by (auto simp: reclaim_job_def core_def append_event_def Let_def split: option.splits)

lemma expire_core: "core (expire_message k w) = core w"
  by (auto simp: expire_message_def core_def append_event_def Let_def split: option.splits)

lemma claim_each_core:
  assumes "\<And>k u w cs w'. f k u w = (cs, w') \<Longrightarrow> core w' = core w"
  shows "claim_each f fresh n ks w = (cs, w') \<Longrightarrow> core w' = core w"
proof (induction ks arbitrary: n w cs)
  case (Cons k ks)
  then show ?case using assms by (fastforce split: prod.splits)
qed simp

lemma claim_activations_core:
  "claim_activations x h owner n ex is result batch w = (r, w') \<Longrightarrow> core w' = core w"
proof (induction "is" arbitrary: result batch w)
  case (Cons i "is")
  have "core (w\<lparr>in_activations := m\<rparr>) = core w" for m by (simp add: core_def)
  then show ?case using Cons.prems Cons.IH by (auto simp: Let_def split: if_splits option.splits)
qed simp

lemma queue_core:
  "dequeue_jobs x h ts n tenant worker ms w = (js, w') \<Longrightarrow> core w' = core w"
  "reclaim_stale_jobs h w = (k, w') \<Longrightarrow> core w' = core w"
  "core (dead_letter_put nm v p ttl w) = core w"
  "dead_letter_take nm v w = (bs, w') \<Longrightarrow> core w' = core w"
  "claim_buffered_message x h tenant mn ck ms w = (cm, w') \<Longrightarrow> core w' = core w"
  "reclaim_stale_buffered_message_claims h w = (k, w') \<Longrightarrow> core w' = core w"
  "prune_expired_messages h w = (k, w') \<Longrightarrow> core w' = core w"
  "prune_dedupe_cache h ms w = (k, w') \<Longrightarrow> core w' = core w"
  subgoal by (simp add: dequeue_jobs_def dequeue_loop_core)
  subgoal using fold_keep [where g = core and f = reclaim_job, OF reclaim_core] by (auto simp: reclaim_stale_jobs_def Let_def)
  subgoal by (simp add: dead_letter_put_def core_def)
  subgoal by (auto simp: dead_letter_take_def core_def)
  subgoal by (auto simp: claim_buffered_message_def core_def Let_def split: option.splits)
  subgoal by (auto simp: reclaim_stale_buffered_message_claims_def core_def Let_def)
  subgoal using fold_keep [where g = core and f = expire_message, OF expire_core] by (auto simp: prune_expired_messages_def Let_def)
  subgoal by (auto simp: prune_dedupe_cache_def core_def Let_def)
  done

lemma timer_core:
  "claim_timer_row owner until k u w = (cs, w') \<Longrightarrow> core w' = core w"
  "claim_effect_row owner until k u w = (ds, w') \<Longrightarrow> core w' = core w"
  "core (update_timer k f w) = core w" "core (put_effect ce me w) = core w"
  by (auto simp: claim_timer_row_def claim_effect_row_def update_timer_def put_effect_def core_def split: option.splits)

lemma effect_core:
  "claim_due_timers h tenant owner now n ms w = (cs, w') \<Longrightarrow> core w' = core w"
  "core (release_timer_claim ct w) = core w"
  "claim_pending_effects h tenant owner now n ms w = (ds, w') \<Longrightarrow> core w' = core w"
  "record_effect_response ce rsp w = (b, w') \<Longrightarrow> core w' = core w"
  "core (release_effect_claim ce w) = core w"
  "schedule_effect_retry ce dec w = (se, w') \<Longrightarrow> core w' = core w"
  subgoal unfolding claim_due_timers_def Let_def by (rule claim_each_core [OF timer_core(1)])
  subgoal by (simp add: release_timer_claim_def timer_core)
  subgoal unfolding claim_pending_effects_def Let_def by (rule claim_each_core [OF timer_core(2)])
  subgoal by (auto simp: record_effect_response_def timer_core split: option.splits if_splits)
  subgoal by (auto simp: release_effect_claim_def timer_core split: option.splits)
  subgoal by (auto simp: schedule_effect_retry_def timer_core Let_def split: option.splits if_splits)
  done

lemma activation_core:
  "core (update_claimed ca f w) = core w"
  "enqueue_activation_locked h tenant j cid kind cmd at w = (b, w') \<Longrightarrow> core w' = core w"
  "claim_ready_activations x h tenant owner n ms w = (cas, w') \<Longrightarrow> core w' = core w"
  "renew_activation_claim h ca ms w = (rn, w') \<Longrightarrow> core w' = core w"
  "core (release_activation_to_ready h ca nb w) = core w"
  "consume_activation ca w = (b, w') \<Longrightarrow> core w' = core w"
  "core (dead_letter_activation ca w) = core w"
  "reclaim_expired_activations h w = (k, w') \<Longrightarrow> core w' = core w"
proof -
  show u: "core (update_claimed ca f w) = core w" for ca f w
    by (simp add: update_claimed_def core_def split: option.splits)
  show "core (release_activation_to_ready h ca nb w) = core w" "core (dead_letter_activation ca w) = core w"
    by (simp_all add: release_activation_to_ready_def dead_letter_activation_def u)
  show "renew_activation_claim h ca ms w = (rn, w') \<Longrightarrow> core w' = core w"
    by (auto simp: renew_activation_claim_def u split: option.splits if_splits)
  show "enqueue_activation_locked h tenant j cid kind cmd at w = (b, w') \<Longrightarrow> core w' = core w"
    by (auto simp: enqueue_activation_locked_def core_def Let_def split: if_splits)
  show "claim_ready_activations x h tenant owner n ms w = (cas, w') \<Longrightarrow> core w' = core w"
    by (simp add: claim_ready_activations_def Let_def claim_activations_core)
  show "consume_activation ca w = (b, w') \<Longrightarrow> core w' = core w"
    by (auto simp: consume_activation_def core_def split: option.splits if_splits)
  show "reclaim_expired_activations h w = (k, w') \<Longrightarrow> core w' = core w"
    by (auto simp: reclaim_expired_activations_def core_def Let_def)
qed

subsection \<open>Commits of other instances\<close>

lemma write_res_core:
  "core (left_in (write_job h jm w)) = core w"
  "core (left_in (write_effect c d w)) = core w"
  "core (left_in (write_effect_mutation c em w)) = core w"
  subgoal by (cases jm) (auto simp: take_claimed_def core_def remove_job_def remove_queued_def Let_def
      split: option.splits if_splits)
  subgoal by (cases d) (auto simp: core_def Let_def split: option.splits)
  subgoal by (cases em) (auto simp: core_def split: option.splits)
  done

lemma write_other:
  assumes "j \<noteq> i"
  shows "untouched i w (write_fibers j t w)" "untouched i w (write_join j jn w)"
    "untouched i w (write_cleanup j tc w)" "untouched i w (write_incident j inc w)"
    "untouched i w (push_journal j rc w)" "cl_instance_id c = j \<Longrightarrow> untouched i w (write_instance c t inst w)"
proof -
  have ins: "bt_slice i (fold (\<lambda>f. bt_insert (j, fb_id f) f) fs m) = bt_slice i m" for fs m
    using assms by (induction fs arbitrary: m) (simp_all add: bt_slice_other)
  have rem: "bt_slice i (fold (\<lambda>k. bt_remove (j, k)) ks m) = bt_slice i m" for ks and m :: "(uuid \<times> uuid, fiber) btree"
    using assms by (induction ks arbitrary: m) (simp_all add: bt_slice_other)
  show "untouched i w (write_fibers j t w)" by (simp add: untouched_def write_fibers_def ins rem)
  show "untouched i w (write_join j jn w)"
    using assms by (cases jn) (simp_all add: untouched_def bt_slice_other)
  show "untouched i w (write_cleanup j tc w)" "untouched i w (write_incident j inc w)"
    "untouched i w (push_journal j rc w)" "cl_instance_id c = j \<Longrightarrow> untouched i w (write_instance c t inst w)"
    using assms by (simp_all add: untouched_def write_cleanup_def write_incident_def push_journal_def write_instance_def
        Let_def bt_slice_other bt_get_insert)
qed

lemma write_child_other:
  assumes "pi_instance_id inst \<noteq> i"
  shows "untouched i w (left_in (write_child x (ChildStart inst f ev k) w))"
  using assms
  by (auto simp: untouched_def hash_envelope_def append_event_def push_journal_def Let_def bt_slice_other bt_get_insert map_err_def
      split: sum.splits)

fun child_id :: "child_start \<Rightarrow> uuid" where
  "child_id (ChildStart inst _ _ _) = pi_instance_id inst"

lemma other_writes:
  assumes "cl_instance_id c \<noteq> i" and "i \<notin> child_id ` set (tr_child_starts t)"
  shows "store_writes (untouched i) x h c t"
proof unfold_locales
  note keep = write_other [OF assms(1)]
  fix w v u inst jn job key jm tc dd inc bm ob d em tm ch ev n e rc
  show "untouched i w w" by simp
  show "untouched i w v \<Longrightarrow> untouched i v u \<Longrightarrow> untouched i w u" by (rule untouched_trans)
  show "untouched i w (write_instance c t inst w)" "untouched i w (write_fibers (cl_instance_id c) t w)"
    "untouched i w (write_join (cl_instance_id c) jn w)" "untouched i w (write_cleanup (cl_instance_id c) tc w)"
    "untouched i w (write_incident (cl_instance_id c) inc w)" "untouched i w (push_journal (cl_instance_id c) rc w)"
    by (rule keep keep(6) [OF refl])+
  show "untouched i w (left_in (write_child x ch w))" if "ch \<in> set (tr_child_starts t)"
    by (cases ch) (use that assms(2) in \<open>auto intro!: write_child_other simp: image_iff simp del: write_child.simps\<close>)
  show "untouched i w (next_tables (cl_instance_id c) n t w)" "untouched i w (w\<lparr>in_snapshots := bt_insert (cl_instance_id c) e (in_snapshots w)\<rparr>)"
    using assms(1) by (simp_all add: untouched_def next_tables_def bt_get_insert)
qed (rule core_untouched, rule core_keep write_res_core)+

lemma commit_other:
  assumes "cl_instance_id c \<noteq> i" and "i \<notin> child_id ` set (tr_child_starts t)" and "commit_inner x h c t w = (r, w')"
  shows "untouched i w w'"
proof (rule store_writes.commit_keeps [OF other_writes [OF assms(1,2)] assms(3)])
  fix u assume "untouched i w u" and "w' = u \<or> (\<exists>inst n. w' = finish_lease x h c inst n u)"
  then show ?thesis by (auto intro: untouched_trans core_untouched core_finish_lease)
qed

subsection \<open>Leases\<close>

lemma grant_core: "grant_lease x h tenant j owner ms w = (r, w') \<Longrightarrow> core w' = core w"
  by (auto simp: grant_lease_def Let_def core_def split: option.splits if_splits prod.splits)

lemma release_core: "core (release_instance_transition tenant j token w) = core w"
  by (simp add: release_instance_transition_def core_def split: option.splits)

lemma claim_other:
  assumes "j \<noteq> i \<or> (\<forall>inst. bt_get (in_instances w) i = Some inst \<longrightarrow> check_heads x (pi_tenant_id inst) i inst w = Inr ())"
    and "claim_instance_for_transition x h tenant j owner ms w = (r, w')"
  shows "untouched i w w'"
proof (cases "bt_get (in_instances w) j")
  case None
  with assms(2) show ?thesis by (simp add: claim_instance_for_transition_def)
next
  case (Some inst)
  note com = assms(2) [unfolded claim_instance_for_transition_def Some option.case]
  show ?thesis
  proof (cases "pi_tenant_id inst \<noteq> tenant")
    case True
    with com show ?thesis by simp
  next
    case False
    show ?thesis
    proof (cases "check_heads x tenant j inst w")
      case (Inl reason)
      with False Some assms(1) have "j \<noteq> i" by auto
      with com False Inl show ?thesis by (auto simp: untouched_def bt_get_insert)
    next
      case (Inr u)
      then have ok: "check_heads x tenant j inst w = Inr ()" by simp
      from False have t: "(pi_tenant_id inst \<noteq> tenant) = False" by simp
      from com [unfolded t ok if_False sum.case unit.case] show ?thesis by (rule core_untouched [OF grant_core])
    qed
  qed
qed

end
