(* ===== verification/StoreRuns.thy ===== *)
theory StoreRuns
  imports StoreFrame KernelTheorems
begin

text \<open>
  Runs of the store. Between the commits of an instance, any other call may happen. \<open>tracked\<close> is the
  invariant of such a run: the stored snapshot is what the tables hold, the journal since the
  start is the journal of a run of the kernel that ends in this snapshot, and the head of the
  journal agrees with it, which is what the store checks before it grants a lease.
\<close>

section \<open>Calls that do not commit to an instance\<close>

inductive store_op :: "ext \<Rightarrow> uuid \<Rightarrow> inner \<Rightarrow> inner \<Rightarrow> bool" for x i where
  commit_elsewhere: "cl_instance_id c \<noteq> i \<Longrightarrow> i \<notin> child_id ` set (tr_child_starts t) \<Longrightarrow>
     commit_inner x h c t w = (r, w') \<Longrightarrow> store_op x i w w'"
| commit_refused: "commit_checks c t w = Inl e \<Longrightarrow> commit_inner x h c t w = (r, w') \<Longrightarrow> store_op x i w w'"
| claim: "claim_instance_for_transition x h tenant j owner ms w = (c, w') \<Longrightarrow> store_op x i w w'"
| release: "store_op x i w (release_instance_transition tenant j token w)"
| dequeue: "dequeue_jobs x h ts n tenant worker ms w = (js, w') \<Longrightarrow> store_op x i w w'"
| reclaim_jobs: "reclaim_stale_jobs h w = (k, w') \<Longrightarrow> store_op x i w w'"
| put_dead_letter: "store_op x i w (dead_letter_put name v payload ttl w)"
| take_dead_letter: "dead_letter_take name v w = (payload', w') \<Longrightarrow> store_op x i w w'"
| claim_message: "claim_buffered_message x h tenant name' key ms w = (cm, w') \<Longrightarrow> store_op x i w w'"
| reclaim_messages: "reclaim_stale_buffered_message_claims h w = (k, w') \<Longrightarrow> store_op x i w w'"
| prune_messages: "prune_expired_messages h w = (k, w') \<Longrightarrow> store_op x i w w'"
| prune_dedupe: "prune_dedupe_cache h ms w = (k, w') \<Longrightarrow> store_op x i w w'"
| claim_timers: "claim_due_timers h tenant owner now n ms w = (ts', w') \<Longrightarrow> store_op x i w w'"
| release_timer: "store_op x i w (release_timer_claim ct w)"
| claim_effects: "claim_pending_effects h tenant owner now n ms w = (es, w') \<Longrightarrow> store_op x i w w'"
| respond: "record_effect_response ce rsp w = (b, w') \<Longrightarrow> store_op x i w w'"
| release_effect: "store_op x i w (release_effect_claim ce w)"
| retry_effect: "schedule_effect_retry ce d w = (u, w') \<Longrightarrow> store_op x i w w'"
| enqueue: "enqueue_activation_locked h tenant j cid kind cmd at w = (b, w') \<Longrightarrow> store_op x i w w'"
| claim_ready: "claim_ready_activations x h tenant owner n ms w = (cas, w') \<Longrightarrow> store_op x i w w'"
| renew: "renew_activation_claim h ca ms w = (rn, w') \<Longrightarrow> store_op x i w w'"
| release_activation: "store_op x i w (release_activation_to_ready h ca nb w)"
| consume: "consume_activation ca w = (b, w') \<Longrightarrow> store_op x i w w'"
| bury: "store_op x i w (dead_letter_activation ca w)"
| reclaim_activations: "reclaim_expired_activations h w = (k, w') \<Longrightarrow> store_op x i w w'"

definition heads_agree :: "ext \<Rightarrow> uuid \<Rightarrow> inner \<Rightarrow> bool" where
  "heads_agree x i w \<longleftrightarrow>
     (\<forall>inst. bt_get (in_instances w) i = Some inst \<longrightarrow> check_heads x (pi_tenant_id inst) i inst w = Inr ())"

lemma store_op_untouched:
  assumes "store_op x i w w'" and "heads_agree x i w"
  shows "untouched i w w'"
  using assms
proof (induction rule: store_op.induct)
  case (commit_elsewhere c t h w r w')
  then show ?case by (blast intro: commit_other)
next
  case (commit_refused c t w e h r w')
  then show ?case using commit_refused_same by fastforce
next
  case (claim h tenant j owner ms w c w')
  then show ?case using claim_other unfolding heads_agree_def by blast
qed (rule core_untouched, (erule queue_core effect_core activation_core | rule release_core queue_core effect_core activation_core))+

lemma heads_untouched:
  assumes "untouched i w w'" and "heads_agree x i w"
  shows "heads_agree x i w'"
  using assms by (simp add: heads_agree_def check_heads_def untouched_def bt_or_default_def Let_def)

section \<open>Runs of the store\<close>

text \<open>
  A run of the store as one instance sees it: any calls that do not commit to it, and commits of
  kernel transitions computed from the stored snapshot (\<open>claim_transition_work\<close> hands out its
  \<open>to_runtime_snapshot\<close>). The list collects the records that the journal of the instance gains.
\<close>

inductive store_run ::
  "ext \<Rightarrow> executable_workflow \<Rightarrow> uuid \<Rightarrow> memory_store \<Rightarrow> journal_record list \<Rightarrow> memory_store \<Rightarrow> bool"
  for x wk i where
  none: "store_run x wk i m [] m"
| other: "store_run x wk i m rcs m' \<Longrightarrow> store_op x i (ms_inner m') (ms_inner m'') \<Longrightarrow> store_run x wk i m rcs m''"
| committed: "store_run x wk i m rcs m' \<Longrightarrow> bt_get (in_snapshots (ms_inner m')) i = Some e \<Longrightarrow>
     apply_command x wk (to_runtime_snapshot (se_state e)) cmd cx = Inr t \<Longrightarrow> cx_next_revision cx = se_revision e + 1 \<Longrightarrow>
     cl_instance_id c = i \<Longrightarrow> commit_transition x h c t m' = (Inr (Committed r), m'') \<Longrightarrow>
     bt_get (in_journals (ms_inner m'')) i = Some (js @ [rc]) \<Longrightarrow> store_run x wk i m (rcs @ [rc]) m''"

lemma commit_transition_inner:
  assumes "commit_transition x h c t m = (Inr out, m')"
  shows "commit_inner x h c t (ms_inner m) = (Inr out, ms_inner m')"
  using assms by (auto simp: commit_transition_def split: sum.splits prod.splits)

lemma u64_try_from_small: "unat n < 2 ^ 63 \<Longrightarrow> u64_try_from n = Some n"
proof -
  assume "unat n < 2 ^ 63"
  then have "int (unat n) < int (2 ^ 63)" by (simp only: of_nat_less_iff)
  then have lt: "uint n < 2 ^ 63" by simp
  have "signed_take_bit 63 (uint n) = uint n"
    by (rule signed_take_bit_int_eq_self) (use lt uint_ge_0 [of n] in linarith)+
  then have "sint n = uint n" by (simp add: sint_uint)
  then show ?thesis by (simp add: u64_try_from_def)
qed

lemma runs_snoc:
  "runs x w e rcs e' \<Longrightarrow> kernel_step x w e' cmd cx e'' \<Longrightarrow> recorded x w e' cmd cx e'' rc \<Longrightarrow> runs x w e (rcs @ [rc]) e''"
  unfolding runs_append by (blast intro: runs.more runs.none)

definition tracked :: "ext \<Rightarrow> executable_workflow \<Rightarrow> uuid \<Rightarrow> snapshot_envelope \<Rightarrow> journal_record list \<Rightarrow> journal_record list \<Rightarrow> inner \<Rightarrow> bool" where
  "tracked x wk i e0 js rcs w \<longleftrightarrow>
     (\<exists>e. stored i w e \<and> runs x wk e0 rcs e \<and> pi_bytecode_version (ps_instance (se_state e)) = wf_hash wk
        \<and> pi_instance_id (ps_instance (se_state e)) = i)
     \<and> heads_agree x i w \<and> bt_or_default (in_journals w) i [] = js @ rcs"

lemma tracked_commit:
  assumes tr: "tracked x wk i e0 js rcs w" and e: "bt_get (in_snapshots w) i = Some e"
    and t: "apply_command x wk (to_runtime_snapshot (se_state e)) cmd cx = Inr t" and cx: "cx_next_revision cx = se_revision e + 1"
    and c: "cl_instance_id c = i" and com: "commit_inner x h c t w = (Inr (Committed r), w')"
    and abi: "ae_abi_version (wf_envelope wk) = CURRENT_ARTIFACT_ABI"
    and j: "bt_get (in_journals w') i = Some (js' @ [rc])"
  shows "tracked x wk i e0 js (rcs @ [rc]) w'"
proof -
  from tr e have st: "stored i w e" and run: "runs x wk e0 rcs e"
    and bv: "pi_bytecode_version (ps_instance (se_state e)) = wf_hash wk" and ii: "pi_instance_id (ps_instance (se_state e)) = i"
    and js: "bt_or_default (in_journals w) i [] = js @ rcs"
    by (auto simp: tracked_def stored_def)
  from t obtain t' where d: "dispatch x wk (to_runtime_snapshot (se_state e)) cmd cx = Inr t'"
    and t': "t = with_command_envelope (command_envelope_new (cx_command_id cx) (cx_logical_time cx) (JC_Kernel cmd)) t'"
    and time: "unat (cx_logical_time cx) < 2 ^ 63"
    by (elim apply_commandE) blast
  have q: "quiet t" using dispatch_quiet [OF d] t' by simp
  have id: "identity (tr_next_snapshot t) = identity (ps_instance (se_state e))"
    using dispatch_identity [OF d] t' by (simp add: to_runtime_snapshot_def with_command_envelope_def)
  then have quar: "pi_quarantine_state (tr_next_snapshot t) = pi_quarantine_state (ps_instance (se_state e))"
    by (simp add: identity_def)
  from commit_stored [OF st quiet_plain [OF q] c quar com] obtain e' hash ph where
    e': "e' = materialize_snapshot (se_state e) t CURRENT_ARTIFACT_ABI (se_revision e + 1)" and st': "stored i w' e'"
    and r: "r = se_revision e + 1" and small: "i64_try_from (se_revision e) \<noteq> None" and hash: "state_hash x e' = Inr hash"
    and jr: "bt_or_default (in_journals w') i [] = bt_or_default (in_journals w) i [] @
      [journal_record_new (commit_command x i r (stored_instance x c t w) t) (se_revision e) r
         (pi_bytecode_version (tr_next_snapshot t)) ph hash (tr_events t) (tr_effects t)]" .
  have rc: "rc = journal_record_new (commit_command x i r (stored_instance x c t w) t) (se_revision e) r
         (pi_bytecode_version (tr_next_snapshot t)) ph hash (tr_events t) (tr_effects t)" and js': "js' = js @ rcs"
    using jr j js by (simp_all add: bt_or_default_def)
  have step: "kernel_step x wk e cmd cx e'"
    unfolding e' abi [symmetric] by (rule kernel_step.step [OF t _ cx]) (use small in \<open>simp add: i64_try_from_def split: if_splits\<close>)
  have ce: "commit_command x i r inst t = command_envelope_new (cx_command_id cx) (cx_logical_time cx) (JC_Kernel cmd)" for inst r
    using t' by (simp add: commit_command_def with_command_envelope_def)
  have bv': "pi_bytecode_version (tr_next_snapshot t) = wf_hash wk" "pi_instance_id (tr_next_snapshot t) = i"
    using id bv ii by (simp_all add: identity_def)
  have rev': "se_revision e' = se_revision e + 1" by (simp add: e' materialize_header)
  have ps: "pi_bytecode_version (ps_instance (se_state e')) = wf_hash wk" "pi_instance_id (ps_instance (se_state e')) = i"
    using bv' by (simp_all add: e' materialize_snapshot_def Let_def snapshot_envelope_new_def persisted_new_def split: option.splits)
  have u64: "u64_try_from (cx_logical_time cx) = Some (cx_logical_time cx)"
    using time by (rule u64_try_from_small)
  have rec: "recorded x wk e cmd cx e' rc"
    using hash bv' u64 r rev' by (simp add: recorded_def rc ce journal_record_new_def command_envelope_new_def)
  have "heads_agree x i w'"
  proof -
    from st' obtain inst where inst: "bt_get (in_instances w') i = Some inst" and env: "e' = instance_envelope i w' inst (se_revision e')"
      and snap: "bt_get (in_snapshots w') i = Some e'" "bt_get (in_revisions w') i = Some (se_revision e')"
      by (auto simp: stored_def)
    have "ps_instance (se_state e') = inst\<lparr>pi_integrity_hash := None\<rparr>"
      by (subst env) (simp add: instance_envelope_def snapshot_envelope_new_def persisted_new_def)
    with inst snap ps j rc r rev' hash bv' show ?thesis
      by (simp add: heads_agree_def check_heads_def bt_or_default_def Let_def vec_last_def journal_record_new_def)
  qed
  with st' runs_snoc [OF run step rec] ps jr rc js show ?thesis unfolding tracked_def by auto
qed

section \<open>Starting an instance\<close>

text \<open>A store that holds no row of an instance, as before its start.\<close>

definition no_rows :: "uuid \<Rightarrow> inner \<Rightarrow> bool" where
  "no_rows i w \<longleftrightarrow> bt_get (in_instances w) i = None \<and> bt_slice i (in_fibers w) = bt_empty
     \<and> bt_slice i (in_join_counters w) = bt_empty \<and> bt_get (in_incidents w) i = None
     \<and> bt_get (in_concurrency_tables w) i = None \<and> bt_get (in_journals w) i = None"

lemma write_envelope_startE:
  assumes "write_envelope x c True t inst v = Inr (r, u)" and "i = cl_instance_id c"
  obtains hash prior_hash where "r = 0"
    "state_hash x (instance_envelope i (next_tables i 0 t v) inst 0) = Inr hash"
    "u = push_journal i (journal_record_new (commit_command x i 0 inst t) (- 1) 0
         (pi_bytecode_version inst) prior_hash hash (tr_events t) (tr_effects t))
       ((next_tables i 0 t v)\<lparr>in_snapshots := bt_insert i (instance_envelope i (next_tables i 0 t v) inst 0) (in_snapshots v)\<rparr>)"
proof -
  have env: "snapshot_envelope_new CURRENT_ARTIFACT_ABI (pi_bytecode_version inst) 0
      (persisted_new inst (fibers_of i (next_tables i 0 t v)) (join_counts_of i (next_tables i 0 t v)) (bt_or_default (in_incidents v) i [])
         (fold apply_concurrency_mutation (tr_concurrency_mutations t) (bt_or_default (in_concurrency_tables v) i bt_empty)) []) =
      instance_envelope i (next_tables i 0 t v) inst 0"
    by (simp add: instance_envelope_def next_tables_def bt_or_default_def)
  let ?e = "instance_envelope i (next_tables i 0 t v) inst 0"
  from assms(1) obtain hash ph where h: "state_hash x ?e = Inr hash"
    "(r, u) = (0, push_journal i (journal_record_new (commit_command x i 0 inst t) (- 1) 0
         (pi_bytecode_version inst) ph hash (tr_events t) (tr_effects t))
       ((next_tables i 0 t v)\<lparr>in_snapshots := bt_insert i ?e (in_snapshots v)\<rparr>))"
    unfolding write_envelope_def Let_def if_True assms(2) [symmetric] next_tables_def [symmetric] next_tables_simps env hash_envelope_def try_res_simps
    by (elim try_resE) (rule that, simp only: map_err_Inr, simp only: sum.inject, erule sym)
  then show ?thesis by (intro that [of hash ph]) auto
qed

lemma commit_journal:
  assumes "commit_inner x h c t w = (Inr (Committed r), w')"
  obtains js rc where "bt_get (in_journals w') (cl_instance_id c) = Some (js @ [rc])"
proof -
  let ?inst = "stored_instance x c t w"
  from assms obtain v u where u: "write_envelope x c (is_start c w) t ?inst v = Inr (r, u)"
    and w': "w' = finish_lease x h c ?inst r u" by (rule commit_innerE)
  have j: "in_journals w' = in_journals u" using w' core_eqD(8) [OF core_finish_lease] by simp
  obtain rc v' where "u = push_journal (cl_instance_id c) rc v'"
    using u by (cases "is_start c w") (auto elim!: write_envelope_startE [OF _ refl] write_envelopeE [OF _ refl])
  with that show ?thesis unfolding j by (simp add: push_journal_def bt_get_insert)
qed

lemma start_tracked:
  assumes "no_rows i w" and "plain t" and "cl_instance_id c = i" and "commit_inner x h c t w = (Inr (Committed r), w')"
    and "pi_bytecode_version (tr_next_snapshot t) = wf_hash wk"
  obtains e rc where "bt_get (in_snapshots w') i = Some e" "tracked x wk i e [rc] [] w'" "se_artifact_abi e = CURRENT_ARTIFACT_ABI"
    "pi_tenant_id (ps_instance (se_state e)) = cl_tenant_id c"
proof -
  let ?inst = "stored_instance x c t w"
  from assms(4) obtain v u where ok: "commit_checks c t w = Inr ()" and v: "write_tables x h c t ?inst w = Inr v"
    and u: "write_envelope x c (is_start c w) t ?inst v = Inr (r, u)" and w': "w' = finish_lease x h c ?inst r u"
    by (rule commit_innerE)
  have start: "is_start c w" and id: "pi_instance_id (tr_next_snapshot t) = i"
    using ok assms(1,3) by (auto simp: commit_checks_def check_claim_def refuse_def no_rows_def elim!: try_resE split: if_splits option.splits)
  from u [unfolded eqTrueI [OF start]] assms(3) obtain hash ph where r: "r = 0"
    and hash: "state_hash x (instance_envelope i (next_tables i 0 t v) ?inst 0) = Inr hash"
    and u': "u = push_journal i (journal_record_new (commit_command x i 0 ?inst t) (- 1) 0
         (pi_bytecode_version ?inst) ph hash (tr_events t) (tr_effects t))
       ((next_tables i 0 t v)\<lparr>in_snapshots := bt_insert i (instance_envelope i (next_tables i 0 t v) ?inst 0) (in_snapshots v)\<rparr>)"
    by (auto elim!: write_envelope_startE)
  let ?e = "instance_envelope i (next_tables i 0 t v) ?inst 0"
  let ?rc = "journal_record_new (commit_command x i 0 ?inst t) (- 1) 0 (pi_bytecode_version ?inst) ph hash (tr_events t) (tr_effects t)"
  note f = write_tables_fields [OF v assms(2) assms(3) [symmetric]]
  have wf: "fibers_wf (bt_slice i (in_fibers v))"
    using fibers_wf_deltas [of bt_empty "tr_fibers_upsert t" "tr_fibers_delete t" "tc_delete_all_fibers (tr_terminal_cleanup t)"]
      f(2) assms(1) by (simp add: no_rows_def apply_fiber_deltas_def split: if_splits)
  have di: "distinct (map inc_incident_id (bt_or_default (in_incidents v) i []))"
    using f(4) fold_upsert(1) [of "[]" "tr_incidents t"] assms(1) by (simp add: no_rows_def bt_or_default_def)
  have c: "core w' = core u" using w' by (simp add: core_finish_lease)
  have env: "instance_envelope i w' ?inst 0 = ?e"
    using core_eqD [OF c] u' by (simp add: instance_envelope_def fibers_of_def join_counts_of_def push_journal_def)
  have rev: "se_revision ?e = 0" "se_artifact_abi ?e = CURRENT_ARTIFACT_ABI" "ps_instance (se_state ?e) = ?inst\<lparr>pi_integrity_hash := None\<rparr>"
    by (simp_all add: instance_envelope_def snapshot_envelope_new_def persisted_new_def)
  have st: "stored i w' ?e"
    using core_eqD [OF c] u' f(1) wf di env rev by (simp add: stored_def push_journal_def)
  have bv: "pi_bytecode_version ?inst = wf_hash wk" "pi_instance_id ?inst = i"
    using assms(5) id by (simp_all add: stored_instance_def Let_def split: option.splits)
  have j: "bt_get (in_journals w') i = Some [?rc]"
    using core_eqD(8) [OF c] u' f(8) assms(1) by (simp add: push_journal_def bt_or_default_def no_rows_def)
  have "heads_agree x i w'"
    using st j bv hash core_eqD [OF c] u' f(1) rev
    by (simp add: heads_agree_def check_heads_def bt_or_default_def Let_def vec_last_def journal_record_new_def push_journal_def)
  then have "tracked x wk i ?e [?rc] [] w'"
    using st j rev(3) bv by (auto simp: tracked_def bt_or_default_def intro: runs.none)
  moreover have "pi_tenant_id ?inst = cl_tenant_id c"
    using ok by (auto simp: commit_checks_def refuse_def stored_instance_def Let_def elim!: try_resE split: if_splits option.splits)
  ultimately show ?thesis using that st rev(2,3) by (auto simp: stored_def)
qed

lemma store_run_tracked:
  assumes "store_run x wk i m rcs m'" and "tracked x wk i e0 js [] (ms_inner m)"
    and "ae_abi_version (wf_envelope wk) = CURRENT_ARTIFACT_ABI"
  shows "tracked x wk i e0 js rcs (ms_inner m')"
  using assms
proof (induction rule: store_run.induct)
  case (other m rcs m' m'')
  then have tr: "tracked x wk i e0 js rcs (ms_inner m')" by simp
  then have un: "untouched i (ms_inner m') (ms_inner m'')"
    using store_op_untouched [OF other.hyps(2)] by (simp add: tracked_def)
  with tr stored_untouched [OF _ un] heads_untouched [OF un] show ?case
    unfolding tracked_def by (auto simp: untouched_def bt_or_default_def)
next
  case (committed m rcs m' e cmd cx t c h r m'' js' rc)
  from tracked_commit [OF committed.IH [OF committed.prems] committed.hyps(2-5) commit_transition_inner [OF committed.hyps(6)]
      committed.prems(2) committed.hyps(7)] show ?case .
qed simp

lemma store_run_append:
  "store_run x wk i m' rcs' m'' \<Longrightarrow> store_run x wk i m rcs m' \<Longrightarrow> store_run x wk i m (rcs @ rcs') m''"
proof (induction rule: store_run.induct)
  case (other m' rcs' m2 m3)
  then show ?case by (blast intro: store_run.other)
next
  case (committed m' rcs' m2 e cmd cx t c h r m3 js rc)
  from store_run.committed [OF committed.IH [OF committed.prems] committed.hyps(2-7)] show ?case by simp
qed simp

lemma tracked_revision:
  assumes "tracked x wk i e0 js rcs w"
  shows "bt_contains (in_instances w) i" and "unat (bt_or_default (in_revisions w) i 0) = unat (se_revision e0) + length rcs"
proof -
  from assms obtain e where "stored i w e" and "runs x wk e0 rcs e" by (auto simp: tracked_def)
  then show "bt_contains (in_instances w) i" and "unat (bt_or_default (in_revisions w) i 0) = unat (se_revision e0) + length rcs"
    using runs_revision by (auto simp: stored_def bt_contains_def bt_or_default_def)
qed

section \<open>Reading the journal\<close>

lemma runs_tenant:
  "runs x w e rcs e' \<Longrightarrow> pi_tenant_id (ps_instance (se_state e')) = pi_tenant_id (ps_instance (se_state e))"
proof (induction rule: runs.induct)
  case (more e cmd cx e' rc rcs e'')
  from more.hyps(1) obtain t where t: "apply_command x w (to_runtime_snapshot (se_state e)) cmd cx = Inr t"
    and e': "e' = materialize_snapshot (se_state e) t (ae_abi_version (wf_envelope w)) (se_revision e + 1)"
    by (auto simp: kernel_step_iff)
  from t obtain t' where d: "dispatch x w (to_runtime_snapshot (se_state e)) cmd cx = Inr t'" and n: "tr_next_snapshot t = tr_next_snapshot t'"
    by (elim apply_commandE) (simp add: with_command_envelope_def)
  have "pi_tenant_id (tr_next_snapshot t) = pi_tenant_id (ps_instance (se_state e))"
    using dispatch_identity [OF d] n by (simp add: identity_def to_runtime_snapshot_def)
  then show ?case
    using more.IH by (simp add: e' materialize_snapshot_def Let_def snapshot_envelope_new_def persisted_new_def split: option.splits)
qed simp

text \<open>What the journal gained since the start is what \<open>read_journal\<close> returns after the revision of the start.\<close>

lemma tracked_read:
  assumes "tracked x wk i e0 [rc0] rcs w" and "jr_new_revision rc0 = se_revision e0"
    and "pi_tenant_id (ps_instance (se_state e0)) = tenant"
  obtains e where "load_snapshot_envelope tenant i w = Some e" "runs x wk e0 rcs e"
    "read_journal tenant i (Some (se_revision e0)) w = rcs"
proof -
  from assms(1) obtain e where st: "stored i w e" and run: "runs x wk e0 rcs e"
    and j: "bt_or_default (in_journals w) i [] = rc0 # rcs" by (auto simp: tracked_def)
  from st obtain inst where inst: "bt_get (in_instances w) i = Some inst" "e = instance_envelope i w inst (se_revision e)"
    and snap: "bt_get (in_snapshots w) i = Some e" by (auto simp: stored_def)
  have te: "pi_tenant_id (ps_instance (se_state e)) = tenant" using runs_tenant [OF run] assms(3) by simp
  have "pi_tenant_id inst = tenant"
    using te by (subst (asm) inst(2)) (simp add: instance_envelope_def snapshot_envelope_new_def persisted_new_def)
  moreover have "filter (\<lambda>r. jr_new_revision r > se_revision e0) rcs = rcs"
    using runs_numbered [OF run] by (auto simp: filter_id_conv in_set_conv_nth word_less_nat_alt)
  ultimately have "read_journal tenant i (Some (se_revision e0)) w = rcs"
    by (simp add: read_journal_def load_instance_def inst(1) j assms(2))
  moreover have "load_snapshot_envelope tenant i w = Some e" by (simp add: load_snapshot_envelope_def snap te)
  ultimately show ?thesis using that run by blast
qed

lemma tracked_head:
  assumes "tracked x wk i e0 [rc0] [] w" and "bt_get (in_snapshots w) i = Some e0"
  shows "jr_new_revision rc0 = se_revision e0" and "pi_bytecode_version (ps_instance (se_state e0)) = wf_hash wk"
proof -
  from assms obtain inst where st: "bt_get (in_instances w) i = Some inst" "bt_get (in_revisions w) i = Some (se_revision e0)"
    and bv: "pi_bytecode_version (ps_instance (se_state e0)) = wf_hash wk"
    and heads: "heads_agree x i w" and j: "bt_or_default (in_journals w) i [] = [rc0]"
    by (auto simp: tracked_def stored_def)
  from j have "bt_get (in_journals w) i = Some [rc0]" by (cases "bt_get (in_journals w) i") (simp_all add: bt_or_default_def)
  with heads st assms(2) show "jr_new_revision rc0 = se_revision e0"
    by (auto simp: heads_agree_def check_heads_def Let_def bt_or_default_def vec_last_def elim!: try_resE split: if_splits)
  show "pi_bytecode_version (ps_instance (se_state e0)) = wf_hash wk" by (rule bv)
qed

end
