(* ===== verification/StoreSamples.thy ===== *)
theory StoreSamples
  imports StoreRuns JournalTheorems
begin

text \<open>
  A concrete run of the store on the samples of the kernel: the start of an instance with one
  fiber in an empty store, a lease, and the commit of a termination under it. The general facts
  that come first say when a commit and a claim succeed.
\<close>

section \<open>Commits that succeed\<close>

lemma state_hash_ok:
  "instance_hash_bytes x (ps_instance (se_state e)) = Inr bs \<Longrightarrow> \<exists>h. state_hash x e = Inr h"
  by (simp add: state_hash_def hash_input_def state_hash_bytes_def)

lemma commit_innerI:
  assumes "commit_checks c t w = Inr ()" and "write_tables x h c t (stored_instance x c t w) w = Inr v"
    and "write_envelope x c (is_start c w) t (stored_instance x c t w) v = Inr (r, u)"
  shows "commit_inner x h c t w = (Inr (Committed r), finish_lease x h c (stored_instance x c t w) r u)"
  unfolding commit_inner_def assms(1) sum.case unit.case Let_def by (simp add: assms(2,3))

lemma write_envelopeI:
  assumes "instance_hash_bytes x inst = Inr bs" and "start \<or> unat (cl_expected_revision c) < 2 ^ 63"
  obtains u where "write_envelope x c start t inst v = Inr (if start then 0 else cl_expected_revision c + 1, u)"
proof -
  have ihb: "instance_hash_bytes x (inst\<lparr>pi_integrity_hash := None\<rparr>) = Inr bs"
    using assms(1) by (simp add: instance_hash_bytes_def)
  have "\<exists>h. state_hash x (snapshot_envelope_new a b r (persisted_new inst fs js ins tb es)) = Inr h" for a b r fs js ins tb es
    by (rule state_hash_ok) (simp add: snapshot_envelope_new_def persisted_new_def ihb)
  then obtain f where hash: "\<And>a b r fs js ins tb es. state_hash x (snapshot_envelope_new a b r (persisted_new inst fs js ins tb es)) = Inr (f a b r fs js ins tb es)"
    by metis
  have "\<exists>u. write_envelope x c start t inst v = Inr (if start then 0 else cl_expected_revision c + 1, u)"
    unfolding write_envelope_def Let_def hash_envelope_def hash
    using assms(2) by (cases start) (simp_all add: i64_try_from_def)
  with that show ?thesis by blast
qed

lemma commit_transitionI:
  assumes "tr_pending_invocations t = []" and "tr_pending_take t = []" and "commit_inner x h c t (ms_inner m) = (r, w)"
  shows "commit_transition x h c t m = (r, m\<lparr>ms_inner := w\<rparr>)"
  using assms by (simp add: commit_transition_def commit_pending_def)

lemma claim_granted:
  assumes "bt_get (in_instances w) i = Some inst" and "pi_tenant_id inst = tenant" and "check_heads x tenant i inst w = Inr ()"
  shows "claim_instance_for_transition x h tenant i owner ms w = grant_lease x h tenant i owner ms w"
  unfolding claim_instance_for_transition_def assms(1) option.case assms(2,3) sum.case unit.case by simp

lemma bt_slice_empty: "bt_slice i bt_empty = bt_empty"
  by (rule bt_eqI) (simp add: fun_eq_iff bt_get_slice)

section \<open>A sample run\<close>

definition host0 :: host where
  "host0 = \<lparr>h_now_ms = 1000, h_instant = 5000000, h_fresh = (\<lambda>n. 100 + of_nat n), h_timestamp_millis = Some\<rparr>"

definition store0 :: memory_store where
  "store0 = \<lparr>ms_inner = inner_new, ms_pending = bt_empty\<rparr>"

definition start0 :: transition where
  "start0 = (transition_new instance0)\<lparr>tr_fibers_upsert := [fiber7]\<rparr>"

definition claim0 :: claim where
  "claim0 = \<lparr>cl_tenant_id = ''t'', cl_instance_id = 1, cl_expected_revision = 0, cl_fence = 0, cl_lease_token = []\<rparr>"

definition claim1 :: claim where
  "claim1 = \<lparr>cl_tenant_id = ''t'', cl_instance_id = 1, cl_expected_revision = 0, cl_fence = 1,
     cl_lease_token = x_uuid_string x0 100\<rparr>"

lemma sample_start:
  obtains w ih where "commit_inner x0 host0 claim0 start0 inner_new = (Inr (Committed 0), w)"
    "bt_get (in_instances w) 1 = Some (instance0\<lparr>pi_integrity_hash := Some ih\<rparr>)"
    "bt_get (in_transition_leases w) 1 = None"
    "in_timers w = bt_empty" "in_fibers w = bt_insert (1, 7) fiber7 bt_empty"
    "in_incidents w = bt_empty" "in_join_counters w = bt_empty"
    "in_concurrency_tables w = bt_insert 1 bt_empty bt_empty" "in_revisions w = bt_insert 1 0 bt_empty"
proof -
  let ?inst = "stored_instance x0 claim0 start0 inner_new"
  have checks: "commit_checks claim0 start0 inner_new = Inr ()"
    by (simp add: commit_checks_def check_claim_def is_start_def claim0_def inner_new_def start0_def transition_new_def instance0_def check_start_def bt_contains_def)
  have inst: "?inst = instance0\<lparr>pi_integrity_hash := Some (compute_instance_integrity_hash x0 instance0)\<rparr>"
    by (simp add: stored_instance_def start0_def transition_new_def inner_new_def Let_def)
  define v where v2: "v = inner_new\<lparr>in_instances := bt_insert 1 ?inst bt_empty,
     in_payload_history := bt_insert (1, pi_domain_payload_hash ?inst) (pi_domain_payload ?inst) bt_empty,
     in_fibers := bt_insert (1, 7) fiber7 bt_empty\<rparr>"
  have v1: "write_tables x0 host0 claim0 start0 inst inner_new =
      Inr (inner_new\<lparr>in_instances := bt_insert 1 inst bt_empty, in_payload_history := bt_insert (1, pi_domain_payload_hash inst) (pi_domain_payload inst) bt_empty,
       in_fibers := bt_insert (1, 7) fiber7 bt_empty\<rparr>)" for inst
    by (simp add: write_tables_def start0_def transition_new_def Let_def write_fibers_def write_instance_def write_cleanup_def
        claim0_def inner_new_def fiber7_def fiber_new_def)
  note v = v1 [of ?inst, folded v2] v2 [unfolded inst]
  have "\<exists>bs. instance_hash_bytes x0 ?inst = Inr bs" using sample_hash_bytes(2) inst by metis
  then obtain u where u: "write_envelope x0 claim0 True start0 ?inst v = Inr (0, u)"
    by (metis write_envelopeI [of x0 ?inst _ True claim0 start0 v])
  have start: "is_start claim0 inner_new" by (simp add: is_start_def claim0_def inner_new_def bt_contains_def)
  from write_envelope_startE [OF u refl]
  obtain j where j: "u = push_journal 1 j ((next_tables 1 0 start0 v)\<lparr>in_snapshots := bt_insert 1 (instance_envelope 1 (next_tables 1 0 start0 v) ?inst 0) (in_snapshots v)\<rparr>)"
    by (metis claim.select_convs(2) claim0_def)
  let ?w = "finish_lease x0 host0 claim0 ?inst 0 u"
  have com: "commit_inner x0 host0 claim0 start0 inner_new = (Inr (Committed 0), ?w)"
    using commit_innerI [OF checks v(1)] u start by simp
  have rest: "bt_get (in_transition_leases ?w) 1 = None" "in_timers ?w = bt_empty"
    by (auto simp: finish_lease_def claim0_def j v(2) inner_new_def push_journal_def next_tables_def bt_get_remove enqueue_activation_locked_def Let_def)
  have "in_instances u = bt_insert 1 (instance0\<lparr>pi_integrity_hash := Some (compute_instance_integrity_hash x0 instance0)\<rparr>) bt_empty"
    "in_fibers u = bt_insert (1, 7) fiber7 bt_empty" "in_incidents u = bt_empty" "in_join_counters u = bt_empty"
    "in_concurrency_tables u = bt_insert 1 bt_empty bt_empty" "in_revisions u = bt_insert 1 0 bt_empty"
    by (simp_all add: j v(2) push_journal_def next_tables_def inner_new_def start0_def transition_new_def inst bt_or_default_def)
  then show ?thesis
    by (intro that [of ?w "compute_instance_integrity_hash x0 instance0"])
       (simp_all only: com rest core_eqD [OF core_finish_lease [of x0 host0 claim0 ?inst 0 u]] bt_get_insert fun_upd_same simp_thms)
qed

lemma sample_terminate:
  obtains t where "apply_command x0 (workflow0 []) (to_runtime_snapshot (persisted0 [fiber7] bt_empty)) Cmd_Terminate cx0 = Inr t"
    "tr_next_snapshot t = instance0\<lparr>pi_state := PS_Terminated 5\<rparr>" "tr_state_override t = None"
    "tr_effects t = []" "tr_job_mutations t = []" "tr_effect_mutations t = []" "tr_child_starts t = []" "tr_join_mutations t = []"
    "tr_concurrency_mutations t = []" "tr_start_dedupe t = None" "tr_dedupe t = []" "tr_buffered_messages t = []" "tr_timer_mutations t = []"
    "tr_pending_invocations t = []" "tr_pending_take t = []"
  by (simp add: sample_eval to_runtime_snapshot_def apply_terminate_def retire_all_eq
        armed_record_ids_in_transition_def full_cleanup_def builder_defs transition_new_def
        with_command_envelope_def effective_state_def)

lemma sample_claim:
  assumes "bt_get (in_instances w) 1 = Some inst" and "pi_tenant_id inst = ''t''" and "heads_agree x0 1 w"
    and "bt_get (in_transition_leases w) 1 = None" and "bt_get (in_revisions w) 1 = Some 0"
  shows "claim_instance_for_transition x0 host0 ''t'' 1 ''o'' 1000 w = (Inr (Some claim1),
    w\<lparr>in_transition_leases := bt_insert 1 (''o'', 1005000000, 1, x_uuid_string x0 100) (in_transition_leases w)\<rparr>)"
proof -
  have "check_heads x0 ''t'' 1 inst w = Inr ()" using assms(1-3) by (simp add: heads_agree_def)
  from claim_granted [OF assms(1,2) this] show ?thesis
    using assms(4,5) by (simp add: grant_lease_def Let_def host0_def claim1_def bt_or_default_def checked_add_def)
qed

lemma sample_no_rows: "no_rows 1 inner_new" and sample_plain: "plain start0" and sample_instance: "cl_instance_id claim0 = 1"
    and sample_version: "pi_bytecode_version (tr_next_snapshot start0) = wf_hash (workflow0 [])"
  by (simp_all add: plain_def start0_def transition_new_def claim0_def no_rows_def inner_new_def workflow0_def
      instance0_def bt_slice_empty)

lemma sample_started:
  obtains w ih where "commit_inner x0 host0 claim0 start0 inner_new = (Inr (Committed 0), w)"
    "bt_get (in_instances w) 1 = Some (instance0\<lparr>pi_integrity_hash := Some ih\<rparr>)"
    "bt_get (in_transition_leases w) 1 = None" "in_revisions w = bt_insert 1 0 bt_empty"
    "in_concurrency_tables w = bt_insert 1 bt_empty bt_empty"
    "stored 1 w (envelope0 (persisted0 [fiber7] bt_empty))" "heads_agree x0 1 w"
proof -
  obtain w ih where w: "commit_inner x0 host0 claim0 start0 inner_new = (Inr (Committed 0), w)"
    and f: "bt_get (in_instances w) 1 = Some (instance0\<lparr>pi_integrity_hash := Some ih\<rparr>)" "bt_get (in_transition_leases w) 1 = None"
    "in_timers w = bt_empty" "in_fibers w = bt_insert (1, 7) fiber7 bt_empty"
    "in_incidents w = bt_empty" "in_join_counters w = bt_empty"
    "in_concurrency_tables w = bt_insert 1 bt_empty bt_empty" "in_revisions w = bt_insert 1 0 bt_empty"
    by (rule sample_start)
  from start_tracked [OF sample_no_rows sample_plain sample_instance w sample_version] obtain e rc where
    e: "bt_get (in_snapshots w) 1 = Some e" and tr: "tracked x0 (workflow0 []) 1 e [rc] [] w" .
  have st: "stored 1 w e" and heads: "heads_agree x0 1 w" using tr e by (auto simp: tracked_def stored_def)
  have "se_revision e = 0" using st f(8) by (simp add: stored_def)
  with st f(1) have "e = instance_envelope 1 w (instance0\<lparr>pi_integrity_hash := Some ih\<rparr>) 0"
    unfolding stored_def by (metis option.inject)
  also have "\<dots> = envelope0 (persisted0 [fiber7] bt_empty)"
    by (simp add: instance_envelope_def fibers_of_def join_counts_of_def f envelope0_def persisted_new_def persisted0_def
        snapshot_envelope_new_def instance0_def bt_or_default_def bt_entries_simps bt_of_list_def key_incidents_def CURRENT_ARTIFACT_ABI_def)
  finally show ?thesis using that w f(1,2,7,8) st heads by blast
qed

lemma sample_commit:
  obtains m m1 t m2 where "commit_transition x0 host0 claim0 start0 store0 = (Inr (Committed 0), m)"
    "store_run x0 (workflow0 []) 1 m [] m1"
    "bt_get (in_snapshots (ms_inner m1)) 1 = Some (envelope0 (persisted0 [fiber7] bt_empty))"
    "apply_command x0 (workflow0 []) (to_runtime_snapshot (persisted0 [fiber7] bt_empty)) Cmd_Terminate cx0 = Inr t"
    "commit_transition x0 host0 claim1 t m1 = (Inr (Committed 1), m2)"
proof -
  obtain w ih where w: "commit_inner x0 host0 claim0 start0 inner_new = (Inr (Committed 0), w)"
    and f: "bt_get (in_instances w) 1 = Some (instance0\<lparr>pi_integrity_hash := Some ih\<rparr>)" "bt_get (in_transition_leases w) 1 = None"
    "in_revisions w = bt_insert 1 0 bt_empty" "in_concurrency_tables w = bt_insert 1 bt_empty bt_empty"
    and st: "stored 1 w (envelope0 (persisted0 [fiber7] bt_empty))" and heads: "heads_agree x0 1 w"
    by (rule sample_started)
  let ?e = "envelope0 (persisted0 [fiber7] bt_empty)"
  let ?m = "store0\<lparr>ms_inner := w\<rparr>"
  let ?w2 = "w\<lparr>in_transition_leases := bt_insert 1 (''o'', 1005000000, 1, x_uuid_string x0 100) (in_transition_leases w)\<rparr>"
  have start: "commit_transition x0 host0 claim0 start0 store0 = (Inr (Committed 0), ?m)"
    by (rule commit_transitionI) (use w in \<open>simp_all add: start0_def transition_new_def store0_def\<close>)
  have "claim_instance_for_transition x0 host0 ''t'' 1 ''o'' 1000 w = (Inr (Some claim1), ?w2)"
    by (rule sample_claim [OF f(1) _ heads]) (simp_all add: f(2,3) instance0_def)
  then have run: "store_run x0 (workflow0 []) 1 ?m [] (?m\<lparr>ms_inner := ?w2\<rparr>)"
    by (intro store_run.other [OF store_run.none] store_op.claim) simp
  obtain t where t: "apply_command x0 (workflow0 []) (to_runtime_snapshot (persisted0 [fiber7] bt_empty)) Cmd_Terminate cx0 = Inr t"
    and next_t: "tr_next_snapshot t = instance0\<lparr>pi_state := PS_Terminated 5\<rparr>" "tr_state_override t = None"
    and fs: "tr_effects t = []" "tr_job_mutations t = []" "tr_effect_mutations t = []" "tr_child_starts t = []" "tr_join_mutations t = []"
    "tr_concurrency_mutations t = []" "tr_start_dedupe t = None" "tr_dedupe t = []" "tr_buffered_messages t = []" "tr_timer_mutations t = []"
    "tr_pending_invocations t = []" "tr_pending_take t = []"
    by (rule sample_terminate)
  let ?inst = "stored_instance x0 claim1 t ?w2"
  have checks: "commit_checks claim1 t ?w2 = Inr ()" "\<not> is_start claim1 ?w2"
    by (simp_all add: commit_checks_def check_claim_def is_start_def claim1_def f fs next_t instance0_def current_fence_def bt_or_default_def check_start_def)
  obtain v where v: "write_tables x0 host0 claim1 t ?inst ?w2 = Inr v"
    by (simp add: write_tables_def fs Let_def)
  have "\<exists>bs. instance_hash_bytes x0 ?inst = Inr bs"
  proof -
    have "?inst = instance0\<lparr>pi_state := PS_Terminated 5, pi_integrity_hash := pi_integrity_hash ?inst\<rparr>"
      by (simp add: stored_instance_def next_t f claim1_def Let_def instance0_def)
    then show ?thesis using sample_hash_bytes(1) by metis
  qed
  then obtain u where u: "write_envelope x0 claim1 False t ?inst v = Inr (1, u)"
    using write_envelopeI [of x0 ?inst _ False claim1 t v] by (auto simp: claim1_def)
  let ?w3 = "finish_lease x0 host0 claim1 ?inst 1 u"
  have com: "commit_inner x0 host0 claim1 t ?w2 = (Inr (Committed 1), ?w3)"
    using commit_innerI [OF checks(1) v] u checks(2) by simp
  have ct: "commit_transition x0 host0 claim1 t (?m\<lparr>ms_inner := ?w2\<rparr>) = (Inr (Committed 1), ?m\<lparr>ms_inner := ?w2, ms_inner := ?w3\<rparr>)"
    by (rule commit_transitionI) (use com fs in simp_all)
  have "bt_get (in_snapshots ?w2) 1 = Some ?e" using st by (simp add: stored_def)
  with start run t ct that show ?thesis by simp
qed

lemma sample_run:
  obtains m rcs m' where "commit_transition x0 host0 claim0 start0 store0 = (Inr (Committed 0), m)"
    "store_run x0 (workflow0 []) 1 m rcs m'" "rcs \<noteq> []"
proof -
  obtain m m1 t m2 where m: "commit_transition x0 host0 claim0 start0 store0 = (Inr (Committed 0), m)"
    and run: "store_run x0 (workflow0 []) 1 m [] m1"
    and e: "bt_get (in_snapshots (ms_inner m1)) 1 = Some (envelope0 (persisted0 [fiber7] bt_empty))"
    and t: "apply_command x0 (workflow0 []) (to_runtime_snapshot (persisted0 [fiber7] bt_empty)) Cmd_Terminate cx0 = Inr t"
    and c: "commit_transition x0 host0 claim1 t m1 = (Inr (Committed 1), m2)" by (rule sample_commit)
  have i: "cl_instance_id claim1 = 1" by (simp add: claim1_def)
  have t': "apply_command x0 (workflow0 []) (to_runtime_snapshot (se_state (envelope0 (persisted0 [fiber7] bt_empty)))) Cmd_Terminate cx0 = Inr t"
    "cx_next_revision cx0 = se_revision (envelope0 (persisted0 [fiber7] bt_empty)) + 1"
    using t by (simp_all add: envelope0_def snapshot_envelope_new_def cx0_def)
  obtain js rc where "bt_get (in_journals (ms_inner m2)) 1 = Some (js @ [rc])"
    using commit_journal [OF commit_transition_inner [OF c]] i by auto
  with run e t' i c have "store_run x0 (workflow0 []) 1 m ([] @ [rc]) m2" by (blast intro: store_run.committed)
  with m that show ?thesis by blast
qed

end
