(* ===== verification/StoreSafety.thy ===== *)
theory StoreSafety
  imports StoreWrites
begin

text \<open>
  Two invariants of the store's queues: at most one activation of an instance is claimed, and a
  timer that was consumed or cancelled stays so. Each is stated for every step that can change the
  table, a commit included, through the contract of the writes of a commit.
\<close>

section \<open>Activations\<close>

text \<open>At most one claimed activation of a tenant and an instance.\<close>

definition one_claim :: "inner \<Rightarrow> bool" where
  "one_claim w \<longleftrightarrow> (\<forall>k k' a a'. bt_get (in_activations w) k = Some a \<longrightarrow> bt_get (in_activations w) k' = Some a' \<longrightarrow>
     ma_status a = MA_Claimed \<longrightarrow> ma_status a' = MA_Claimed \<longrightarrow> ma_tenant_id a = ma_tenant_id a' \<longrightarrow>
     ma_instance_id a = ma_instance_id a' \<longrightarrow> k = k')"

inductive activation_step :: "ext \<Rightarrow> inner \<Rightarrow> inner \<Rightarrow> bool" for x where
  enqueue: "enqueue_activation_locked h tenant j cid kind cmd at w = (b, w') \<Longrightarrow> activation_step x w w'"
| claim: "claim_ready_activations x h tenant owner n ms w = (cas, w') \<Longrightarrow> activation_step x w w'"
| renew: "renew_activation_claim h ca ms w = (rn, w') \<Longrightarrow> activation_step x w w'"
| release: "activation_step x w (release_activation_to_ready h ca nb w)"
| consume: "consume_activation ca w = (b, w') \<Longrightarrow> activation_step x w w'"
| bury: "activation_step x w (dead_letter_activation ca w)"
| reclaim: "reclaim_expired_activations h w = (k, w') \<Longrightarrow> activation_step x w w'"
| commit: "commit_inner x h c t w = (r, w') \<Longrightarrow> activation_step x w w'"
| elsewhere: "same_activations w w' \<Longrightarrow> activation_step x w w'"

lemma one_claim_shrink:
  assumes "one_claim w"
    and "\<And>k a. bt_get (in_activations w') k = Some a \<Longrightarrow> ma_status a = MA_Claimed \<Longrightarrow>
      \<exists>a0. bt_get (in_activations w) k = Some a0 \<and> ma_status a0 = MA_Claimed \<and> ma_tenant_id a0 = ma_tenant_id a
        \<and> ma_instance_id a0 = ma_instance_id a"
  shows "one_claim w'"
  unfolding one_claim_def
proof (intro allI impI)
  fix k k' a a'
  assume a: "bt_get (in_activations w') k = Some a" "bt_get (in_activations w') k' = Some a'"
    "ma_status a = MA_Claimed" "ma_status a' = MA_Claimed" "ma_tenant_id a = ma_tenant_id a'" "ma_instance_id a = ma_instance_id a'"
  from assms(2) [OF a(1,3)] assms(2) [OF a(2,4)] a(5,6) assms(1) show "k = k'"
    unfolding one_claim_def by metis
qed

text \<open>The activations \<open>ks\<close> belong to the tenant, and none of their instances has a claimed activation, the batch apart.\<close>

definition free_for :: "inner \<Rightarrow> tenant_id \<Rightarrow> uuid list \<Rightarrow> uuid list \<Rightarrow> bool" where
  "free_for w tenant batch ks \<longleftrightarrow> (\<forall>k \<in> set ks. \<forall>a. bt_get (in_activations w) k = Some a \<longrightarrow> ma_tenant_id a = tenant
      \<and> (\<forall>k' a'. bt_get (in_activations w) k' = Some a' \<longrightarrow> ma_status a' = MA_Claimed \<longrightarrow> ma_tenant_id a' = tenant \<longrightarrow>
           ma_instance_id a' = ma_instance_id a \<longrightarrow> ma_instance_id a \<in> set batch))"

lemma free_claimed:
  assumes "one_claim w" and "free_for w tenant batch (k # ks)" and "k \<notin> set ks" and a: "bt_get (in_activations w) k = Some a"
    and "ma_instance_id a \<notin> set batch" and same: "ma_tenant_id a' = ma_tenant_id a" "ma_instance_id a' = ma_instance_id a"
  shows "one_claim (w\<lparr>in_activations := bt_insert k a' (in_activations w)\<rparr>)"
    and "free_for (w\<lparr>in_activations := bt_insert k a' (in_activations w)\<rparr>) tenant (ma_instance_id a # batch) ks"
proof -
  have k: "ma_tenant_id a = tenant" and none: "\<And>k' b. bt_get (in_activations w) k' = Some b \<Longrightarrow> ma_status b = MA_Claimed \<Longrightarrow>
      ma_tenant_id b = tenant \<Longrightarrow> ma_instance_id b \<noteq> ma_instance_id a"
    using assms(2,5) a by (auto simp: free_for_def)
  show "one_claim (w\<lparr>in_activations := bt_insert k a' (in_activations w)\<rparr>)"
    using assms(1) none k same unfolding one_claim_def by (simp add: bt_get_insert) metis
  show "free_for (w\<lparr>in_activations := bt_insert k a' (in_activations w)\<rparr>) tenant (ma_instance_id a # batch) ks"
    using assms(2,3) same unfolding free_for_def by (auto simp: bt_get_insert)
qed

lemma claim_activations_one:
  assumes "one_claim w" and "distinct ks" and "free_for w tenant batch ks"
    and "claim_activations x h owner n ex ks result batch w = (r, w')"
  shows "one_claim w'"
  using assms
proof (induction ks arbitrary: result batch w)
  case (Cons k ks)
  have ks: "distinct ks" "k \<notin> set ks" "free_for w tenant batch ks"
    using Cons.prems(2,3) by (simp_all add: free_for_def)
  note skip = Cons.IH [OF Cons.prems(1) ks(1,3)]
  show ?case
  proof (cases "length result \<ge> n")
    case True
    with Cons.prems show ?thesis by simp
  next
    case False
    show ?thesis
    proof (cases "bt_get (in_activations w) k")
      case None
      with False skip Cons.prems(4) show ?thesis by simp
    next
      case (Some a)
      show ?thesis
      proof (cases "ma_instance_id a \<in> set batch")
        case True
        with False Some skip Cons.prems(4) show ?thesis by simp
      next
        case fresh: False
        note claimed = free_claimed [OF Cons.prems(1,3) ks(2) Some fresh]
        from False Some fresh Cons.prems(4) show ?thesis
          by (simp add: Let_def) (erule Cons.IH [OF claimed(1) ks(1) claimed(2), rotated -1]; simp)
      qed
    qed
  qed
qed simp

lemma enqueue_one:
  assumes "enqueue_activation_locked h tenant j cid kind cmd at w = (b, w')" and "one_claim w"
  shows "one_claim w'"
  using assms(2) by (rule one_claim_shrink)
    (use assms(1) in \<open>auto simp: enqueue_activation_locked_def Let_def bt_get_insert split: if_splits\<close>)

lemma one_claim_same: "same_activations w w' \<Longrightarrow> one_claim w \<Longrightarrow> one_claim w'"
  by (simp add: one_claim_def)

lemma finish_lease_one: "one_claim w \<Longrightarrow> one_claim (finish_lease x h c inst n w)"
  unfolding finish_lease_def by (auto intro: one_claim_same enqueue_one [OF prod.collapse [symmetric]])

lemma claim_ready_one:
  assumes "claim_ready_activations x h tenant owner n ms w = (cas, w')" and "one_claim w"
  shows "one_claim w'"
proof -
  let ?busy = "map ma_instance_id (filter (\<lambda>a. ma_tenant_id a = tenant \<and> ma_status a = MA_Claimed) (bt_values (in_activations w)))"
  let ?rows = "filter (\<lambda>(_, a). ma_tenant_id a = tenant \<and> ma_status a = MA_Ready \<and> i64_le (ma_available_at_ms a) (h_now_ms h)
      \<and> ma_instance_id a \<notin> set ?busy) (bt_entries (in_activations w))"
  let ?ks = "map fst (sort_key (\<lambda>(_, a). activation_order a) ?rows)"
  have "distinct (map fst ?rows)" by (simp add: distinct_map_filter al_wf_distinct)
  then have "distinct ?ks" by (simp add: distinct_map)
  moreover have "free_for w tenant [] ?ks"
    unfolding free_for_def
  proof (intro ballI allI impI conjI)
    fix k a assume "k \<in> set ?ks" and a: "bt_get (in_activations w) k = Some a"
    then have r: "ma_tenant_id a = tenant" "ma_instance_id a \<notin> set ?busy" by (auto simp: bt_entries_mem)
    show "ma_tenant_id a = tenant" by (rule r)
    fix k' a' assume "bt_get (in_activations w) k' = Some a'" "ma_status a' = MA_Claimed" "ma_tenant_id a' = tenant"
      "ma_instance_id a' = ma_instance_id a"
    then show "ma_instance_id a \<in> set []" using r(2) by (auto simp: bt_values_mem image_iff)
  qed
  moreover have "claim_activations x h owner n (h_now_ms h + ms) ?ks [] [] w = (cas, w')"
    using assms(1) unfolding claim_ready_activations_def Let_def .
  ultimately show ?thesis using claim_activations_one assms(2) by blast
qed

lemma activation_step_one:
  assumes "activation_step x w w'" and "one_claim w"
  shows "one_claim w'"
  using assms
proof (induction rule: activation_step.induct)
  case (commit h c t w r w')
  then show ?case
    by (elim activation_writes.commit_keeps) (auto intro: one_claim_same finish_lease_one)
next
  case (enqueue h tenant j cid kind cmd at w b w')
  then show ?case by (rule enqueue_one)
next
  case (claim h tenant owner n ms w cas w')
  then show ?case by (rule claim_ready_one)
next
  case (elsewhere w w')
  then show ?case by (rule one_claim_same)
qed (auto elim!: one_claim_shrink simp: renew_activation_claim_def update_claimed_def release_activation_to_ready_def consume_activation_def
   dead_letter_activation_def reclaim_expired_activations_def Let_def bt_get_insert bt_get_remove bt_get_map_values split: option.splits if_splits)

section \<open>Timers\<close>

text \<open>A timer that was consumed or cancelled.\<close>

definition spent :: "effect_id \<Rightarrow> inner \<Rightarrow> bool" where
  "spent k w \<longleftrightarrow> (case bt_get (in_timers w) k of Some timer \<Rightarrow> mt_state timer \<noteq> MT_Armed | None \<Rightarrow> False)"

fun timer_target :: "timer_mutation \<Rightarrow> effect_id option" where
  "timer_target (TM_Consume k _) = Some k"
| "timer_target (TM_Rearm k _ _ _) = Some k"
| "timer_target _ = None"

inductive timer_step :: "ext \<Rightarrow> inner \<Rightarrow> inner \<Rightarrow> bool" for x where
  claim: "claim_due_timers h tenant owner now n ms w = (cs, w') \<Longrightarrow> timer_step x w w'"
| release: "timer_step x w (release_timer_claim ct w)"
| commit: "commit_inner x h c t w = (r, w') \<Longrightarrow> timer_step x w w'"
| elsewhere: "in_timers w' = in_timers w \<Longrightarrow> timer_step x w w'"

lemma spent_simple:
  "in_timers (write_join i jn w) = in_timers w" "in_timers (write_message bm w) = in_timers w"
  "in_timers (write_outbox ob w) = in_timers w" "in_timers (left_in (write_job h jm w)) = in_timers w"
  "in_timers (left_in (write_effect_mutation c em w)) = in_timers w" "in_timers (left_in (write_child x ch w)) = in_timers w"
  subgoal by (cases jn) simp_all
  subgoal by (cases bm) (simp_all add: Let_def)
  subgoal by (cases ob) simp
  subgoal by (cases jm) (auto simp: take_claimed_def remove_job_def remove_queued_def Let_def split: option.splits if_splits)
  subgoal by (cases em) (auto split: option.splits)
  subgoal by (cases ch) (auto simp: hash_envelope_def append_event_def push_journal_def Let_def map_err_def split: sum.splits)
  done

lemma spent_effect: "spent k w \<Longrightarrow> spent k (left_in (write_effect c d w))"
  by (cases d) (auto simp: spent_def Let_def bt_get_insert split: option.splits)

lemma spent_timer:
  assumes "timer_target tm \<noteq> Some k" and "spent k w"
  shows "spent k (write_timer i tm w)"
  using assms
  by (cases tm) (auto simp: spent_def update_timer_def cancel_race_timers_def cancel_timer_def bt_get_insert bt_get_map_values
      split: option.splits)

lemma spent_cleanup: "spent k w \<Longrightarrow> spent k (write_cleanup i tc w)"
  by (auto simp: spent_def write_cleanup_def cancel_timer_def bt_get_map_values Let_def split: option.splits)

lemma spent_writes:
  assumes "\<And>tm. tm \<in> set (tr_timer_mutations t) \<Longrightarrow> timer_target tm \<noteq> Some k"
  shows "store_writes (\<lambda>w v. spent k w \<longrightarrow> spent k v) x h c t"
proof -
  have same: "spent k w \<longrightarrow> spent k v" if "in_timers v = in_timers w" for w v using that by (simp add: spent_def)
  show ?thesis
    by unfold_locales
       (blast intro: spent_effect spent_cleanup spent_timer [OF assms] | rule same, simp add: spent_simple write_instance_def write_fibers_def enqueue_job_def remove_job_def
           remove_queued_def write_incident_def append_event_def next_tables_def push_journal_def Let_def)+
qed

lemma checked_targets:
  assumes "commit_checks c t w = Inr ()" and "spent k w" and "tm \<in> set (tr_timer_mutations t)"
  shows "timer_target tm \<noteq> Some k"
proof -
  have "for_res (check_timer c w) (tr_timer_mutations t) = Inr ()"
    using assms(1) by (auto simp: commit_checks_def refuse_def elim!: try_resE split: if_splits)
  then have "check_timer c w tm = Inr ()" using assms(3) by (simp add: for_res_ok)
  with assms(2) show ?thesis
    by (cases tm) (auto simp: spent_def check_timer_claim_def split: option.splits if_splits)
qed

lemma spent_commit:
  assumes "commit_inner x h c t w = (r, w')" and "spent k w"
  shows "spent k w'"
proof (cases "commit_checks c t w")
  case (Inl e)
  from commit_refused_same [OF this assms(1)] assms(2) show ?thesis by simp
next
  case (Inr u)
  then have ok: "commit_checks c t w = Inr ()" by simp
  have lease: "in_timers (finish_lease x h c inst n u) = in_timers u" for inst n u
    by (simp add: finish_lease_def enqueue_activation_locked_def Let_def)
  show ?thesis
  proof (rule store_writes.commit_keeps [OF spent_writes [OF checked_targets [OF ok assms(2)]] assms(1)])
    fix u assume "spent k w \<longrightarrow> spent k u" and "w' = u \<or> (\<exists>inst n. w' = finish_lease x h c inst n u)"
    then show ?thesis using assms(2) lease by (auto simp: spent_def)
  qed
qed

lemma claim_each_spent:
  "claim_each (claim_timer_row owner until) fresh n ks w = (cs, w') \<Longrightarrow>
     spent k w' = spent k w \<and> tm_timer_id ` set cs \<subseteq> set ks"
proof (induction ks arbitrary: n w cs w')
  case (Cons j ks)
  obtain ds v where v: "claim_timer_row owner until j (fresh n) w = (ds, v)" by (metis prod.collapse)
  obtain es u where u: "claim_each (claim_timer_row owner until) fresh (Suc n) ks v = (es, u)" by (metis prod.collapse)
  have "spent k v = spent k w \<and> tm_timer_id ` set ds \<subseteq> {j}"
    using v by (auto simp: claim_timer_row_def spent_def bt_get_insert split: option.splits if_splits)
  moreover have "cs = ds @ es" "w' = u" using Cons.prems v u by auto
  ultimately show ?case using Cons.IH [OF u] by (auto simp: image_Un)
qed simp

lemma spent_unclaimed:
  assumes "claim_due_timers h tenant owner now n ms w = (cs, w')" and "spent k w"
  shows "spent k w'" and "k \<notin> tm_timer_id ` set cs"
proof -
  let ?due = "map (\<lambda>(timer_id, timer). (mt_due_at timer, timer_id))
            (filter (\<lambda>(_, timer). timer_claimable tenant now timer) (bt_entries (in_timers w)))"
  note each = assms(1) [unfolded claim_due_timers_def Let_def]
  show "spent k w'" using claim_each_spent [OF each] assms(2) by simp
  have "k \<notin> snd ` set ?due" using assms(2) by (auto simp: spent_def bt_entries_mem timer_claimable_def split: option.splits)
  then have "k \<notin> set (map snd (take n (sort ?due)))" using set_take_subset [of n "sort ?due"] by auto
  with claim_each_spent [OF each] show "k \<notin> tm_timer_id ` set cs" by blast
qed

lemma timer_step_spent:
  "timer_step x w w' \<Longrightarrow> spent k w \<Longrightarrow> spent k w'"
proof (induction rule: timer_step.induct)
  case (release w ct)
  then show ?case
    by (auto simp: spent_def release_timer_claim_def update_timer_def bt_get_insert split: option.splits)
next
  case (elsewhere w' w)
  then show ?case by (simp add: spent_def)
qed (auto intro: spent_unclaimed(1) spent_commit)

text \<open>
  A re-armed row is claimed again as the same timer with the due time and the repeat specification of
  the mutation, under the token of the new claim.
\<close>

lemma rearmed_claim:
  assumes "claim_timer_row owner claim_until k token w = ([ct], w')"
  shows "\<exists>w''. claim_timer_row owner' claim_until' k token' (write_timer i (TM_Rearm k tok due_at spec) w) =
    ([ct\<lparr>tm_due_at := due_at, tm_repeat_spec := Some spec, tm_claim_token := token'\<rparr>], w'')"
  using assms
  by (auto simp: claim_timer_row_def update_timer_def bt_get_insert split: option.splits)

end
