(* ===== verification/StoreTheorems.thy ===== *)
theory StoreTheorems
  imports StoreSamples StoreSafety
begin

text \<open>
  The properties of the in-memory store. Its journal replays to its snapshot, a claim commits at
  most once, activations are handed out exclusively, and a spent timer never fires again. What the
  code does not give is stated as well: a commit that fails half way keeps its first writes, a
  refused commit consumes the pending invocations it names, and the fence of an instance restarts
  when its lease is released.
\<close>

section \<open>The journal\<close>

text \<open>
  C25. The store's journal replays to its snapshot. An instance is started in a store without rows
  of it; then any calls of the store follow, in any order, and commits of kernel transitions to
  the instance, each computed from the stored snapshot. Then \<open>read_journal\<close> after the revision of
  the start returns exactly the records of these commits, replaying them from the snapshot that
  the start stored gives exactly the snapshot stored at the end, and the head of the journal
  agrees with that snapshot, so that the store still grants leases. Commits to the instance that fail after their checks are not part of such a run:
  they keep part of their writes.
\<close>

theorem store_journal_replays:
  assumes "no_rows i (ms_inner m0)" and "plain t0" and "cl_instance_id c0 = i" and "cl_tenant_id c0 = tenant"
    and "commit_transition x h c0 t0 m0 = (Inr (Committed r), m)"
    and "pi_bytecode_version (tr_next_snapshot t0) = wf_hash w" and "ae_abi_version (wf_envelope w) = CURRENT_ARTIFACT_ABI"
    and "store_run x w i m rcs m'"
  shows "\<exists>e0 e. load_snapshot_envelope tenant i (ms_inner m) = Some e0 \<and> load_snapshot_envelope tenant i (ms_inner m') = Some e
    \<and> read_journal tenant i (Some (se_revision e0)) (ms_inner m') = rcs \<and> replay x w e0 rcs = Inr e
    \<and> heads_agree x i (ms_inner m')"
proof -
  note com = commit_transition_inner [OF assms(5)]
  from start_tracked [OF assms(1-3) com assms(6)] obtain e0 rc0 where
    e0: "bt_get (in_snapshots (ms_inner m)) i = Some e0" and tr: "tracked x w i e0 [rc0] [] (ms_inner m)"
    and abi: "se_artifact_abi e0 = CURRENT_ARTIFACT_ABI" and t0: "pi_tenant_id (ps_instance (se_state e0)) = cl_tenant_id c0" .
  note head = tracked_head [OF tr e0]
  have tr': "tracked x w i e0 [rc0] rcs (ms_inner m')" by (rule store_run_tracked [OF assms(8) tr assms(7)])
  then obtain e where e: "load_snapshot_envelope tenant i (ms_inner m') = Some e" "runs x w e0 rcs e"
    "read_journal tenant i (Some (se_revision e0)) (ms_inner m') = rcs"
    using t0 assms(4) by (elim tracked_read [OF _ head(1)]) simp_all
  moreover have "load_snapshot_envelope tenant i (ms_inner m) = Some e0"
    using e0 t0 assms(4) by (simp add: load_snapshot_envelope_def)
  moreover have "replay x w e0 rcs = Inr e" using e(2) head(2) abi assms(7) by (simp add: replay_iff)
  moreover have "heads_agree x i (ms_inner m')" using tr' by (simp add: tracked_def)
  ultimately show ?thesis by blast
qed

theorem store_journal_replays_witness:
  "\<exists>m rcs m' e0 e. commit_transition x0 host0 claim0 start0 store0 = (Inr (Committed 0), m)
     \<and> store_run x0 (workflow0 []) 1 m rcs m' \<and> rcs \<noteq> [] \<and> load_snapshot_envelope ''t'' 1 (ms_inner m) = Some e0
     \<and> load_snapshot_envelope ''t'' 1 (ms_inner m') = Some e
     \<and> read_journal ''t'' 1 (Some (se_revision e0)) (ms_inner m') = rcs \<and> replay x0 (workflow0 []) e0 rcs = Inr e"
proof -
  obtain m rcs m' where m: "commit_transition x0 host0 claim0 start0 store0 = (Inr (Committed 0), m)"
    and run: "store_run x0 (workflow0 []) 1 m rcs m'" and ne: "rcs \<noteq> []" by (rule sample_run)
  have "no_rows 1 (ms_inner store0)" "cl_tenant_id claim0 = ''t''" "ae_abi_version (wf_envelope (workflow0 [])) = CURRENT_ARTIFACT_ABI"
    by (simp_all add: store0_def sample_no_rows claim0_def workflow0_def CURRENT_ARTIFACT_ABI_def)
  from store_journal_replays [OF this(1) sample_plain sample_instance this(2) m sample_version this(3) run] m run ne
  show ?thesis by blast
qed

section \<open>Claims\<close>

text \<open>
  C26. A claim commits at most one transition of the kernel. In a run of the store as above, a
  claim under which a transition that the kernel accepted was committed is refused at every later
  point of the run, for every transition: the revision of the instance only grows. The start is not
  counted: it leaves the instance at the revision 0 that its claim names, so the claim of the start
  may commit one transition after it.
\<close>

theorem claim_commits_once:
  assumes "no_rows i (ms_inner m0)" and "plain t0" and "cl_instance_id c0 = i"
    and "commit_transition x h0 c0 t0 m0 = (Inr (Committed r0), m)"
    and "pi_bytecode_version (tr_next_snapshot t0) = wf_hash w" and "ae_abi_version (wf_envelope w) = CURRENT_ARTIFACT_ABI"
    and "store_run x w i m rcs m1" and "bt_get (in_snapshots (ms_inner m1)) i = Some e"
    and "apply_command x w (to_runtime_snapshot (se_state e)) cmd cx = Inr t" and "cx_next_revision cx = se_revision e + 1"
    and "cl_instance_id c = i" and "commit_transition x h c t m1 = (Inr (Committed r), m2)"
    and "store_run x w i m2 rcs' m3"
  shows "\<exists>err. fst (commit_transition x h' c t' m3) = Inl err"
proof -
  from start_tracked [OF assms(1-3) commit_transition_inner [OF assms(4)] assms(5)] obtain e0 rc0 where
    tr: "tracked x w i e0 [rc0] [] (ms_inner m)" .
  note track = store_run_tracked [OF _ tr assms(6)]
  have tr1: "tracked x w i e0 [rc0] rcs (ms_inner m1)" by (rule track [OF assms(7)])
  have ok: "commit_checks c t (ms_inner m1) = Inr ()"
    using commit_transition_inner [OF assms(12)] by (rule commit_innerE) simp
  obtain js rc where j: "bt_get (in_journals (ms_inner m2)) i = Some (js @ [rc])"
    using commit_journal [OF commit_transition_inner [OF assms(12)]] assms(11) by blast
  have run2: "store_run x w i m (rcs @ [rc]) m2" by (rule store_run.committed [OF assms(7-12) j])
  have tr3: "tracked x w i e0 [rc0] ((rcs @ [rc]) @ rcs') (ms_inner m3)"
    by (rule track [OF store_run_append [OF assms(13) run2]])
  have rev: "bt_or_default (in_revisions (ms_inner m1)) i 0 = cl_expected_revision c"
    using ok tracked_revision(1) [OF tr1] assms(11)
    by (auto simp: commit_checks_def check_claim_def refuse_def is_start_def elim!: try_resE split: if_splits option.splits)
  have "cl_expected_revision c \<noteq> bt_or_default (in_revisions (ms_inner m3)) i 0"
    using tracked_revision(2) [OF tr1] tracked_revision(2) [OF tr3] rev by auto
  then have "\<exists>err. check_claim c (ms_inner m3) = Inl (Refused err)"
    using tracked_revision(1) [OF tr3] assms(11) by (auto simp: check_claim_def is_start_def bt_contains_def refuse_def split: option.splits)
  then show ?thesis
    by (auto simp: commit_transition_def commit_inner_def commit_checks_def split: sum.splits prod.splits)
qed

theorem claim_commits_once_witness:
  "\<exists>m m1 t m2 err. commit_transition x0 host0 claim0 start0 store0 = (Inr (Committed 0), m)
     \<and> store_run x0 (workflow0 []) 1 m [] m1 \<and> commit_transition x0 host0 claim1 t m1 = (Inr (Committed 1), m2)
     \<and> fst (commit_transition x0 host0 claim1 t m2) = Inl err"
proof -
  obtain m m1 t m2 where m: "commit_transition x0 host0 claim0 start0 store0 = (Inr (Committed 0), m)"
    and run: "store_run x0 (workflow0 []) 1 m [] m1"
    and e: "bt_get (in_snapshots (ms_inner m1)) 1 = Some (envelope0 (persisted0 [fiber7] bt_empty))"
    and t: "apply_command x0 (workflow0 []) (to_runtime_snapshot (persisted0 [fiber7] bt_empty)) Cmd_Terminate cx0 = Inr t"
    and c: "commit_transition x0 host0 claim1 t m1 = (Inr (Committed 1), m2)" by (rule sample_commit)
  have rows: "no_rows 1 (ms_inner store0)" "ae_abi_version (wf_envelope (workflow0 [])) = CURRENT_ARTIFACT_ABI" "cl_instance_id claim1 = 1"
    by (simp_all add: store0_def sample_no_rows workflow0_def CURRENT_ARTIFACT_ABI_def claim1_def)
  have cmd: "apply_command x0 (workflow0 []) (to_runtime_snapshot (se_state (envelope0 (persisted0 [fiber7] bt_empty)))) Cmd_Terminate cx0 = Inr t"
    "cx_next_revision cx0 = se_revision (envelope0 (persisted0 [fiber7] bt_empty)) + 1"
    using t by (simp_all add: envelope0_def snapshot_envelope_new_def cx0_def)
  from claim_commits_once [OF rows(1) sample_plain sample_instance m sample_version rows(2) run e cmd rows(3) c store_run.none]
  have "\<exists>err. fst (commit_transition x0 host0 claim1 t m2) = Inl err" .
  with m run c show ?thesis by blast
qed

text \<open>
  C31. The fence restarts. While nobody holds a lease of an instance, a worker claims it and gets
  fence 1; its lease expires, another worker claims the instance with fence 2, and the first claim
  is refused as stale, as it should be. When the second worker releases its lease and a third one
  claims the instance, the fence is 1 again: the claim of the first worker, whose lease expired
  long ago, is accepted while the third worker holds the lease.
\<close>

theorem fence_restarts_after_release:
  assumes "bt_get (in_instances w) i = Some inst" and "check_heads x (pi_tenant_id inst) i inst w = Inr ()"
    and "bt_get (in_transition_leases w) i = None" and "a \<noteq> b"
    and "h_instant h2 \<ge> h_instant h1 + unat ms * 1000000"
  shows "let tenant = pi_tenant_id inst;
      (r1, w1) = claim_instance_for_transition x h1 tenant i a ms w;
      (r2, w2) = claim_instance_for_transition x h2 tenant i b ms w1;
      token = x_uuid_string x (h_fresh h2 0);
      w3 = release_instance_transition tenant i token w2;
      (r4, w4) = claim_instance_for_transition x h3 tenant i d ms w3
    in \<exists>c1 c2 c3. r1 = Inr (Some c1) \<and> r2 = Inr (Some c2) \<and> r4 = Inr (Some c3) \<and> cl_lease_token c2 = token
      \<and> cl_fence c1 = 1 \<and> cl_fence c2 = 2 \<and> cl_fence c3 = 1 \<and> check_claim c1 w2 = Inl (Refused CE_StaleFence) \<and> check_claim c1 w4 = Inr ()"
proof -
  have heads: "check_heads x (pi_tenant_id inst) i inst (w\<lparr>in_transition_leases := l\<rparr>) = Inr ()" for l
    using assms(2) by (simp add: check_heads_def Let_def)
  have inst: "bt_get (in_instances (w\<lparr>in_transition_leases := l\<rparr>)) i = Some inst" for l using assms(1) by simp
  note g = claim_granted [OF inst refl heads] claim_granted [OF assms(1) refl assms(2)]
  show ?thesis
    using assms(1,3,4,5) by (simp add: g grant_lease_def Let_def checked_add_def release_instance_transition_def bt_get_insert bt_get_remove
      check_claim_def is_start_def current_fence_def bt_contains_def bt_or_default_def)
qed

theorem fence_restarts_after_release_witness:
  "\<exists>w c1 w1 c2 w2 c3 w4. claim_instance_for_transition x0 host0 ''t'' 1 ''a'' 1 w = (Inr (Some c1), w1)
     \<and> claim_instance_for_transition x0 (host0\<lparr>h_instant := 6000000\<rparr>) ''t'' 1 ''b'' 1 w1 = (Inr (Some c2), w2)
     \<and> check_claim c1 w2 = Inl (Refused CE_StaleFence)
     \<and> claim_instance_for_transition x0 host0 ''t'' 1 ''d'' 1
         (release_instance_transition ''t'' 1 (cl_lease_token c2) w2) = (Inr (Some c3), w4)
     \<and> check_claim c1 w4 = Inr ()"
proof -
  obtain w ih where f: "bt_get (in_instances w) 1 = Some (instance0\<lparr>pi_integrity_hash := Some ih\<rparr>)"
    "bt_get (in_transition_leases w) 1 = None" and heads: "heads_agree x0 1 w" by (rule sample_started)
  let ?inst = "instance0\<lparr>pi_integrity_hash := Some ih\<rparr>"
  have t: "pi_tenant_id ?inst = ''t''" by (simp add: instance0_def)
  have "check_heads x0 (pi_tenant_id ?inst) 1 ?inst w = Inr ()" using heads f by (simp add: heads_agree_def)
  from fence_restarts_after_release [OF f(1) this f(2), where a = "''a''" and b = "''b''" and ?h2.0 = "host0\<lparr>h_instant := 6000000\<rparr>"
      and ?h1.0 = host0 and ms = 1 and ?h3.0 = host0 and d = "''d''"]
  show ?thesis unfolding t by (simp add: host0_def Let_def split: prod.splits) metis
qed

section \<open>Commits that fail\<close>

lemma joins_keep:
  "in_instances (fold (write_join i) js w) = in_instances w" "in_fibers (fold (write_join i) js w) = in_fibers w"
  "in_revisions (fold (write_join i) js w) = in_revisions w" "in_snapshots (fold (write_join i) js w) = in_snapshots w"
  "in_journals (fold (write_join i) js w) = in_journals w" "in_inflight_jobs (fold (write_join i) js w) = in_inflight_jobs w"
proof -
  have one: "in_instances (write_join i j w) = in_instances w" "in_fibers (write_join i j w) = in_fibers w"
    "in_revisions (write_join i j w) = in_revisions w" "in_snapshots (write_join i j w) = in_snapshots w"
    "in_journals (write_join i j w) = in_journals w" "in_inflight_jobs (write_join i j w) = in_inflight_jobs w" for j w
    by (cases j; simp)+
  show "in_instances (fold (write_join i) js w) = in_instances w" "in_fibers (fold (write_join i) js w) = in_fibers w"
    "in_revisions (fold (write_join i) js w) = in_revisions w" "in_snapshots (fold (write_join i) js w) = in_snapshots w"
    "in_journals (fold (write_join i) js w) = in_journals w" "in_inflight_jobs (fold (write_join i) js w) = in_inflight_jobs w"
    by (rule fold_keep, rule one)+
qed

lemma jobs_not_in_flight:
  "in_inflight_jobs (fold enqueue_job js w) = in_inflight_jobs w"
  "bt_get (in_inflight_jobs w) k = None \<Longrightarrow> bt_get (in_inflight_jobs (fold remove_job ks w)) k = None"
proof -
  show "in_inflight_jobs (fold enqueue_job js w) = in_inflight_jobs w"
    by (rule fold_keep) (simp add: enqueue_job_def)
  show "bt_get (in_inflight_jobs w) k = None \<Longrightarrow> bt_get (in_inflight_jobs (fold remove_job ks w)) k = None"
    by (induction ks arbitrary: w) (simp_all add: remove_job_def remove_queued_def bt_get_remove)
qed

text \<open>
  C29. A commit that fails half way keeps its first writes. A transition that acknowledges a job
  which is no longer in flight passes every check and is answered with a conflict; by then the
  instance row is the new one and the fibers of the transition are in the table, while the
  snapshot, the revision and the journal are those before.
\<close>

theorem failed_commit_keeps_writes:
  assumes "commit_checks c t w = Inr ()" and "tr_job_mutations t = [JM_AckClaimed k worker token]"
    and "bt_get (in_inflight_jobs w) k = None"
  shows "\<exists>w'. commit_inner x h c t w = (Inl CE_Conflict, w')
    \<and> bt_get (in_instances w') (cl_instance_id c) = Some (stored_instance x c t w)
    \<and> in_fibers w' = in_fibers (write_fibers (cl_instance_id c) t w)
    \<and> in_snapshots w' = in_snapshots w \<and> in_revisions w' = in_revisions w \<and> in_journals w' = in_journals w"
proof -
  let ?i = "cl_instance_id c" and ?inst = "stored_instance x c t w"
  let ?v = "fold (write_join ?i) (tr_join_mutations t) (write_fibers ?i t (write_instance c t ?inst w))"
  let ?u = "fold remove_job (tr_jobs_ack t) (fold enqueue_job (tr_jobs_enqueue t) ?v)"
  have "bt_get (in_inflight_jobs ?u) k = None"
    by (rule jobs_not_in_flight) (simp add: jobs_not_in_flight(1) joins_keep assms(3) write_fibers_def write_instance_def)
  then have "fold_res (write_job h) (tr_job_mutations t) ?u = Inl (CE_Conflict, ?u)"
    by (simp add: assms(2) take_claimed_def)
  then have "write_tables x h c t ?inst w = Inl (CE_Conflict, ?u)"
    unfolding write_tables_def Let_def by simp
  then have "commit_inner x h c t w = (Inl CE_Conflict, ?u)"
    by (simp add: commit_inner_writes [OF assms(1)])
  moreover have "core ?u = core ?v" by (simp add: core_folds)
  moreover note core_eqD [OF this]
  ultimately show ?thesis
    by (intro exI [of _ ?u]) (simp add: joins_keep write_fibers_def write_instance_def)
qed

theorem failed_commit_keeps_writes_witness:
  "\<exists>w'. commit_inner x0 host0 claim0 (start0\<lparr>tr_job_mutations := [JM_AckClaimed ''k'' ''worker'' ''token'']\<rparr>) inner_new = (Inl CE_Conflict, w')
     \<and> in_fibers w' = bt_insert (1, 7) fiber7 bt_empty \<and> in_snapshots w' = bt_empty"
proof -
  let ?t = "start0\<lparr>tr_job_mutations := [JM_AckClaimed ''k'' ''worker'' ''token'']\<rparr>"
  have "commit_checks claim0 ?t inner_new = Inr ()"
    by (simp add: commit_checks_def check_claim_def is_start_def claim0_def inner_new_def start0_def transition_new_def instance0_def
        check_start_def bt_contains_def)
  moreover have "bt_get (in_inflight_jobs inner_new) ''k'' = None" by (simp add: inner_new_def)
  ultimately obtain w' where "commit_inner x0 host0 claim0 ?t inner_new = (Inl CE_Conflict, w')"
    "in_fibers w' = in_fibers (write_fibers (cl_instance_id claim0) ?t inner_new)" "in_snapshots w' = in_snapshots inner_new"
    using failed_commit_keeps_writes [of claim0 ?t inner_new "''k''" "''worker''" "''token''" x0 host0] by auto
  then show ?thesis
    by (auto simp: write_fibers_def start0_def transition_new_def claim0_def fiber7_def fiber_new_def inner_new_def)
qed

text \<open>
  C30. A refused commit consumes what it takes. A transition that takes a pending invocation and
  whose claim is refused, for example as stale, changes no table of the store, but the pending
  invocation is gone: the same transition under any later claim of the tenant is answered with a
  conflict. The hypothesis on the rows says that the execution id is that of one row only.
\<close>

theorem refused_commit_takes_pending:
  assumes "lookup_by_execution_id (cl_tenant_id c) ex (ms_pending m) = Some v"
    and "row_by_execution (cl_tenant_id c) ex (snd (take_by_execution_id (cl_tenant_id c) ex (ms_pending m))) = None"
    and "tr_pending_take t = [ex]" and "tr_pending_invocations t = []"
    and "commit_checks c t (ms_inner m) = Inl (Refused e)"
  shows "\<exists>m'. commit_transition x h c t m = (Inl e, m') \<and> ms_inner m' = ms_inner m
    \<and> (\<forall>c'. cl_tenant_id c' = cl_tenant_id c \<longrightarrow> commit_transition x h c' t m' = (Inl CE_Conflict, m'))"
proof -
  from assms(1) obtain k where row: "row_by_execution (cl_tenant_id c) ex (ms_pending m) = Some (k, v)"
    by (auto simp: lookup_by_execution_id_def)
  let ?p = "bt_remove k (ms_pending m)"
  have ci: "commit_inner x h c t (ms_inner m) = (Inl e, ms_inner m)" by (simp add: commit_inner_def assms(5))
  have "commit_transition x h c t m = (Inl e, m\<lparr>ms_pending := ?p\<rparr>)"
    using row assms(3,4) by (simp add: commit_transition_def commit_pending_def lookup_by_execution_id_def take_by_execution_id_def ci)
  moreover have "row_by_execution (cl_tenant_id c) ex ?p = None" using assms(2) row by (simp add: take_by_execution_id_def)
  ultimately show ?thesis
    using assms(3,4) by (intro exI [of _ "m\<lparr>ms_pending := ?p\<rparr>"]) (simp add: commit_transition_def commit_pending_def lookup_by_execution_id_def)
qed

definition pending50 :: pending_invocation where
  "pending50 = \<lparr>pv_tenant_id = ''t'', pv_callout_id = 50, pv_process_instance_id = 1, pv_node_id = ''n'', pv_target_domain = ''d'',
     pv_verb_id = ''v'', pv_idempotency_key = 51, pv_execution_id = Some 52, pv_submitted_at = 0, pv_ack_received_at = None,
     pv_timeout_at = None\<rparr>"

theorem refused_commit_takes_pending_witness:
  "let t = start0\<lparr>tr_pending_take := [52]\<rparr>; m = store0\<lparr>ms_pending := bt_insert 50 pending50 bt_empty\<rparr>
   in \<exists>m'. commit_transition x0 host0 claim1 t m = (Inl (CE_Integrity (IR_Text ''instance not found'')), m')
     \<and> ms_inner m' = ms_inner m \<and> commit_transition x0 host0 claim0 t m' = (Inl CE_Conflict, m')"
proof -
  let ?t = "start0\<lparr>tr_pending_take := [52]\<rparr>" and ?m = "store0\<lparr>ms_pending := bt_insert 50 pending50 bt_empty\<rparr>"
  let ?e = "CE_Integrity (IR_Text ''instance not found'')"
  have "lookup_by_execution_id (cl_tenant_id claim1) 52 (ms_pending ?m) = Some pending50"
    "row_by_execution (cl_tenant_id claim1) 52 (snd (take_by_execution_id (cl_tenant_id claim1) 52 (ms_pending ?m))) = None"
    by (simp_all add: claim1_def lookup_by_execution_id_def row_by_execution_def take_by_execution_id_def pending50_def bt_entries_simps al_remove_def)
  moreover have "tr_pending_take ?t = [52]" "tr_pending_invocations ?t = []" by (simp_all add: start0_def transition_new_def)
  moreover have "commit_checks claim1 ?t (ms_inner ?m) = Inl (Refused ?e)"
    by (simp add: commit_checks_def check_claim_def is_start_def claim1_def store0_def inner_new_def refuse_def)
  ultimately have "\<exists>m'. commit_transition x0 host0 claim1 ?t ?m = (Inl ?e, m') \<and> ms_inner m' = ms_inner ?m
    \<and> (\<forall>c'. cl_tenant_id c' = cl_tenant_id claim1 \<longrightarrow> commit_transition x0 host0 c' ?t m' = (Inl CE_Conflict, m'))"
    by (rule refused_commit_takes_pending)
  then show ?thesis by (auto simp: claim0_def claim1_def)
qed

section \<open>Queues\<close>

text \<open>
  C27. Activations are handed out exclusively within a tenant. In every state that the activation
  calls, commits and calls that leave the activations alone reach from an empty store, at most one
  activation of a tenant and an instance is claimed, so no two workers of one tenant hold one
  instance at a time. An activation is queued under the tenant that the caller names, which is not
  compared with the tenant of the instance: activations of one instance under two tenants are
  outside the claim, and both may be held.
\<close>

theorem activation_claims_exclusive:
  assumes "(activation_step x)\<^sup>*\<^sup>* inner_new w"
  shows "one_claim w"
  using assms
proof (induction rule: rtranclp_induct)
  case base
  show ?case by (simp add: one_claim_def inner_new_def)
next
  case (step v w)
  then show ?case using activation_step_one by blast
qed

text \<open>Two activations of one instance, and a claim with room for both: one is handed out.\<close>

definition queued2 :: inner where
  "queued2 = snd (enqueue_activation_locked (host0\<lparr>h_fresh := (\<lambda>n. 200)\<rparr>) ''t'' 1 21 ''tick'' (Cmd_Tick None) None
     (snd (enqueue_activation_locked host0 ''t'' 1 20 ''tick'' (Cmd_Tick None) None inner_new)))"

theorem activation_claims_exclusive_witness:
  "let (cas, w) = claim_ready_activations x0 host0 ''t'' ''o'' 2 1000 queued2
   in map ca_activation_id cas = [100] \<and> map ma_status (bt_values (in_activations w)) = [MA_Claimed, MA_Ready] \<and> one_claim w"
proof -
  obtain cas w where c: "claim_ready_activations x0 host0 ''t'' ''o'' 2 1000 queued2 = (cas, w)" by (metis prod.collapse)
  have "(activation_step x0)\<^sup>*\<^sup>* inner_new queued2"
    unfolding queued2_def
    by (rule rtranclp.rtrancl_into_rtrancl [OF r_into_rtranclp]; rule activation_step.enqueue, rule prod.collapse [symmetric])
  then have "(activation_step x0)\<^sup>*\<^sup>* inner_new w"
    using activation_step.claim [OF c] by (rule rtranclp.rtrancl_into_rtrancl)
  then have "one_claim w" by (rule activation_claims_exclusive)
  moreover have "map ca_activation_id (fst (claim_ready_activations x0 host0 ''t'' ''o'' 2 1000 queued2)) = [100]"
    "map ma_status (bt_values (in_activations (snd (claim_ready_activations x0 host0 ''t'' ''o'' 2 1000 queued2)))) = [MA_Claimed, MA_Ready]"
    by (simp_all add: queued2_def enqueue_activation_locked_def host0_def inner_new_def Let_def claim_ready_activations_def
      bt_contains_def bt_get_insert bt_entries_simps bt_values_def activation_order_def claimed_row_def)
  ultimately show ?thesis by (simp add: c)
qed

text \<open>
  C28. A spent timer never fires again. A timer that was consumed or cancelled stays so through
  every sequence of timer claims, releases, commits and calls that leave the timers alone; no claim
  of due timers returns it; and a transition that schedules it again, as a wait in the body of a
  loop does, since the identifier of a timer does not depend on the iteration, changes nothing.
\<close>

theorem spent_timer_never_fires:
  assumes "spent k w" and "(timer_step x)\<^sup>*\<^sup>* w w'"
  shows "spent k w' \<and> k \<notin> tm_timer_id ` set (fst (claim_due_timers h tenant owner now n ms w'))
    \<and> left_in (write_effect c (DE_ScheduleTimer k fiber_id due_at kind rep) w') = w'"
proof -
  from assms(2,1) have sp: "spent k w'"
    by (induction rule: rtranclp_induct) (auto intro: timer_step_spent)
  then have "left_in (write_effect c (DE_ScheduleTimer k fiber_id due_at kind rep) w') = w'"
    by (cases "bt_get (in_timers w') k") (simp_all add: spent_def)
  moreover have "k \<notin> tm_timer_id ` set (fst (claim_due_timers h tenant owner now n ms w'))"
    by (rule spent_unclaimed(2) [OF _ sp]) (rule surjective_pairing)
  ultimately show ?thesis using sp by simp
qed

text \<open>A timer that was consumed, and a commit that schedules it again.\<close>

definition consumed_timer :: inner where
  "consumed_timer = inner_new\<lparr>in_timers := bt_insert 40 \<lparr>mt_tenant_id = ''t'', mt_instance_id = 1, mt_fiber_id = 7, mt_due_at = 10,
     mt_kind = TK_Wait, mt_repeat_spec = None, mt_state = MT_Consumed, mt_claim = None\<rparr> bt_empty\<rparr>"

theorem spent_timer_never_fires_witness:
  "let w = snd (commit_inner x0 host0 claim0 (start0\<lparr>tr_effects := [DE_ScheduleTimer 40 7 900 TK_Wait None]\<rparr>) consumed_timer)
   in spent 40 consumed_timer \<and> spent 40 w \<and> 40 \<notin> tm_timer_id ` set (fst (claim_due_timers host0 ''t'' ''o'' 1000 10 50 w))"
proof -
  let ?t = "start0\<lparr>tr_effects := [DE_ScheduleTimer 40 7 900 TK_Wait None]\<rparr>"
  have sp: "spent 40 consumed_timer" by (simp add: spent_def consumed_timer_def)
  have "(timer_step x0)\<^sup>*\<^sup>* consumed_timer (snd (commit_inner x0 host0 claim0 ?t consumed_timer))"
    by (rule r_into_rtranclp, rule timer_step.commit [OF prod.collapse [symmetric]])
  from spent_timer_never_fires [OF sp this] sp show ?thesis unfolding Let_def by blast
qed

end
