(* ===== verification/Engine.thy ===== *)
theory Engine
  imports StoreQueues
begin

text \<open>
  The job completion calls of the engine (\<open>bpmn-lite-engine/src/engine.rs\<close>): \<open>parse_job_key\<close>, the
  guard that admits one local call per instance, \<open>complete_job_body\<close> around the kernel and the store,
  and the two entry points. A call runs as one sequence of store calls. What a call reads from
  outside is in \<open>engine_call\<close>: the clocks and fresh ids at its store calls, the logical time
  of the runtime context, and the artifact repository with the cache in front of it, which is a
  lookup by content hash. The uuid parser is the one of the \<open>uuid\<close> crate.
\<close>

section \<open>State\<close>

record engine =
  en_tenant_id :: tenant_id
  en_transition_owner :: string
  en_transition_lease_ms :: u64
  en_uuid_parse :: "string \<Rightarrow> string + uuid"              \<comment> \<open>\<open>Uuid::parse_str\<close>\<close>

record engine_call =
  ec_check_host :: host
  ec_claim_host :: host
  ec_commit_host :: host
  ec_logical_time :: "string + i64"                       \<comment> \<open>\<open>RuntimeContext::logical_time\<close>\<close>
  ec_load_artifact :: "hash32 \<Rightarrow> string + executable_workflow" \<comment> \<open>\<open>load_artifact_cached\<close>\<close>

record engine_state =
  es_in_flight :: "uuid bset"
  es_store :: memory_store

datatype engine_error =
    EE_Text string                       \<comment> \<open>\<open>anyhow!\<close> with a fixed or formatted text\<close>
  | EE_InvalidUuid string
  | EE_InvalidPc string
  | EE_Tenant                            \<comment> \<open>\<open>TenantIdError::Empty\<close>\<close>
  | EE_Claim claim_error
  | EE_Artifact string
  | EE_Clock string
  | EE_Transition transition_error
  | EE_Commit commit_error

section \<open>Tenant ids\<close>

text \<open>\<open>str::trim\<close> leaves nothing: the string is a sequence of the characters with the Unicode property
  \<open>White_Space\<close>, in UTF-8.\<close>

definition white1 :: "char \<Rightarrow> bool" where
  "white1 a \<longleftrightarrow> 9 \<le> (of_char a :: nat) \<and> (of_char a :: nat) \<le> 13 \<or> a = CHR '' ''"

definition white2 :: "char \<Rightarrow> char \<Rightarrow> bool" where
  "white2 a b \<longleftrightarrow> a = CHR 0xC2 \<and> (b = CHR 0x85 \<or> b = CHR 0xA0)"

definition white3 :: "char \<Rightarrow> char \<Rightarrow> char \<Rightarrow> bool" where
  "white3 a b c \<longleftrightarrow>
     a = CHR 0xE1 \<and> b = CHR 0x9A \<and> c = CHR 0x80
     \<or> a = CHR 0xE2 \<and> b = CHR 0x80 \<and> (0x80 \<le> (of_char c :: nat) \<and> (of_char c :: nat) \<le> 0x8A
          \<or> c = CHR 0xA8 \<or> c = CHR 0xA9 \<or> c = CHR 0xAF)
     \<or> a = CHR 0xE2 \<and> b = CHR 0x81 \<and> c = CHR 0x9F
     \<or> a = CHR 0xE3 \<and> b = CHR 0x80 \<and> c = CHR 0x80"

fun is_blank :: "string \<Rightarrow> bool" where
  "is_blank [] = True"
| "is_blank [a] = white1 a"
| "is_blank [a, b] = (white1 a \<and> is_blank [b] \<or> white2 a b)"
| "is_blank (a # b # c # s) =
     (white1 a \<and> is_blank (b # c # s) \<or> white2 a b \<and> is_blank (c # s) \<or> white3 a b c \<and> is_blank s)"

definition tenant_id_new :: "string \<Rightarrow> engine_error + tenant_id" where
  "tenant_id_new v = (if is_blank v then Inl EE_Tenant else Inr v)"

section \<open>Job keys\<close>

text \<open>\<open>splitn(2, ':')\<close> and \<open>rsplitn(2, ':')\<close> with both parts present: the parts around the first and
  around the last colon.\<close>

definition split_first :: "string \<Rightarrow> (string \<times> string) option" where
  "split_first s =
     (if CHR '':'' \<in> set s
      then Some (takeWhile (\<lambda>c. c \<noteq> CHR '':'') s, tl (dropWhile (\<lambda>c. c \<noteq> CHR '':'') s)) else None)"

definition split_last :: "string \<Rightarrow> (string \<times> string) option" where
  "split_last s = map_option (\<lambda>(b, a). (List.rev a, List.rev b)) (split_first (List.rev s))"

definition parse_job_key :: "engine \<Rightarrow> string \<Rightarrow> engine_error + uuid \<times> string \<times> u32" where
  "parse_job_key en job_key =
     (let invalid = EE_Text (''Invalid job_key format: '' @ job_key) in
      try_res (ok_or (split_last job_key) invalid) (\<lambda>(rest, epoch_str).
      try_res (ok_or (split_last rest) invalid) (\<lambda>(rest2, pc_str).
      try_res (ok_or (split_first rest2) invalid) (\<lambda>(uuid_str, service_task_id).
      try_res (map_err EE_InvalidUuid (en_uuid_parse en uuid_str)) (\<lambda>instance_id.
      try_res (ok_or (parse_u32 pc_str) (EE_InvalidPc pc_str)) (\<lambda>pc.
      Inr (instance_id, service_task_id, pc)))))))"

section \<open>One call per instance\<close>

definition try_acquire_instance_guard :: "ext \<Rightarrow> uuid \<Rightarrow> engine_state \<Rightarrow> engine_error + engine_state" where
  "try_acquire_instance_guard x i es =
     (if bs_contains (es_in_flight es) i
      then Inl (EE_Text (''instance '' @ x_uuid_string x i @ '' transition already in flight in this process''))
      else Inr (es\<lparr>es_in_flight := bs_insert i (es_in_flight es)\<rparr>))"

definition release_instance_guard :: "uuid \<Rightarrow> engine_state \<Rightarrow> engine_state" where
  "release_instance_guard i es = es\<lparr>es_in_flight := bs_remove i (es_in_flight es)\<rparr>"

definition with_instance_guard ::
  "ext \<Rightarrow> uuid \<Rightarrow> (memory_store \<Rightarrow> (engine_error + 'a) \<times> memory_store) \<Rightarrow> engine_state
     \<Rightarrow> (engine_error + 'a) \<times> engine_state" where
  "with_instance_guard x i body es =
     (case try_acquire_instance_guard x i es of
        Inl e \<Rightarrow> (Inl e, es)
      | Inr es \<Rightarrow>
          case body (es_store es) of
            (r, m) \<Rightarrow> (r, release_instance_guard i (es\<lparr>es_store := m\<rparr>)))"

section \<open>Completing a job\<close>

text \<open>The part between the claim and the release: a dedupe row of the key answers the call; otherwise
  the kernel completes the job and the transition is committed under the claim.\<close>

definition complete_claimed ::
  "ext \<Rightarrow> engine_call \<Rightarrow> uuid \<Rightarrow> job_completion \<Rightarrow> claim \<Rightarrow> snapshot \<Rightarrow> memory_store
     \<Rightarrow> (engine_error + unit) \<times> memory_store" where
  "complete_claimed x ec i completion c s m =
     (case tenant_id_new (pi_tenant_id (sn_instance s)) of
        Inl e \<Rightarrow> (Inl e, m)
      | Inr _ \<Rightarrow>
          if dedupe_get (jc_job_key completion) (ms_inner m) \<noteq> None then (Inr (), m)
          else
            case try_res (map_err EE_Artifact (ec_load_artifact ec (pi_bytecode_version (sn_instance s)))) (\<lambda>artifact.
                 let revision = sat_add (cl_expected_revision c) 1;
                     effect_id = for_transition x i revision 0
                 in try_res (map_err EE_Clock (ec_logical_time ec)) (\<lambda>now.
                    try_res (ok_or (u64_try_from now) (EE_Text ''logical time cannot be negative'')) (\<lambda>logical_time.
                    map_err EE_Transition
                      (apply_command x artifact s (Cmd_EffectCompleted effect_id (EO_Job completion))
                         \<lparr>cx_logical_time = logical_time, cx_command_id = effect_id, cx_next_revision = revision\<rparr>)))) of
              Inl e \<Rightarrow> (Inl e, m)
            | Inr t \<Rightarrow>
                case commit_transition x (ec_commit_host ec) c t m of
                  (Inl e, m) \<Rightarrow> (Inl (EE_Commit e), m)
                | (Inr _, m) \<Rightarrow> (Inr (), m))"

text \<open>\<open>release_instance_transition\<close> of the memory store does not fail, so the result of the call is the
  result of the part before it.\<close>

definition complete_job_body ::
  "ext \<Rightarrow> engine \<Rightarrow> engine_call \<Rightarrow> string \<Rightarrow> string \<Rightarrow> hash32 \<Rightarrow> (string, val) btree \<Rightarrow> (string \<times> string) option
     \<Rightarrow> memory_store \<Rightarrow> (engine_error + unit) \<times> memory_store" where
  "complete_job_body x en ec job_key domain_payload expected_instance_payload_hash orch_flags claim_identity m =
     (case parse_job_key en job_key of
        Inl e \<Rightarrow> (Inl e, m)
      | Inr (i, _, _) \<Rightarrow>
          case claim_work_for_transition x (ec_claim_host ec) (en_tenant_id en) i (en_transition_owner en)
                 (en_transition_lease_ms en) (Cmd_Tick None) (ms_inner m) of
            (Inl e, w) \<Rightarrow> (Inl (EE_Claim e), m\<lparr>ms_inner := w\<rparr>)
          | (Inr None, w) \<Rightarrow>
              (Inl (EE_Text (''instance transition is leased or missing: '' @ x_uuid_string x i)), m\<lparr>ms_inner := w\<rparr>)
          | (Inr (Some (c, s, _)), w) \<Rightarrow>
              let completion = \<lparr>jc_job_key = job_key, jc_domain_payload = domain_payload,
                    jc_expected_instance_payload_hash = expected_instance_payload_hash, jc_orch_flags = orch_flags,
                    jc_worker_id = map_option fst claim_identity, jc_claim_token = map_option snd claim_identity\<rparr>;
                  (r, m) = complete_claimed x ec i completion c s (m\<lparr>ms_inner := w\<rparr>)
              in (r, m\<lparr>ms_inner := release_instance_transition (en_tenant_id en) i (cl_lease_token c) (ms_inner m)\<rparr>))"

definition complete_job_inner ::
  "ext \<Rightarrow> engine \<Rightarrow> engine_call \<Rightarrow> string \<Rightarrow> string \<Rightarrow> hash32 \<Rightarrow> (string, val) btree \<Rightarrow> (string \<times> string) option
     \<Rightarrow> engine_state \<Rightarrow> (engine_error + unit) \<times> engine_state" where
  "complete_job_inner x en ec job_key domain_payload expected_instance_payload_hash orch_flags claim_identity es =
     (case parse_job_key en job_key of
        Inl e \<Rightarrow> (Inl e, es)
      | Inr (i, _, _) \<Rightarrow>
          with_instance_guard x i
            (complete_job_body x en ec job_key domain_payload expected_instance_payload_hash orch_flags claim_identity) es)"

definition complete_job ::
  "ext \<Rightarrow> engine \<Rightarrow> engine_call \<Rightarrow> string \<Rightarrow> string \<Rightarrow> hash32 \<Rightarrow> (string, val) btree
     \<Rightarrow> engine_state \<Rightarrow> (engine_error + unit) \<times> engine_state" where
  "complete_job x en ec job_key domain_payload expected_instance_payload_hash orch_flags es =
     complete_job_inner x en ec job_key domain_payload expected_instance_payload_hash orch_flags None es"

text \<open>The claim-bound entry point first looks at the claim of the job.\<close>

definition complete_job_with_claim ::
  "ext \<Rightarrow> engine \<Rightarrow> engine_call \<Rightarrow> string \<Rightarrow> string \<Rightarrow> hash32 \<Rightarrow> (string, val) btree \<Rightarrow> string \<Rightarrow> string
     \<Rightarrow> engine_state \<Rightarrow> (engine_error + unit) \<times> engine_state" where
  "complete_job_with_claim x en ec job_key domain_payload expected_instance_payload_hash orch_flags worker_id claim_token es =
     (if worker_id = [] \<or> claim_token = [] then (Inl (EE_Text ''worker_id and claim_token are required''), es)
      else
        case try_res (parse_job_key en job_key) (\<lambda>(i, _, _).
             try_res (ok_or (load_instance (en_tenant_id en) i (ms_inner (es_store es)))
                        (EE_Text (''Instance not found for job: '' @ job_key))) (\<lambda>inst.
             try_res (tenant_id_new (pi_tenant_id inst)) (\<lambda>_.
             if validate_job_claim (ec_check_host ec) job_key worker_id claim_token (ms_inner (es_store es))
             then Inr () else Inl (EE_Text ''job claim does not match worker ownership'')))) of
          Inl e \<Rightarrow> (Inl e, es)
        | Inr _ \<Rightarrow>
            complete_job_inner x en ec job_key domain_payload expected_instance_payload_hash orch_flags
              (Some (worker_id, claim_token)) es)"

section \<open>Reading a job key back\<close>

lemma split_first_append: "CHR '':'' \<notin> set a \<Longrightarrow> split_first (a @ CHR '':'' # b) = Some (a, b)"
  unfolding split_first_def by (induction a) auto

lemma split_last_append: "CHR '':'' \<notin> set b \<Longrightarrow> split_last (a @ CHR '':'' # b) = Some (a, b)"
  using split_first_append [of "List.rev b" "List.rev a"] by (simp add: split_last_def)

lemma dec_no_colon: "CHR '':'' \<notin> set (dec_u k)"
  using dec_nat_digits [of "unat k"] by (auto simp: dec_u_def list_all_iff is_digit_def)

text \<open>The engine reads the instance, the task and the address back from the key that the kernel gives
  a job, whatever characters the task id has.\<close>

lemma parse_job_key_of:
  assumes "CHR '':'' \<notin> set (x_uuid_string x i)" and "en_uuid_parse en (x_uuid_string x i) = Inr i"
  shows "parse_job_key en (job_key_of x i task a epoch) = Inr (i, task, a)"
proof -
  let ?u = "x_uuid_string x i"
  have "split_last (job_key_of x i task a epoch) = Some (?u @ CHR '':'' # task @ CHR '':'' # dec_u a, dec_u epoch)"
    using split_last_append [OF dec_no_colon, of "?u @ CHR '':'' # task @ CHR '':'' # dec_u a" epoch]
    by (simp add: job_key_of_def)
  moreover have "split_last (?u @ CHR '':'' # task @ CHR '':'' # dec_u a) = Some (?u @ CHR '':'' # task, dec_u a)"
    using split_last_append [OF dec_no_colon, of "?u @ CHR '':'' # task" a] by simp
  ultimately show ?thesis
    using assms by (simp add: parse_job_key_def split_first_append parse_u32_dec)
qed

end
