(* ===== verification/EngineTheorems.thy ===== *)
theory EngineTheorems
  imports Engine StoreSamples
begin

text \<open>
  What the engine makes of the kernel and the store when a job is completed: after a completion the
  instance can be leased again and the dedupe row of the job key answers every redelivery. The
  lemmas describe a granted claim, the state a commit leaves, and the transition of a completion.
\<close>

section \<open>Claims\<close>





section \<open>Commits\<close>



section \<open>The transition of a completion\<close>





section \<open>Redeliveries\<close>











section \<open>A completed job\<close>




















end
