(* ===== verification/Spec2Isabelle.thy ===== *)
theory Spec2Isabelle
  imports JournalTheorems DataTheorems VerifierTheorems StoreTheorems EngineTheorems
begin

text \<open>
  A verification of the execution kernel of bpmn-lite, its program verifier, its in-memory store,
  and the job completion calls of its engine.

  The program. A workflow is a list of instructions (\<open>bpmn-lite-types/src/types.rs\<close>, \<open>Instr\<close>),
  executed by fibers that belong to one process instance. The kernel
  (\<open>bpmn-lite-kernel/src/lib.rs\<close>) is a pure function: \<open>apply\<close> takes a workflow, a snapshot of an
  instance, a command and a deterministic context, and returns a transition, a description of
  every write, or an error. A store persists the transition: \<open>commit_transition\<close> checks a claim
  against the lease and the revision of the instance, writes its tables, the snapshot and a
  journal record; \<open>replay\<close> runs the journal again on a checkpoint and compares state hashes. The
  engine stands around both: it leases an instance, runs the kernel on its snapshot, commits the
  transition and releases the lease.
  Concurrency is data: a table of records (guards, barriers, races) and, on each fiber, a stack
  of handles to them. The invariants K-1, K-2 and K-3 say that both describe one relation.

  Theories, in the order of the code.

  \<^item> \<open>Prelude\<close>, \<open>Btree\<close>: results with early return, saturating arithmetic on words, decimal
    and hexadecimal text; ordered maps and sets (\<open>BTreeMap\<close>, \<open>BTreeSet\<close>) as sorted association
    lists behind a type.
  \<^item> \<open>External\<close>: JSON values and the record \<open>ext\<close> of third-party functions the code calls
    (BLAKE3, uuid text, JSON text and number conversions, the session-stack codec). Every
    operation that reaches one of them takes the record as its first argument \<open>x\<close>; the few facts
    needed of them are hypotheses of the theorems. \<open>EffectId\<close> and its derivations.
  \<^item> \<open>Values\<close>, \<open>State\<close>, \<open>Transitions\<close>: values, instructions, artifact metadata, fibers,
    instances, concurrency records, commands, effects, mutations, transitions and their builder
    (\<open>types.rs\<close>, \<open>concurrency.rs\<close>, \<open>transition.rs\<close>, \<open>events.rs\<close>, \<open>artifact.rs\<close>,
    \<open>persistence.rs\<close>). Structs are records, enums datatypes, \<open>u32\<close> and \<open>u64\<close> words, uuids
    128-bit words.
  \<^item> \<open>Concurrency\<close>: the table, record shapes, \<open>validate_mutations\<close>.
  \<^item> \<open>Frame\<close>, \<open>FrameLaws\<close>: \<open>check_k_invariants\<close>, \<open>derive_post_transition_frame\<close>,
    \<open>ring3_shadow_check\<close>, \<open>materialize_snapshot\<close>, the limits; and what these checks mean.
  \<^item> \<open>Scopes\<close>: reading records in mid-transition, ancestor membership, triggering, cancelling
    and rolling back guard scopes. \<open>Bindings\<close>: FFI inputs and outputs, correlation keys.
  \<^item> \<open>Tick\<close>: one definition per instruction arm of \<open>apply_tick\<close>, and its step loop.
    \<open>Commands\<close>: jobs, FFI completions, messages, timers. \<open>Kernel\<close>: \<open>apply\<close>.
  \<^item> \<open>Codec\<close>, \<open>Canonical\<close>, \<open>StateHash\<close>: the canonical byte codec (\<open>canonical.rs\<close>), its primitives,
    the encoders and decoders of every type, and the state hash. \<open>Replay\<close>: the journal.
  \<^item> \<open>ScopeLaws\<close>, \<open>Preservation\<close>, \<open>ScopeWords\<close>, \<open>Cancellation\<close>, \<open>Invariants\<close>,
    \<open>CommandInvariants\<close>, \<open>Identity\<close>: the invariant of the frame and that every instruction word and
    every handler keeps it; the walk of cancelled scopes; what no command changes.
  \<^item> \<open>Worklist\<close>, \<open>Artifact\<close>, \<open>Verifier\<close>: the static verification of a program (\<open>artifact.rs\<close>,
    \<open>v2_verifier.rs\<close>) as four instances of one walk with conflict detection, whose laws are
    proved in the locale \<open>flow\<close>. \<open>VerifierLaws\<close>, \<open>VerifierLimits\<close>: the heights of the verifier
    against the steps of the interpreter, the computed limits, and that the walks end.
  \<^item> \<open>StoreState\<close>, \<open>StoreCommit\<close>, \<open>StoreQueues\<close>: the in-memory store
    (\<open>bpmn-lite-store/src/store_memory.rs\<close>, \<open>pending.rs\<close>): its tables as the record \<open>inner\<close>, the
    commit of a transition with its checks and writes in the order of the code, leases, and the
    queues of jobs, messages, timers, effects and activations. What a call reads from its host (the
    clocks, fresh identifiers) is the record \<open>host\<close>. A write that fails returns the state reached.
  \<^item> \<open>Quiet\<close>, \<open>StoreLaws\<close>, \<open>StoreWrites\<close>, \<open>StoreFrame\<close>, \<open>StoreSafety\<close>, \<open>StoreRuns\<close>: which parts of a
    transition the kernel leaves empty; the committed tables are those of \<open>materialize_snapshot\<close>;
    the contract of the writes of a commit as the locale \<open>store_writes\<close>; what the other calls
    leave alone; the invariants of activations and timers; and runs of the store.
  \<^item> \<open>Engine\<close>: the job completion calls of the engine (\<open>bpmn-lite-engine/src/engine.rs\<close>), with the guard
    that admits one local call per instance, as functions of the engine's state. The artifact
    repository with its cache, the runtime clock and the uuid parser are parameters.
  \<^item> \<open>Samples\<close>, \<open>StoreSamples\<close>: concrete programs, instances and commands for the witnesses.
  \<^item> \<open>KernelTheorems\<close>, \<open>HandlerTheorems\<close>, \<open>JournalTheorems\<close>, \<open>DataTheorems\<close>,
    \<open>VerifierTheorems\<close>, \<open>StoreTheorems\<close>, \<open>EngineTheorems\<close> and this theory: the properties.

  What is shown. Whatever the snapshot, a transition that \<open>apply\<close> returns leaves a legal frame,
  since the Ring 3 check is exact and the persisted frame is the checked one; and on a legal
  frame the handlers themselves keep it legal, so that the check does not refuse them, under
  conditions on the identities and scopes of the command that are stated as \<open>command_ready\<close>.
  Cancel and Terminate are always accepted. Handlers act once: an incident is resolved once, a
  race decided once, a message delivered to the first fiber that waits for it or buffered. A
  completed job stays completed: the engine answers a redelivery of its key without a write,
  with success or, at the claim-bound entry point, with a refusal. Forks, joins, error routes
  and rollbacks do what their words say, and a repeating guard timer is consumed after its count
  of deliveries, or earlier when its guard is closed. The byte codec round-trips on what the format
  can hold (lengths below \<open>2 ^ 32\<close>, UTF-8 strings, array values within the nesting and length limits),
  the state hash pins the state up to collisions of the hash, and replay accepts exactly the
  journals that agree with a run of the kernel in the fields that it reads; prior state hashes,
  events and effect ids of a record it does not read. The verifier accepts a program exactly when
  its addresses can be given consistent abstract stacks and every reachable instruction has a path
  to a terminal one. A fiber that runs a verified program from its entry never underflows a stack
  and stays within the limits of the artifact, if the program has no \<open>V2CancelScope\<close>, no \<open>ExecNative\<close>
  with operands or results, and fewer than \<open>2 ^ 32 - 1\<close> instructions. Three accepted programs show
  what the verifier does not see: handlers of error routes, the instruction behind a
  \<open>V2CancelScope\<close>, and backward payload routes.
  The store refines the journal: over any interleaving of its calls, replaying the records of an
  instance from its first snapshot gives the snapshot stored last. A claim commits at most one
  transition of the kernel, at most one activation of a tenant and an instance is claimed, and a
  spent timer is never delivered again. Three theorems show what the store does not give: commits
  are not atomic when they fail after their checks, a refused commit has already taken its pending
  invocations, and the fence of an instance restarts at one when its lease is gone.

  Bounds. Four recursions have no structural measure. The tick loop runs under the step limit
  of the artifact, as in the source, and reports its exhaustion as the source does. The walk
  \<open>v2_cancel_guard_scope\<close> recurses over control stacks: it takes fuel, \<open>scope_fuel\<close> is the number
  of handles on all stacks and one more, and on coherent stacks that is enough and more changes
  nothing; running out is the error \<open>StackOverflow\<close>, the stack overflow of the source on stacks
  that are not coherent. \<open>decode_value\<close> recurses at most one level past the nesting limit it
  enforces, which is the fuel it takes. The walks of the verifier take one unit of fuel per
  instruction and one more, which is always enough.

  Not modelled. Of the in-memory store, the tables of the design tools (templates, manifests,
  published programs) and the listing calls that only read them, and the errors \<open>Unavailable\<close> of a
  pending registry that fails, which the in-memory one never does. The Postgres store is SQL
  against a server. Of the engine only the job completion calls are modelled, each as one sequence of
  store calls; starts, ticks, failures, messages and the schedulers are asynchronous orchestration
  of kernel, store and adapters, and their transitions are kernel transitions or starts. The servers, the bus and the FFI adapters are I/O; the compilers, the decision language dmn-lite
  and the authoring and analysis tools produce programs or results that the kernel theorems
  quantify over. Serde (de)serialisation of envelopes is third-party code.
\<close>

text \<open>
  C1. \<open>check_k_invariants\<close> accepts a frame exactly when the membership relation of the armed
  records and the control stacks of the live fibers are the same relation (K-1, K-2) and every
  armed barrier has an outstanding count between one and its arity (K-3).
\<close>

theorem check_k_invariants_exact:
  "check_k_invariants fibers table = Inr () \<longleftrightarrow>
     member_rel table = holds_rel fibers \<and> K3 table"
  using check_k_iff [of fibers table] K12_iff [of fibers table] by blast

end
